theory Spec2Isabelle
  imports Main "HOL-Library.Sublist"
begin

text \<open>
  A model of the Go package \<^verbatim>\<open>gdown\<close> (file and folder downloads from Google Drive)
  and proofs of properties of its URL parsing, its download loop, its cache, its
  throttled writer and its folder resolution.  The definitions come first, in the
  order of their dependencies; the properties follow.
\<close>

section \<open>Go standard library functions used by the package\<close>

text \<open>
  Go strings are byte sequences; they are modelled as \<^typ>\<open>string\<close> (lists of 8-bit
  characters).  The functions of this section are not code of the repository: they
  are the parts of \<^verbatim>\<open>strings\<close>, \<^verbatim>\<open>path\<close> and \<^verbatim>\<open>path/filepath\<close> (Unix flavour,
  \<^verbatim>\<open>os.PathSeparator = '/'\<close>) that the package calls, written out after their
  documentation.
\<close>

definition PathSeparator :: char where
  "PathSeparator = CHR ''/''"

definition strings_HasPrefix :: "string \<Rightarrow> string \<Rightarrow> bool" where
  "strings_HasPrefix s pre = prefix pre s"

definition strings_HasSuffix :: "string \<Rightarrow> string \<Rightarrow> bool" where
  "strings_HasSuffix s suf = suffix suf s"

text \<open>
  \<^verbatim>\<open>strings.ReplaceAll(s, old, new)\<close> for a non-empty \<open>old\<close>: the non-overlapping
  occurrences of \<open>old\<close> are replaced from left to right.
\<close>

function replace_from :: "string \<Rightarrow> string \<Rightarrow> string \<Rightarrow> string" where
  "replace_from [] old new = []"
| "replace_from (c # s) old new =
     (if old \<noteq> [] \<and> prefix old (c # s)
      then new @ replace_from (drop (length old) (c # s)) old new
      else c # replace_from s old new)"
  by pat_completeness auto
termination
  by (relation "measure (\<lambda>(s, old, new). length s)") auto

text \<open>
  With an empty \<open>old\<close> Go inserts \<open>new\<close> before every rune and at the end; the
  equation below is that behaviour on strings of one-byte runes.  Every call in the
  package passes a non-empty \<open>old\<close>.
\<close>

definition strings_ReplaceAll :: "string \<Rightarrow> string \<Rightarrow> string \<Rightarrow> string" where
  "strings_ReplaceAll s old new =
     (if old = [] then new @ concat (map (\<lambda>c. c # new) s) else replace_from s old new)"

text \<open>Splitting at a one-byte separator (all that \<^verbatim>\<open>Clean\<close> and \<^verbatim>\<open>Base\<close> need).\<close>

fun split_on :: "char \<Rightarrow> string \<Rightarrow> string list" where
  "split_on sep [] = [[]]"
| "split_on sep (c # s) =
     (if c = sep then [] # split_on sep s
      else (case split_on sep s of [] \<Rightarrow> [[c]] | w # ws \<Rightarrow> (c # w) # ws))"

fun join_with :: "string \<Rightarrow> string list \<Rightarrow> string" where
  "join_with sep [] = []"
| "join_with sep [w] = w"
| "join_with sep (w # ws) = w @ sep @ join_with sep ws"

text \<open>
  \<^verbatim>\<open>filepath.Clean\<close>: empty and \<open>.\<close> elements are dropped, an inner \<open>..\<close> removes the
  element before it, a \<open>..\<close> at the start of a rooted path is dropped, a \<open>..\<close> at the
  start of a relative path is kept; the empty result is \<open>.\<close>.  The elements are
  kept on a stack, the last one first.
\<close>

fun clean_elems :: "bool \<Rightarrow> string list \<Rightarrow> string list \<Rightarrow> string list" where
  "clean_elems rooted stack [] = rev stack"
| "clean_elems rooted stack (e # es) =
     (if e = [] \<or> e = ''.'' then clean_elems rooted stack es
      else if e = ''..'' then
        (case stack of
           [] \<Rightarrow> if rooted then clean_elems rooted [] es else clean_elems rooted [''..''] es
         | t # ts \<Rightarrow>
             if t = ''..'' then clean_elems rooted (''..'' # stack) es
             else clean_elems rooted ts es)
      else clean_elems rooted (e # stack) es)"

definition filepath_Clean :: "string \<Rightarrow> string" where
  "filepath_Clean p =
     (let rooted = (p \<noteq> [] \<and> hd p = PathSeparator);
          body = join_with [PathSeparator] (clean_elems rooted [] (split_on PathSeparator p));
          out = (if rooted then PathSeparator # body else body)
      in if out = [] then ''.'' else out)"

text \<open>
  \<^verbatim>\<open>filepath.Join\<close>: the elements from the first non-empty one on are joined with the
  separator and cleaned; when every element is empty the result is empty.
\<close>

fun filepath_Join :: "string list \<Rightarrow> string" where
  "filepath_Join [] = []"
| "filepath_Join (e # es) =
     (if e = [] then filepath_Join es
      else filepath_Clean (join_with [PathSeparator] (e # es)))"

section \<open>Folder trees and their flattening\<close>

text \<open>
  \<^verbatim>\<open>GoogleDriveFile\<close> is a node of the folder tree; \<^verbatim>\<open>FileToDownload\<close> is one entry of
  the flattened listing.
\<close>

datatype GoogleDriveFile =
  GoogleDriveFile (ID: string) (Name: string) (Type: string) (Children: "GoogleDriveFile list")

definition IsFolder :: "GoogleDriveFile \<Rightarrow> bool" where
  "IsFolder f = (Type f = ''application/vnd.google-apps.folder'')"

record FileToDownload =
  fd_ID :: string
  fd_Path :: string
  fd_LocalPath :: string

text \<open>
  \<^verbatim>\<open>getDirectoryStructure\<close>: the loop over \<^verbatim>\<open>gfile.Children\<close> is \<open>gds_children\<close>; the
  entries of a child are appended before the loop goes on with its next sibling.
\<close>

fun getDirectoryStructure :: "GoogleDriveFile \<Rightarrow> string \<Rightarrow> FileToDownload list"
  and gds_children :: "GoogleDriveFile list \<Rightarrow> string \<Rightarrow> FileToDownload list" where
  "getDirectoryStructure (GoogleDriveFile i n t cs) prevPath = gds_children cs prevPath"
| "gds_children [] prevPath = []"
| "gds_children (child # rest) prevPath =
     (let safeName = strings_ReplaceAll (Name child) [PathSeparator] ''_'' in
      (if IsFolder child then
         (let newPath = filepath_Join [prevPath, safeName] in
          \<lparr>fd_ID = [], fd_Path = newPath, fd_LocalPath = newPath\<rparr>
            # getDirectoryStructure child newPath)
       else
         (let filePath = filepath_Join [prevPath, safeName] in
          [\<lparr>fd_ID = ID child, fd_Path = filePath, fd_LocalPath = []\<rparr>]))
      @ gds_children rest prevPath)"

text \<open>
  Positions in a tree: the list of child indices leading from the root to a node.
  \<open>subtree_at\<close> reads the node at a position; \<open>visit\<close> lists the positions of the
  nodes in the order of a depth-first pre-order walk that descends into folders
  only and leaves out the root.
\<close>

fun subtree_at :: "GoogleDriveFile \<Rightarrow> nat list \<Rightarrow> GoogleDriveFile option" where
  "subtree_at g [] = Some g"
| "subtree_at g (k # ks) =
     (if k < length (Children g) then subtree_at (Children g ! k) ks else None)"

fun visit :: "GoogleDriveFile \<Rightarrow> nat list list"
  and visit_children :: "GoogleDriveFile list \<Rightarrow> nat \<Rightarrow> nat list list" where
  "visit (GoogleDriveFile i n t cs) = visit_children cs 0"
| "visit_children [] k = []"
| "visit_children (c # rest) k =
     ([k] # (if IsFolder c then map ((#) k) (visit c) else []))
       @ visit_children rest (Suc k)"

definition entry_id :: "GoogleDriveFile \<Rightarrow> string" where
  "entry_id n = (if IsFolder n then [] else ID n)"

fun node_at_list :: "GoogleDriveFile list \<Rightarrow> nat list \<Rightarrow> GoogleDriveFile option" where
  "node_at_list cs [] = None"
| "node_at_list cs (k # ks) = (if k < length cs then subtree_at (cs ! k) ks else None)"

text \<open>A small tree used to exercise the flattening: a folder with one file, then a file.\<close>

definition example_tree :: GoogleDriveFile where
  "example_tree =
     GoogleDriveFile ''root'' ''My Folder'' ''application/vnd.google-apps.folder''
       [GoogleDriveFile ''dA'' ''docs'' ''application/vnd.google-apps.folder''
          [GoogleDriveFile ''f1'' ''a/b.txt'' ''text/plain'' []],
        GoogleDriveFile ''f2'' ''report.txt'' ''text/plain'' []]"

section \<open>Errors\<close>

text \<open>
  Go errors are values.  The package's own errors are the constructors below, each
  carrying the strings its message is formatted from; \<open>LibError\<close> stands for an error
  returned by a library call (\<^verbatim>\<open>net/url\<close>, \<^verbatim>\<open>net/http\<close>, \<^verbatim>\<open>os\<close>, \<^verbatim>\<open>io\<close>,
  \<^verbatim>\<open>encoding/json\<close>) and passed on unchanged.
\<close>

datatype error =
    ErrFileURLRetrieval                     \<comment> \<open>\<^verbatim>\<open>failed to retrieve file URL\<close>\<close>
  | ErrInvalidHashFormat string             \<comment> \<open>\<^verbatim>\<open>invalid hash format: %s\<close>\<close>
  | ErrUnsupportedHashAlgorithm string      \<comment> \<open>\<^verbatim>\<open>unsupported hash algorithm: %s\<close>\<close>
  | ErrHashMismatch string string           \<comment> \<open>\<^verbatim>\<open>hash mismatch: actual %s, expected %s\<close>\<close>
  | ErrHashMismatchForFile string           \<comment> \<open>\<^verbatim>\<open>hash mismatch for file %s\<close>\<close>
  | ErrHTTP string                          \<comment> \<open>\<^verbatim>\<open>HTTP error: %s\<close>\<close>
  | ErrFolderStatus string                  \<comment> \<open>\<^verbatim>\<open>failed to retrieve folder contents, status: %s\<close>\<close>
  | ErrFolderTooLarge                       \<comment> \<open>\<^verbatim>\<open>folder has more than 50 files\<close>\<close>
  | ErrEitherUrlOrId                        \<comment> \<open>\<^verbatim>\<open>either url or id must be specified\<close>\<close>
  | ErrNoEncodedString                      \<comment> \<open>\<^verbatim>\<open>could not find the folder encoded JS string\<close>\<close>
  | ErrDecodeEscapes error                  \<comment> \<open>\<^verbatim>\<open>couldn't decode unicode escapes: %w\<close>\<close>
  | ErrFolderName string                    \<comment> \<open>\<^verbatim>\<open>folder name cannot be extracted from title: %s\<close>\<close>
  | LibError string

section \<open>The confirmation page\<close>

definition dquote :: char where
  "dquote = CHR 0x22"

definition strip_prefix :: "string \<Rightarrow> string \<Rightarrow> string option" where
  "strip_prefix pre s = (if prefix pre s then Some (drop (length pre) s) else None)"

text \<open>
  The regular expression of \<^verbatim>\<open>getUrlFromGDriveConfirmation\<close> is
  \<^verbatim>\<open>href="(\/uc\?export=download[^"]+)"\<close>: the literal \<open>href_open\<close>, then the group,
  which is the literal \<open>download_prefix\<close> followed by one or more bytes other than the
  double quote, then a double quote.  \<open>match_href_here\<close> matches it at the start of
  its argument and returns the group; the greedy run of non-quote bytes must be
  non-empty and be followed by a quote.  \<open>find_href\<close> is \<^verbatim>\<open>FindStringSubmatch\<close>: the
  leftmost match.
\<close>

definition href_open :: string where
  "href_open = ''href='' @ [dquote]"

definition download_prefix :: string where
  "download_prefix = ''/uc?export=download''"

definition match_href_here :: "string \<Rightarrow> string option" where
  "match_href_here s =
     (case strip_prefix (href_open @ download_prefix) s of
        None \<Rightarrow> None
      | Some rest \<Rightarrow>
          (let body = takeWhile (\<lambda>c. c \<noteq> dquote) rest;
               after = dropWhile (\<lambda>c. c \<noteq> dquote) rest
           in if body \<noteq> [] \<and> after \<noteq> [] then Some (download_prefix @ body) else None))"

fun find_href :: "string \<Rightarrow> string option" where
  "find_href [] = None"
| "find_href (c # s) =
     (case match_href_here (c # s) of Some m \<Rightarrow> Some m | None \<Rightarrow> find_href s)"

definition getUrlFromGDriveConfirmation :: "string \<Rightarrow> error + string" where
  "getUrlFromGDriveConfirmation html =
     (case find_href html of
        Some m \<Rightarrow>
          (let urlStr = ''https://docs.google.com'' @ m;
               urlStr = strings_ReplaceAll urlStr ''&amp;'' ''&''
           in Inr urlStr)
      | None \<Rightarrow> Inl ErrFileURLRetrieval)"

text \<open>
  An occurrence in the page text of an \<open>href\<close> attribute in double quotes whose value
  \<open>v\<close> begins with the export-download prefix; \<open>pre\<close> is the text before it.  The
  second predicate asks, in addition, that the value goes on after the prefix.
\<close>

definition href_at :: "string \<Rightarrow> string \<Rightarrow> string \<Rightarrow> bool" where
  "href_at html pre v =
     (dquote \<notin> set v \<and> prefix download_prefix v \<and>
      (\<exists>post. html = pre @ href_open @ v @ [dquote] @ post))"

definition href_longer_at :: "string \<Rightarrow> string \<Rightarrow> string \<Rightarrow> bool" where
  "href_longer_at html pre v =
     (dquote \<notin> set v \<and> strict_prefix download_prefix v \<and>
      (\<exists>post. html = pre @ href_open @ v @ [dquote] @ post))"

text \<open>Two pages: a link with nothing after the prefix, and an ordinary confirmation link.\<close>

definition bare_page :: string where
  "bare_page = ''<a '' @ href_open @ download_prefix @ [dquote] @ ''>''"

definition confirm_page :: string where
  "confirm_page =
     ''<a id=x '' @ href_open @ ''/uc?export=download&amp;confirm=t&amp;id=A1'' @ [dquote] @ ''>''"

section \<open>The environment: URLs, HTTP, the filesystem\<close>

text \<open>
  The package reaches the outside through library calls.  Their results are taken
  from an environment \<open>E\<close>, a record with one field for each call, so that every
  statement below holds for whatever the libraries and the operating system answer.

  A parsed URL is represented by what the package reads from it: the result of
  \<^verbatim>\<open>Hostname()\<close>, the field \<^verbatim>\<open>Path\<close>, and the result of \<^verbatim>\<open>Query()\<close>, a map from keys
  to the lists of their values.
\<close>

record URL =
  Hostname :: string
  Path :: string
  Query :: "string \<rightharpoonup> string list"

definition Values_Has :: "(string \<rightharpoonup> string list) \<Rightarrow> string \<Rightarrow> bool" where
  "Values_Has v key = (v key \<noteq> None)"

definition Values_Get :: "(string \<rightharpoonup> string list) \<Rightarrow> string \<Rightarrow> string" where
  "Values_Get v key = (case v key of Some (x # xs) \<Rightarrow> x | _ \<Rightarrow> [])"

record http_request =
  rq_Method :: string
  rq_URL :: string
  rq_Header :: "(string \<times> string) list"

text \<open>
  A response: the status line and code, the headers (\<^verbatim>\<open>Header.Get\<close> gives the empty
  string for a missing header), the bytes of the body, and the error, if any, that
  reading the body ends with.
\<close>

record http_response =
  rs_Status :: string
  rs_StatusCode :: int
  rs_Header :: "string \<rightharpoonup> string"
  rs_Body :: string
  rs_BodyErr :: "error option"

definition Header_Get :: "http_response \<Rightarrow> string \<Rightarrow> string" where
  "Header_Get resp key = (case rs_Header resp key of Some v \<Rightarrow> v | None \<Rightarrow> [])"

definition io_ReadAll :: "http_response \<Rightarrow> error + string" where
  "io_ReadAll resp = (case rs_BodyErr resp of Some e \<Rightarrow> Inl e | None \<Rightarrow> Inr (rs_Body resp))"

record http_client =
  hc_Proxy :: "URL option"
  hc_InsecureSkipVerify :: bool
  hc_Jar :: bool

record os_FileInfo =
  fi_IsDir :: bool
  fi_Size :: int

text \<open>A node of the \<^verbatim>\<open>interface{}\<close> tree that \<^verbatim>\<open>json.Unmarshal\<close> builds.\<close>

datatype json =
  JNull | JBool bool | JNumber string | JString string | JArray "json list"
  | JObject "(string \<times> json) list"

text \<open>
  The environment.  \<open>'f\<close> is the state of the filesystem.  An operation that can
  fail and change the filesystem returns its error (or result) together with the
  new state.
  \<^item> \<open>url_Parse\<close> is \<^verbatim>\<open>url.Parse\<close>.
  \<^item> \<open>http_Do\<close> is \<^verbatim>\<open>client.Do\<close>: it answers a request given the client and the
    requests sent before it.
  \<^item> \<open>os_Stat\<close>, \<open>os_Create\<close>, \<open>os_Rename\<close>, \<open>os_MkdirAll\<close>, \<open>os_MkdirTemp\<close>,
    \<open>os_RemoveAll\<close> and \<open>os_Getwd\<close> are the calls of package \<^verbatim>\<open>os\<close> of those names
    (\<open>os_Getwd\<close> gives the empty string where \<^verbatim>\<open>os.Getwd\<close> fails);
    \<open>os_OpenAppend\<close> is \<^verbatim>\<open>os.OpenFile\<close> with \<^verbatim>\<open>O_CREATE|O_WRONLY|O_APPEND\<close>;
    \<open>file_Write\<close> writes bytes to the end of the file just opened;
    \<open>os_ReadFile\<close> is \<^verbatim>\<open>os.Open\<close> followed by reading the whole file.
  \<^item> \<open>user_HomeDir\<close> is the home directory of \<^verbatim>\<open>user.Current()\<close>, or its error.
  \<^item> \<open>md5_Sum\<close> is the MD5 digest (sixteen bytes) of a byte string.
  \<^item> \<open>script_Htmls\<close> and \<open>title_Text\<close> read an HTML document as \<^verbatim>\<open>goquery\<close> does: the
    inner HTML of every \<^verbatim>\<open>script\<close> element in document order, and the text of the first
    \<^verbatim>\<open>title\<close> element; \<open>html_UnescapeString\<close> is \<^verbatim>\<open>html.UnescapeString\<close>.
  \<^item> \<open>json_UnmarshalString\<close> and \<open>json_UnmarshalArray\<close> are \<^verbatim>\<open>json.Unmarshal\<close> into a
    \<^verbatim>\<open>string\<close> and into a \<^verbatim>\<open>[]interface{}\<close>.

  What the package prints on standard error is left out, except for the advisory
  of \<^verbatim>\<open>ParseUrl\<close>.
\<close>

record 'f env =
  url_Parse :: "string \<Rightarrow> error + URL"
  http_Do :: "http_client \<Rightarrow> http_request list \<Rightarrow> http_request \<Rightarrow> error + http_response"
  os_Stat :: "'f \<Rightarrow> string \<Rightarrow> error + os_FileInfo"
  os_Create :: "'f \<Rightarrow> string \<Rightarrow> error option \<times> 'f"
  os_OpenAppend :: "'f \<Rightarrow> string \<Rightarrow> error option \<times> 'f"
  file_Write :: "'f \<Rightarrow> string \<Rightarrow> string \<Rightarrow> error option \<times> 'f"
  os_ReadFile :: "'f \<Rightarrow> string \<Rightarrow> error + string"
  os_Rename :: "'f \<Rightarrow> string \<Rightarrow> string \<Rightarrow> error option \<times> 'f"
  os_MkdirAll :: "'f \<Rightarrow> string \<Rightarrow> error option \<times> 'f"
  os_MkdirTemp :: "'f \<Rightarrow> string \<Rightarrow> string \<Rightarrow> (error + string) \<times> 'f"
  os_RemoveAll :: "'f \<Rightarrow> string \<Rightarrow> error option \<times> 'f"
  os_Getwd :: "'f \<Rightarrow> string"
  user_HomeDir :: "error + string"
  md5_Sum :: "string \<Rightarrow> string"
  script_Htmls :: "string \<Rightarrow> string list"
  html_UnescapeString :: "string \<Rightarrow> string"
  title_Text :: "string \<Rightarrow> string"
  json_UnmarshalString :: "string \<Rightarrow> error + string"
  json_UnmarshalArray :: "string \<Rightarrow> error + json list"

text \<open>The world: the filesystem and the log of the HTTP requests sent so far.\<close>

record 'f world =
  fsys :: 'f
  sent :: "http_request list"

definition client_Do ::
  "'f env \<Rightarrow> http_client \<Rightarrow> http_request \<Rightarrow> 'f world \<Rightarrow> (error + http_response) \<times> 'f world" where
  "client_Do E client req w = (http_Do E client (sent w) req, w\<lparr>sent := sent w @ [req]\<rparr>)"

text \<open>
  \<^verbatim>\<open>http.NewRequest("GET", urlStr, nil)\<close> fails exactly when \<^verbatim>\<open>url.Parse\<close> fails on
  \<open>urlStr\<close>, with the same error.
\<close>

definition http_NewRequest :: "'f env \<Rightarrow> string \<Rightarrow> error + http_request" where
  "http_NewRequest E urlStr =
     (case url_Parse E urlStr of
        Inl e \<Rightarrow> Inl e
      | Inr u \<Rightarrow> Inr \<lparr>rq_Method = ''GET'', rq_URL = urlStr, rq_Header = []\<rparr>)"

definition Header_Set :: "http_request \<Rightarrow> string \<Rightarrow> string \<Rightarrow> http_request" where
  "Header_Set req key v =
     req\<lparr>rq_Header := filter (\<lambda>(k, x). k \<noteq> key) (rq_Header req) @ [(key, v)]\<rparr>"

section \<open>Options\<close>

record DownloadOptions =
  Quiet :: bool
  Proxy :: string
  Speed :: int
  UseCookies :: bool
  Verify :: bool
  Resume :: bool
  Fuzzy :: bool
  Format :: string
  UserAgent :: string

record FolderOptions = DownloadOptions +
  RemainingOk :: bool

section \<open>Helper functions of the package\<close>

text \<open>\<^verbatim>\<open>fileExists\<close>: the name exists and is not a directory.\<close>

definition fileExists :: "'f env \<Rightarrow> 'f \<Rightarrow> string \<Rightarrow> bool" where
  "fileExists E f filename =
     (case os_Stat E f filename of Inr info \<Rightarrow> \<not> fi_IsDir info | Inl e \<Rightarrow> False)"

definition sanitizeFilename :: "string \<Rightarrow> string" where
  "sanitizeFilename name = strings_ReplaceAll name [PathSeparator] ''_''"

definition getCacheRoot :: "'f env \<Rightarrow> string" where
  "getCacheRoot E =
     (case user_HomeDir E of
        Inl e \<Rightarrow> ''.''
      | Inr home \<Rightarrow> filepath_Join [home, ''.cache'', ''gdown''])"

text \<open>
  \<^verbatim>\<open>newHTTPClient\<close>.  \<^verbatim>\<open>cookiejar.New(nil)\<close> has no failing path in the library, so
  the only error is that of parsing the proxy.
\<close>

definition newHTTPClient :: "'f env \<Rightarrow> 'a DownloadOptions_scheme \<Rightarrow> error + http_client" where
  "newHTTPClient E opts =
     (if Proxy opts \<noteq> [] then
        (case url_Parse E (Proxy opts) of
           Inl e \<Rightarrow> Inl e
         | Inr proxyURL \<Rightarrow>
             Inr \<lparr>hc_Proxy = Some proxyURL, hc_InsecureSkipVerify = \<not> Verify opts,
                  hc_Jar = UseCookies opts\<rparr>)
      else
        Inr \<lparr>hc_Proxy = None, hc_InsecureSkipVerify = \<not> Verify opts, hc_Jar = UseCookies opts\<rparr>)"

section \<open>URL parsing\<close>

definition IsGoogleDriveUrl :: "'f env \<Rightarrow> string \<Rightarrow> bool" where
  "IsGoogleDriveUrl E urlStr =
     (case url_Parse E urlStr of
        Inl e \<Rightarrow> False
      | Inr u \<Rightarrow>
          (let host = Hostname u
           in host = ''drive.google.com'' \<or> host = ''docs.google.com''))"

text \<open>
  The eight patterns of \<^verbatim>\<open>ParseUrl\<close> have one shape,
  \<^verbatim>\<open>^/KIND/d/(.*?)/(A1|A2|...)$\<close> or \<^verbatim>\<open>^/KIND/u/[0-9]+/d/(.*?)/(A1|A2|...)$\<close>.
  A pattern is given by its kind, whether it has the user-index segment, and its
  list of final actions.  The actions hold no slash, so the text after the last
  slash of the path decides the action, and the lazy group is what stands between
  \<^verbatim>\<open>d/\<close> and that last slash; the dot of the group matches every byte but the
  newline.
\<close>

record path_pattern =
  pp_kind :: string
  pp_user :: bool
  pp_actions :: "string list"

definition is_digit :: "char \<Rightarrow> bool" where
  "is_digit c = (c \<in> set ''0123456789'')"

definition match_user_index :: "string \<Rightarrow> string option" where
  "match_user_index s =
     (case strip_prefix ''u/'' s of
        None \<Rightarrow> None
      | Some r \<Rightarrow>
          (if takeWhile is_digit r \<noteq> [] then strip_prefix ''/'' (dropWhile is_digit r)
           else None))"

definition capture_before_action :: "string list \<Rightarrow> string \<Rightarrow> string option" where
  "capture_before_action actions s =
     (case filter (\<lambda>a. suffix (CHR ''/'' # a) s) actions of
        [] \<Rightarrow> None
      | a # _ \<Rightarrow>
          (let cap = take (length s - Suc (length a)) s
           in if CHR 0x0A \<in> set cap then None else Some cap))"

definition match_pattern :: "path_pattern \<Rightarrow> string \<Rightarrow> string option" where
  "match_pattern p path =
     (case strip_prefix (''/'' @ pp_kind p @ ''/'') path of
        None \<Rightarrow> None
      | Some r \<Rightarrow>
          (case (if pp_user p then match_user_index r else Some r) of
             None \<Rightarrow> None
           | Some r1 \<Rightarrow>
               (case strip_prefix ''d/'' r1 of
                  None \<Rightarrow> None
                | Some r2 \<Rightarrow> capture_before_action (pp_actions p) r2)))"

definition patterns :: "path_pattern list" where
  "patterns =
     [\<lparr>pp_kind = ''file'', pp_user = False, pp_actions = [''edit'', ''view'']\<rparr>,
      \<lparr>pp_kind = ''file'', pp_user = True, pp_actions = [''edit'', ''view'']\<rparr>,
      \<lparr>pp_kind = ''document'', pp_user = False, pp_actions = [''edit'', ''htmlview'', ''view'']\<rparr>,
      \<lparr>pp_kind = ''document'', pp_user = True, pp_actions = [''edit'', ''htmlview'', ''view'']\<rparr>,
      \<lparr>pp_kind = ''presentation'', pp_user = False, pp_actions = [''edit'', ''htmlview'', ''view'']\<rparr>,
      \<lparr>pp_kind = ''presentation'', pp_user = True, pp_actions = [''edit'', ''htmlview'', ''view'']\<rparr>,
      \<lparr>pp_kind = ''spreadsheets'', pp_user = False, pp_actions = [''edit'', ''htmlview'', ''view'']\<rparr>,
      \<lparr>pp_kind = ''spreadsheets'', pp_user = True, pp_actions = [''edit'', ''htmlview'', ''view'']\<rparr>]"

text \<open>The loop over the patterns: the first one that matches gives the identifier.\<close>

fun first_match :: "path_pattern list \<Rightarrow> string \<Rightarrow> string" where
  "first_match [] path = []"
| "first_match (p # ps) path =
     (case match_pattern p path of Some m \<Rightarrow> m | None \<Rightarrow> first_match ps path)"

text \<open>
  The result of \<^verbatim>\<open>ParseUrl\<close>: its three results, and whether the advisory was
  written to standard error.
\<close>

record ParseUrl_result =
  fileId :: string
  isDownloadLink :: bool
  err :: "error option"
  warned :: bool

definition ParseUrl :: "'f env \<Rightarrow> string \<Rightarrow> bool \<Rightarrow> ParseUrl_result" where
  "ParseUrl E urlStr warn =
     (case url_Parse E urlStr of
        Inl e \<Rightarrow> \<lparr>fileId = [], isDownloadLink = False, err = Some e, warned = False\<rparr>
      | Inr parsed \<Rightarrow>
          (let queryParams = Query parsed;
               isGDrive = IsGoogleDriveUrl E urlStr;
               isDL = strings_HasSuffix (Path parsed) ''/uc''
           in if \<not> isGDrive then
                \<lparr>fileId = [], isDownloadLink = False, err = None, warned = False\<rparr>
              else if Values_Has queryParams ''id'' then
                \<lparr>fileId = Values_Get queryParams ''id'', isDownloadLink = isDL, err = None,
                 warned = False\<rparr>
              else
                (let fid = first_match patterns (Path parsed)
                 in \<lparr>fileId = fid, isDownloadLink = isDL, err = None,
                     warned = (warn \<and> fid \<noteq> [] \<and> \<not> isDL)\<rparr>)))"

section \<open>Download\<close>

text \<open>\<^verbatim>\<open>path.Base\<close>: the last element of a slash-separated path.\<close>

definition path_Base :: "string \<Rightarrow> string" where
  "path_Base p =
     (if p = [] then ''.''
      else
        (let q = rev (dropWhile (\<lambda>c. c = CHR ''/'') (rev p));
             r = rev (takeWhile (\<lambda>c. c \<noteq> CHR ''/'') (rev q))
         in if r = [] then ''/'' else r))"

text \<open>Decimal digits of a natural number, for \<^verbatim>\<open>%d\<close>.\<close>

function itoa :: "nat \<Rightarrow> string" where
  "itoa n =
     (if n < 10 then [''0123456789'' ! n]
      else itoa (n div 10) @ [''0123456789'' ! (n mod 10)])"
  by pat_completeness auto
termination
  by (relation "measure id") auto

text \<open>
  \<^verbatim>\<open>url.QueryUnescape\<close>: \<open>+\<close> becomes a space and \<open>%XY\<close> the byte with the hexadecimal
  code \<open>XY\<close>; a \<open>%\<close> that two hexadecimal digits do not follow is an error.
\<close>

definition ishex :: "char \<Rightarrow> bool" where
  "ishex c = (c \<in> set ''0123456789abcdefABCDEF'')"

definition unhex :: "char \<Rightarrow> nat" where
  "unhex c =
     (if c \<in> set ''0123456789'' then of_char c - 48
      else if c \<in> set ''abcdef'' then of_char c - 97 + 10
      else if c \<in> set ''ABCDEF'' then of_char c - 65 + 10
      else 0)"

fun url_QueryUnescape :: "string \<Rightarrow> error + string" where
  "url_QueryUnescape [] = Inr []"
| "url_QueryUnescape (c # s) =
     (if c = CHR ''%'' then
        (case s of
           h1 # h2 # rest \<Rightarrow>
             if ishex h1 \<and> ishex h2 then
               (case url_QueryUnescape rest of
                  Inl e \<Rightarrow> Inl e
                | Inr t \<Rightarrow> Inr (char_of (unhex h1 * 16 + unhex h2) # t))
             else Inl (LibError ''invalid URL escape'')
         | _ \<Rightarrow> Inl (LibError ''invalid URL escape''))
      else
        (case url_QueryUnescape s of
           Inl e \<Rightarrow> Inl e
         | Inr t \<Rightarrow> Inr ((if c = CHR ''+'' then CHR '' '' else c) # t)))"

text \<open>
  \<open>find_first m s\<close> is the leftmost position of \<open>s\<close> at which the matcher \<open>m\<close>
  succeeds, as \<^verbatim>\<open>FindStringSubmatch\<close> finds the leftmost match of an expression.
\<close>

fun find_first :: "(string \<Rightarrow> 'a option) \<Rightarrow> string \<Rightarrow> 'a option" where
  "find_first m [] = m []"
| "find_first m (c # s) = (case m (c # s) of Some r \<Rightarrow> Some r | None \<Rightarrow> find_first m s)"

text \<open>
  The first expression of \<^verbatim>\<open>getFilenameFromResponse\<close> is \<^verbatim>\<open>filename\*=UTF-8''(.+)\<close>:
  the literal, then the greedy, non-empty run of bytes other than the newline.  The
  second is \<^verbatim>\<open>attachment; filename="(.*?)"\<close>: the literal, then the shortest run of
  bytes other than the newline that a double quote follows.
\<close>

definition match_extended_filename :: "string \<Rightarrow> string option" where
  "match_extended_filename s =
     (case strip_prefix (''filename*=UTF-8'' @ [CHR 0x27, CHR 0x27]) s of
        None \<Rightarrow> None
      | Some rest \<Rightarrow>
          (let body = takeWhile (\<lambda>c. c \<noteq> CHR 0x0A) rest
           in if body \<noteq> [] then Some body else None))"

definition match_quoted_filename :: "string \<Rightarrow> string option" where
  "match_quoted_filename s =
     (case strip_prefix (''attachment; filename='' @ [dquote]) s of
        None \<Rightarrow> None
      | Some rest \<Rightarrow>
          (let body = takeWhile (\<lambda>c. c \<noteq> dquote) rest;
               after = dropWhile (\<lambda>c. c \<noteq> dquote) rest
           in if after \<noteq> [] \<and> CHR 0x0A \<notin> set body then Some body else None))"

definition quoted_filename_or_default :: "string \<Rightarrow> string" where
  "quoted_filename_or_default cd =
     (case find_first match_quoted_filename cd of
        Some m \<Rightarrow> sanitizeFilename m
      | None \<Rightarrow> ''downloaded_file'')"

definition getFilenameFromResponse :: "http_response \<Rightarrow> string" where
  "getFilenameFromResponse resp =
     (let cd = Header_Get resp ''Content-Disposition''
      in if cd \<noteq> [] then
           (case find_first match_extended_filename cd of
              Some m \<Rightarrow>
                (case url_QueryUnescape m of
                   Inr filename \<Rightarrow> sanitizeFilename filename
                 | Inl e \<Rightarrow> quoted_filename_or_default cd)
            | None \<Rightarrow> quoted_filename_or_default cd)
         else ''downloaded_file'')"

text \<open>
  The part of \<^verbatim>\<open>Download\<close> that settles the destination: an empty \<open>output\<close> becomes
  the base name of the URL's path; then, if \<open>output\<close> names a directory, the file
  name of the response is joined to it.
\<close>

definition resolve_output ::
  "'f env \<Rightarrow> 'f \<Rightarrow> string \<Rightarrow> string \<Rightarrow> http_response \<Rightarrow> error + string" where
  "resolve_output E f urlStr output resp =
     (case (if output = [] then
              (case url_Parse E urlStr of Inl e \<Rightarrow> Inl e | Inr u \<Rightarrow> Inr (path_Base (Path u)))
            else Inr output) of
        Inl e \<Rightarrow> Inl e
      | Inr output1 \<Rightarrow>
          (case os_Stat E f output1 of
             Inr fi \<Rightarrow>
               if fi_IsDir fi
               then Inr (filepath_Join [output1, getFilenameFromResponse resp])
               else Inr output1
           | Inl e \<Rightarrow> Inr output1))"

text \<open>
  \<^verbatim>\<open>io.CopyBuffer\<close> from the body to the open file: the bytes of the body are written,
  and the copy fails with the error of the write or, after it, that of the body.  A
  \<^verbatim>\<open>ThrottledWriter\<close> in front of the file hands the same bytes on and only delays;
  the world of \<open>Download\<close> has no clock, so the copy is the same with and without it.
\<close>

definition io_CopyBuffer :: "'f env \<Rightarrow> 'f \<Rightarrow> string \<Rightarrow> http_response \<Rightarrow> error option \<times> 'f" where
  "io_CopyBuffer E f name resp =
     (case file_Write E f name (rs_Body resp) of
        (Some e, f') \<Rightarrow> (Some e, f')
      | (None, f') \<Rightarrow> (rs_BodyErr resp, f'))"


text \<open>The part of the loop body after the test for a confirmation page.\<close>

definition Download_finish ::
  "'f env \<Rightarrow> DownloadOptions \<Rightarrow> string \<Rightarrow> string \<Rightarrow> http_response \<Rightarrow> 'f world
     \<Rightarrow> (error + string) \<times> 'f world" where
  "Download_finish E opts urlStr output resp w =
     (if rs_StatusCode resp \<ge> 400 then (Inl (ErrHTTP (rs_Status resp)), w)
      else
        (case resolve_output E (fsys w) urlStr output resp of
           Inl e \<Rightarrow> (Inl e, w)
         | Inr out \<Rightarrow>
             (case (if Resume opts then os_OpenAppend E (fsys w) out
                    else os_Create E (fsys w) out) of
                (Some e, f1) \<Rightarrow> (Inl e, w\<lparr>fsys := f1\<rparr>)
              | (None, f1) \<Rightarrow>
                  (case io_CopyBuffer E f1 out resp of
                     (Some e, f2) \<Rightarrow> (Inl e, w\<lparr>fsys := f2\<rparr>)
                   | (None, f2) \<Rightarrow> (Inr out, w\<lparr>fsys := f2\<rparr>)))))"

text \<open>The request of one round of the loop.\<close>

definition download_request :: "'f env \<Rightarrow> DownloadOptions \<Rightarrow> string \<Rightarrow> string \<Rightarrow> 'f \<Rightarrow> error + http_request" where
  "download_request E opts urlStr output f =
     (let startSize =
            (if Resume opts \<and> fileExists E f output then
               (case os_Stat E f output of Inr fi \<Rightarrow> fi_Size fi | Inl e \<Rightarrow> 0)
             else 0)
      in case http_NewRequest E urlStr of
           Inl e \<Rightarrow> Inl e
         | Inr req \<Rightarrow>
             (let req = Header_Set req ''User-Agent'' (UserAgent opts)
              in if startSize > 0
                 then Inr (Header_Set req ''Range'' (''bytes='' @ itoa (nat startSize) @ ''-''))
                 else Inr req))"

text \<open>
  The loop of \<^verbatim>\<open>Download\<close>.  It may go round for ever, so it is a partial function:
  \<open>None\<close> is the run that never returns.  The \<^verbatim>\<open>break\<close> leads to the final
  \<^verbatim>\<open>return output, nil\<close>.
\<close>

partial_function (option) Download_loop ::
  "'f env \<Rightarrow> http_client \<Rightarrow> DownloadOptions \<Rightarrow> string \<Rightarrow> string \<Rightarrow> string \<Rightarrow> 'f world
     \<Rightarrow> ((error + string) \<times> 'f world) option" where
  "Download_loop E client opts origUrl urlStr output w =
     (case download_request E opts urlStr output (fsys w) of
        Inl e \<Rightarrow> Some (Inl e, w)
      | Inr req \<Rightarrow>
          (case client_Do E client req w of
             (Inl e, w1) \<Rightarrow> Some (Inl e, w1)
           | (Inr resp, w1) \<Rightarrow>
               (let ct = Header_Get resp ''Content-Type''
                in if strings_HasPrefix ct ''text/html'' then
                     (case io_ReadAll resp of
                        Inl e \<Rightarrow> Some (Inl e, w1)
                      | Inr bodyBytes \<Rightarrow>
                          (case getUrlFromGDriveConfirmation bodyBytes of
                             Inl e \<Rightarrow> Some (Inl e, w1)
                           | Inr newUrl \<Rightarrow>
                               if origUrl = newUrl then Some (Inr output, w1)
                               else Download_loop E client opts origUrl newUrl output w1))
                   else Some (Download_finish E opts urlStr output resp w1))))"

definition Download ::
  "'f env \<Rightarrow> string \<Rightarrow> string \<Rightarrow> DownloadOptions \<Rightarrow> 'f world
     \<Rightarrow> ((error + string) \<times> 'f world) option" where
  "Download E urlStr output opts w =
     (let opts = (if UserAgent opts = []
                  then opts\<lparr>UserAgent := ''Mozilla/5.0 (compatible; gdown-go)''\<rparr> else opts)
      in case newHTTPClient E opts of
           Inl e \<Rightarrow> Some (Inl e, w)
         | Inr client \<Rightarrow> Download_loop E client opts urlStr urlStr output w)"

section \<open>The forms of a file name in a header\<close>











section \<open>Hashes and the cache\<close>

text \<open>\<^verbatim>\<open>hex.EncodeToString\<close>: two lower-case hexadecimal digits for each byte.\<close>

definition hex_EncodeToString :: "string \<Rightarrow> string" where
  "hex_EncodeToString bs =
     concat (map (\<lambda>b. [''0123456789abcdef'' ! (of_char b div 16),
                         ''0123456789abcdef'' ! (of_char b mod 16)]) bs)"

text \<open>
  \<^verbatim>\<open>MD5Sum\<close>: opening and reading the file is one operation of the environment; the
  digest function \<^verbatim>\<open>md5\<close> is a parameter.
\<close>

definition MD5Sum :: "'f env \<Rightarrow> 'f \<Rightarrow> string \<Rightarrow> error + string" where
  "MD5Sum E f filename =
     (case os_ReadFile E f filename of
        Inl e \<Rightarrow> Inl e
      | Inr content \<Rightarrow> Inr (hex_EncodeToString (md5_Sum E content)))"

text \<open>
  \<^verbatim>\<open>strings.SplitN(s, ":", 2)\<close> has two parts exactly when \<open>s\<close> holds a colon: the text
  before the first colon and the text after it.
\<close>

definition split_hash :: "string \<Rightarrow> (string \<times> string) option" where
  "split_hash s =
     (if CHR '':'' \<in> set s
      then Some (takeWhile (\<lambda>c. c \<noteq> CHR '':'') s, tl (dropWhile (\<lambda>c. c \<noteq> CHR '':'') s))
      else None)"

text \<open>
  The form \<^verbatim>\<open><algorithm>:<hex-digest>\<close> read to the letter: a non-empty algorithm name
  without a colon, a colon, and a non-empty digest of hexadecimal digits.
\<close>

definition hash_form :: "string \<Rightarrow> bool" where
  "hash_form h =
     (case split_hash h of
        None \<Rightarrow> False
      | Some (algo, digest) \<Rightarrow> algo \<noteq> [] \<and> digest \<noteq> [] \<and> list_all ishex digest)"

definition assertFileHash :: "'f env \<Rightarrow> 'f \<Rightarrow> string \<Rightarrow> string \<Rightarrow> bool \<Rightarrow> bool \<times> error option" where
  "assertFileHash E f filename expectedHash quiet =
     (case split_hash expectedHash of
        None \<Rightarrow> (False, Some (ErrInvalidHashFormat expectedHash))
      | Some (algo, expected) \<Rightarrow>
          if algo = ''md5'' then
            (case MD5Sum E f filename of
               Inl e \<Rightarrow> (False, Some e)
             | Inr actual \<Rightarrow>
                 if actual = expected then (True, None)
                 else (False, Some (ErrHashMismatch actual expected)))
          else (False, Some (ErrUnsupportedHashAlgorithm algo)))"

text \<open>
  The replacer of \<^verbatim>\<open>CachedDownload\<close> substitutes four single bytes in one pass.
\<close>

definition cache_key :: "string \<Rightarrow> string" where
  "cache_key urlStr =
     concat (map (\<lambda>c. if c = CHR ''/'' then ''-SLASH-''
                       else if c = CHR '':'' then ''-COLON-''
                       else if c = CHR ''='' then ''-EQUAL-''
                       else if c = CHR ''?'' then ''-QUESTION-''
                       else [c]) urlStr)"

definition cache_path :: "'f env \<Rightarrow> string \<Rightarrow> string \<Rightarrow> string" where
  "cache_path E urlStr outputPath =
     (if outputPath = [] then filepath_Join [getCacheRoot E, cache_key urlStr] else outputPath)"

text \<open>
  The deferred \<^verbatim>\<open>os.RemoveAll(tmpDir)\<close> runs on every return after the temporary
  directory was made; its error is dropped.
\<close>

definition remove_tmp :: "'f env \<Rightarrow> string \<Rightarrow> 'r \<times> 'f world \<Rightarrow> 'r \<times> 'f world" where
  "remove_tmp E tmpDir r =
     (case r of (res, w) \<Rightarrow> (res, w\<lparr>fsys := snd (os_RemoveAll E (fsys w) tmpDir)\<rparr>))"

text \<open>
  The part of \<^verbatim>\<open>CachedDownload\<close> after a successful \<^verbatim>\<open>Download\<close>: the rename, the
  verification of the hash, the callback.  The callback is an optional function on
  the world.
\<close>

definition cached_install ::
  "'f env \<Rightarrow> string \<Rightarrow> string \<Rightarrow> string \<Rightarrow> bool
     \<Rightarrow> (string \<Rightarrow> 'f world \<Rightarrow> error option \<times> 'f world) option
     \<Rightarrow> 'f world \<Rightarrow> (error + string) \<times> 'f world" where
  "cached_install E downloadedPath outputPath hash quiet postprocess w =
     (case os_Rename E (fsys w) downloadedPath outputPath of
        (Some e, f1) \<Rightarrow> (Inl e, w\<lparr>fsys := f1\<rparr>)
      | (None, f1) \<Rightarrow>
          (let w1 = w\<lparr>fsys := f1\<rparr>
           in if hash \<noteq> [] \<and>
                 (case assertFileHash E f1 outputPath hash quiet of
                    (ok, e) \<Rightarrow> e \<noteq> None \<or> \<not> ok)
              then (Inl (ErrHashMismatchForFile outputPath), w1)
              else
                (case postprocess of
                   None \<Rightarrow> (Inr outputPath, w1)
                 | Some pp \<Rightarrow>
                     (case pp outputPath w1 of
                        (Some e, w2) \<Rightarrow> (Inl e, w2)
                      | (None, w2) \<Rightarrow> (Inr outputPath, w2)))))"

definition CachedDownload ::
  "'f env \<Rightarrow> string \<Rightarrow> string \<Rightarrow> string \<Rightarrow> bool
     \<Rightarrow> (string \<Rightarrow> 'f world \<Rightarrow> error option \<times> 'f world) option
     \<Rightarrow> DownloadOptions \<Rightarrow> 'f world \<Rightarrow> ((error + string) \<times> 'f world) option" where
  "CachedDownload E urlStr outputPath0 hash quiet postprocess opts w0 =
     (let cacheRoot = getCacheRoot E;
          w = w0\<lparr>fsys := snd (os_MkdirAll E (fsys w0) cacheRoot)\<rparr>;
          outputPath = cache_path E urlStr outputPath0
      in if fileExists E (fsys w) outputPath \<and> hash = [] then Some (Inr outputPath, w)
         else if fileExists E (fsys w) outputPath \<and> hash \<noteq> [] \<and>
                 fst (assertFileHash E (fsys w) outputPath hash quiet)
         then Some (Inr outputPath, w)
         else
           (case os_MkdirTemp E (fsys w) cacheRoot ''dl'' of
              (Inl e, f1) \<Rightarrow> Some (Inl e, w\<lparr>fsys := f1\<rparr>)
            | (Inr tmpDir, f1) \<Rightarrow>
                (let tempPath = filepath_Join [tmpDir, ''dl'']
                 in case Download E urlStr tempPath opts (w\<lparr>fsys := f1\<rparr>) of
                      None \<Rightarrow> None
                    | Some (Inl e, w2) \<Rightarrow> Some (remove_tmp E tmpDir (Inl e, w2))
                    | Some (Inr downloadedPath, w2) \<Rightarrow>
                        Some (remove_tmp E tmpDir
                          (cached_install E downloadedPath outputPath hash quiet postprocess
                             w2)))))"

text \<open>
  A property of the operating system that the statements about the cache assume:
  \<^verbatim>\<open>os.MkdirAll\<close> leaves every existing regular file in place.
\<close>

definition mkdir_keeps_files :: "'f env \<Rightarrow> bool" where
  "mkdir_keeps_files E =
     (\<forall>f d name. fileExists E f name \<longrightarrow> fileExists E (snd (os_MkdirAll E f d)) name)"

section \<open>The throttled writer\<close>

text \<open>
  Times and durations are integers, in nanoseconds, as \<^verbatim>\<open>time.Duration\<close> is; the
  clock is passed in and out.  \<^verbatim>\<open>NewThrottledWriter\<close> reads the clock once, for
  \<^verbatim>\<open>start\<close>.
\<close>

record ThrottledWriter =
  tw_speed :: int
  tw_start :: int
  tw_written :: int

definition Second :: int where
  "Second = 1000000000"

definition NewThrottledWriter :: "int \<Rightarrow> int \<Rightarrow> ThrottledWriter" where
  "NewThrottledWriter speed now = \<lparr>tw_speed = speed, tw_start = now, tw_written = 0\<rparr>"

text \<open>
  \<^verbatim>\<open>time.Duration(float64(tw.written)/float64(tw.speed))\<close>: the quotient is computed in
  floating point and the conversion to the integer type \<^verbatim>\<open>Duration\<close> drops its
  fraction.  For \<open>0 \<le> written\<close>, \<open>0 < speed\<close> and \<open>written + speed < 2^53\<close> both
  operands are exact in \<^verbatim>\<open>float64\<close> and the result is the integer quotient.  The
  definition is the code in that range only: beyond it the operands are rounded
  before the division, and with a speed that is not positive the quotient of the
  code is negative, infinite or undefined.
\<close>

definition whole_quotient :: "int \<Rightarrow> int \<Rightarrow> int" where
  "whole_quotient written speed = written div speed"

text \<open>
  One call of \<^verbatim>\<open>Write\<close> at clock \<open>now\<close>: the inner writer takes \<open>n\<close> bytes and \<open>d\<close>
  nanoseconds; \<^verbatim>\<open>time.Sleep\<close> pauses for the duration asked (the least it may).  The
  result is the writer and the clock when \<^verbatim>\<open>Write\<close> returns.  In the code \<^verbatim>\<open>written\<close>,
  \<^verbatim>\<open>elapsed\<close> and \<^verbatim>\<open>expected\<close> are 64-bit integers and the product with
  \<^verbatim>\<open>time.Second\<close> wraps round; here they are unbounded, which is the same as long as
  the quotient is at most 9223372036 (an expected time of 292 years) and the byte
  count is below \<open>2^63\<close>.
\<close>

definition tw_Write :: "ThrottledWriter \<Rightarrow> int \<Rightarrow> int \<Rightarrow> int \<Rightarrow> ThrottledWriter \<times> int" where
  "tw_Write tw n d now =
     (let now1 = now + d;
          written = tw_written tw + n;
          elapsed = now1 - tw_start tw;
          expected = whole_quotient written (tw_speed tw) * Second
      in (tw\<lparr>tw_written := written\<rparr>,
          if expected > elapsed then now1 + (expected - elapsed) else now1))"

text \<open>A transfer: the writes of the copy loop, each with its size and its duration.\<close>

fun tw_transfer :: "ThrottledWriter \<Rightarrow> (int \<times> int) list \<Rightarrow> int \<Rightarrow> ThrottledWriter \<times> int" where
  "tw_transfer tw [] now = (tw, now)"
| "tw_transfer tw ((n, d) # ws) now =
     (case tw_Write tw n d now of (tw', now') \<Rightarrow> tw_transfer tw' ws now')"

section \<open>Folder pages\<close>

definition MAX_NUMBER_FILES :: nat where
  "MAX_NUMBER_FILES = 50"

definition folder_type :: string where
  "folder_type = ''application/vnd.google-apps.folder''"

definition strings_Contains :: "string \<Rightarrow> string \<Rightarrow> bool" where
  "strings_Contains s sub = sublist sub s"

text \<open>
  \<^verbatim>\<open>strings.Split(s, sep)\<close> and \<^verbatim>\<open>strings.Join\<close> for a non-empty separator; the package
  splits at \<open>" - "\<close> only.
\<close>

function strings_Split :: "string \<Rightarrow> string \<Rightarrow> string list" where
  "strings_Split [] sep = [[]]"
| "strings_Split (c # s) sep =
     (if sep \<noteq> [] \<and> prefix sep (c # s)
      then [] # strings_Split (drop (length sep) (c # s)) sep
      else (case strings_Split s sep of [] \<Rightarrow> [[c]] | w # ws \<Rightarrow> (c # w) # ws))"
  by pat_completeness auto
termination
  by (relation "measure (\<lambda>(s, sep). length s)") auto

text \<open>
  The expression \<^verbatim>\<open>'((?:[^'\\]|\\.)*)'\<close> of \<^verbatim>\<open>parseGoogleDriveFile\<close>: a single quote, a
  run of units, each either a byte other than the quote and the backslash or a
  backslash with the byte after it (any but the newline), and a single quote.
  \<open>scan_literal\<close> reads the text after an opening quote and gives the run when a
  closing quote ends it; \<open>find_literals\<close> is \<^verbatim>\<open>FindAllStringSubmatch\<close>, the groups of
  the successive matches from left to right.
\<close>

definition squote :: char where
  "squote = CHR 0x27"

definition backslash :: char where
  "backslash = CHR 0x5C"

fun scan_literal :: "string \<Rightarrow> string option" where
  "scan_literal [] = None"
| "scan_literal [c] = (if c = squote then Some [] else None)"
| "scan_literal (c # d # s) =
     (if c = squote then Some []
      else if c = backslash then
        (if d = CHR 0x0A then None
         else (case scan_literal s of None \<Rightarrow> None | Some b \<Rightarrow> Some (c # d # b)))
      else (case scan_literal (d # s) of None \<Rightarrow> None | Some b \<Rightarrow> Some (c # b)))"

function find_literals :: "string \<Rightarrow> string list" where
  "find_literals [] = []"
| "find_literals (c # s) =
     (if c = squote then
        (case scan_literal s of
           Some body \<Rightarrow> body # find_literals (drop (Suc (length body)) s)
         | None \<Rightarrow> find_literals s)
      else find_literals s)"
  by pat_completeness auto
termination
  by (relation "measure length") auto

text \<open>
  \<^verbatim>\<open>decodeUnicodeEscapes\<close>: every \<^verbatim>\<open>\xHH\<close> becomes \<^verbatim>\<open>\u00HH\<close>, and the result, put in
  double quotes, is decoded as a JSON string by the library.
\<close>

fun replace_hex_escapes :: "string \<Rightarrow> string" where
  "replace_hex_escapes (c1 # c2 # h1 # h2 # s) =
     (if c1 = backslash \<and> c2 = CHR ''x'' \<and> ishex h1 \<and> ishex h2
      then backslash # ''u00'' @ [h1, h2] @ replace_hex_escapes s
      else c1 # replace_hex_escapes (c2 # h1 # h2 # s))"
| "replace_hex_escapes s = s"

definition decodeUnicodeEscapes :: "'f env \<Rightarrow> string \<Rightarrow> error + string" where
  "decodeUnicodeEscapes E s =
     json_UnmarshalString E ([dquote] @ replace_hex_escapes s @ [dquote])"

text \<open>
  The loop over the \<^verbatim>\<open>script\<close> elements: the first one that holds the marker and at
  least two quoted literals gives the second literal; the result is empty when
  there is none.
\<close>

fun find_encoded :: "'f env \<Rightarrow> string list \<Rightarrow> string" where
  "find_encoded E [] = []"
| "find_encoded E (rawHTML # rest) =
     (let htmlContent = html_UnescapeString E rawHTML
      in if strings_Contains htmlContent ''_DRIVE_ivd'' then
           (case find_literals htmlContent of
              m0 # m1 # ms \<Rightarrow> m1
            | _ \<Rightarrow> find_encoded E rest)
         else find_encoded E rest)"

record child_row =
  ch_ID :: string
  ch_Name :: string
  ch_Type :: string

definition as_string :: "json \<Rightarrow> string" where
  "as_string j = (case j of JString s \<Rightarrow> s | _ \<Rightarrow> [])"

text \<open>The rows with four or more elements, in the order of the manifest.\<close>

fun rows_children :: "json list \<Rightarrow> child_row list" where
  "rows_children [] = []"
| "rows_children (item # items) =
     (case item of
        JArray arr \<Rightarrow>
          if length arr \<ge> 4
          then \<lparr>ch_ID = as_string (arr ! 0), ch_Name = as_string (arr ! 2),
                ch_Type = as_string (arr ! 3)\<rparr> # rows_children items
          else rows_children items
      | _ \<Rightarrow> rows_children items)"

text \<open>
  \<^verbatim>\<open>parseGoogleDriveFile\<close>.  The document is read through the environment: the inner
  HTML of its \<^verbatim>\<open>script\<close> elements and the text of its first \<^verbatim>\<open>title\<close>; building the
  document from a string has no failing path.  The node returned has no children
  yet.
\<close>

definition parseGoogleDriveFile ::
  "'f env \<Rightarrow> string \<Rightarrow> string \<Rightarrow> error + (GoogleDriveFile \<times> child_row list)" where
  "parseGoogleDriveFile E urlStr content =
     (let encodedData = find_encoded E (script_Htmls E content)
      in if encodedData = [] then Inl ErrNoEncodedString
         else
           (case decodeUnicodeEscapes E encodedData of
              Inl e \<Rightarrow> Inl (ErrDecodeEscapes e)
            | Inr decoded \<Rightarrow>
                (case json_UnmarshalArray E decoded of
                   Inl e \<Rightarrow> Inl e
                 | Inr folderArr \<Rightarrow>
                     (let folderContents =
                            (case folderArr of JArray arr # rest \<Rightarrow> arr | _ \<Rightarrow> []);
                          title = title_Text E content;
                          sep = '' - '';
                          parts = strings_Split title sep
                      in if length parts < 2 then Inl (ErrFolderName title)
                         else
                           (let name = join_with sep (butlast parts);
                                gfile = GoogleDriveFile (path_Base urlStr) name folder_type []
                            in Inr (gfile, rows_children folderContents))))))"

text \<open>
  The first part of \<^verbatim>\<open>downloadAndParseGoogleDriveLink\<close>: the language hint, the
  request (\<^verbatim>\<open>client.Get\<close> builds it and sends it), the status, the body, the parse.
\<close>

definition fetch_folder_page ::
  "'f env \<Rightarrow> http_client \<Rightarrow> string \<Rightarrow> 'f world
     \<Rightarrow> (error + (GoogleDriveFile \<times> child_row list)) \<times> 'f world" where
  "fetch_folder_page E client urlStr0 w =
     (let urlStr =
            (if IsGoogleDriveUrl E urlStr0 then
               (if strings_Contains urlStr0 ''?'' then urlStr0 @ ''&hl=en''
                else urlStr0 @ ''?hl=en'')
             else urlStr0)
      in case http_NewRequest E urlStr of
           Inl e \<Rightarrow> (Inl e, w)
         | Inr req \<Rightarrow>
             (case client_Do E client req w of
                (Inl e, w1) \<Rightarrow> (Inl e, w1)
              | (Inr resp, w1) \<Rightarrow>
                  if rs_StatusCode resp \<noteq> 200 then (Inl (ErrFolderStatus (rs_Status resp)), w1)
                  else
                    (case io_ReadAll resp of
                       Inl e \<Rightarrow> (Inl e, w1)
                     | Inr bodyStr \<Rightarrow> (parseGoogleDriveFile E urlStr bodyStr, w1))))"

text \<open>
  \<^verbatim>\<open>downloadAndParseGoogleDriveLink\<close>.  The recursion follows the folders that the
  server reports and need not end, so it runs on fuel: one unit for each page
  fetched on a path from the root, \<open>None\<close> when the fuel runs out.  The loop over the
  children is \<open>resolve_children\<close>; \<open>acc\<close> is \<^verbatim>\<open>gfile.Children\<close> so far.
\<close>

fun downloadAndParseGoogleDriveLink ::
  "nat \<Rightarrow> 'f env \<Rightarrow> http_client \<Rightarrow> string \<Rightarrow> bool \<Rightarrow> bool \<Rightarrow> bool \<Rightarrow> 'f world
     \<Rightarrow> ((error + GoogleDriveFile) \<times> 'f world) option"
  and resolve_children ::
  "nat \<Rightarrow> 'f env \<Rightarrow> http_client \<Rightarrow> bool \<Rightarrow> bool \<Rightarrow> bool \<Rightarrow> child_row list
     \<Rightarrow> GoogleDriveFile list \<Rightarrow> 'f world
     \<Rightarrow> ((error + GoogleDriveFile list) \<times> 'f world) option" where
  "downloadAndParseGoogleDriveLink 0 E client urlStr quiet remainingOk verify w = None"
| "downloadAndParseGoogleDriveLink (Suc fuel) E client urlStr quiet remainingOk verify w =
     (case fetch_folder_page E client urlStr w of
        (Inl e, w1) \<Rightarrow> Some (Inl e, w1)
      | (Inr (gfile, children), w1) \<Rightarrow>
          (case resolve_children fuel E client quiet remainingOk verify children [] w1 of
             None \<Rightarrow> None
           | Some (Inl e, w2) \<Rightarrow> Some (Inl e, w2)
           | Some (Inr cs, w2) \<Rightarrow>
               if length cs = MAX_NUMBER_FILES \<and> \<not> remainingOk
               then Some (Inl ErrFolderTooLarge, w2)
               else Some (Inr (GoogleDriveFile (ID gfile) (Name gfile) (Type gfile) cs), w2)))"
| "resolve_children fuel E client quiet remainingOk verify [] acc w = Some (Inr acc, w)"
| "resolve_children fuel E client quiet remainingOk verify (child # rest) acc w =
     (if ch_Type child \<noteq> folder_type then
        resolve_children fuel E client quiet remainingOk verify rest
          (acc @ [GoogleDriveFile (ch_ID child) (ch_Name child) (ch_Type child) []]) w
      else
        (let subUrl = ''https://drive.google.com/drive/folders/'' @ ch_ID child
         in case downloadAndParseGoogleDriveLink fuel E client subUrl quiet remainingOk verify w of
              None \<Rightarrow> None
            | Some (Inl e, w1) \<Rightarrow> Some (Inl e, w1)
            | Some (Inr subFolder, w1) \<Rightarrow>
                resolve_children fuel E client quiet remainingOk verify rest
                  (acc @ [subFolder]) w1))"

section \<open>Listing and downloading a folder\<close>

record FileInfo =
  info_ID :: string
  info_Path :: string
  info_DownloadURL :: string
  info_IsFolder :: bool

definition to_FileInfo :: "FileToDownload \<Rightarrow> FileInfo" where
  "to_FileInfo f =
     (if fd_ID f = []
      then \<lparr>info_ID = fd_ID f, info_Path = fd_Path f, info_DownloadURL = [], info_IsFolder = True\<rparr>
      else \<lparr>info_ID = fd_ID f, info_Path = fd_Path f,
            info_DownloadURL = ''https://drive.google.com/uc?id='' @ fd_ID f,
            info_IsFolder = False\<rparr>)"

definition with_default_agent :: "'a DownloadOptions_scheme \<Rightarrow> 'a DownloadOptions_scheme" where
  "with_default_agent opts =
     (if UserAgent opts = [] then opts\<lparr>UserAgent := ''Mozilla/5.0 (compatible; gdown-go)''\<rparr>
      else opts)"

definition ListFolder ::
  "nat \<Rightarrow> 'f env \<Rightarrow> string \<Rightarrow> string \<Rightarrow> FolderOptions \<Rightarrow> 'f world
     \<Rightarrow> ((error + FileInfo list) \<times> 'f world) option" where
  "ListFolder fuel E urlStr0 ident opts0 w =
     (if (ident = [] \<and> urlStr0 = []) \<or> (ident \<noteq> [] \<and> urlStr0 \<noteq> [])
      then Some (Inl ErrEitherUrlOrId, w)
      else
        (let urlStr = (if ident \<noteq> [] then ''https://drive.google.com/drive/folders/'' @ ident
                       else urlStr0);
             opts = with_default_agent opts0
         in case newHTTPClient E opts of
              Inl e \<Rightarrow> Some (Inl e, w)
            | Inr client \<Rightarrow>
                (case downloadAndParseGoogleDriveLink fuel E client urlStr (Quiet opts)
                        (RemainingOk opts) (Verify opts) w of
                   None \<Rightarrow> None
                 | Some (Inl e, w1) \<Rightarrow> Some (Inl e, w1)
                 | Some (Inr gfile, w1) \<Rightarrow>
                     Some (Inr (map to_FileInfo (getDirectoryStructure gfile [])), w1))))"

text \<open>The loop of \<^verbatim>\<open>DownloadFolder\<close> over the flattened entries.\<close>

fun download_files ::
  "'f env \<Rightarrow> DownloadOptions \<Rightarrow> string \<Rightarrow> FileToDownload list \<Rightarrow> string list \<Rightarrow> 'f world
     \<Rightarrow> ((error + string list) \<times> 'f world) option" where
  "download_files E opts rootDir [] downloadedFiles w = Some (Inr downloadedFiles, w)"
| "download_files E opts rootDir (f # fs) downloadedFiles w =
     (let localPath = filepath_Join [rootDir, fd_Path f]
      in if fd_ID f = [] then
           download_files E opts rootDir fs downloadedFiles
             (w\<lparr>fsys := snd (os_MkdirAll E (fsys w) localPath)\<rparr>)
         else if Resume opts \<and> fileExists E (fsys w) localPath then
           download_files E opts rootDir fs (downloadedFiles @ [localPath]) w
         else
           (case Download E (''https://drive.google.com/uc?id='' @ fd_ID f) localPath opts w of
              None \<Rightarrow> None
            | Some (Inl e, w1) \<Rightarrow> Some (Inl e, w1)
            | Some (Inr downloaded, w1) \<Rightarrow>
                download_files E opts rootDir fs (downloadedFiles @ [downloaded]) w1))"

definition DownloadFolder ::
  "nat \<Rightarrow> 'f env \<Rightarrow> string \<Rightarrow> string \<Rightarrow> string \<Rightarrow> FolderOptions \<Rightarrow> 'f world
     \<Rightarrow> ((error + string list) \<times> 'f world) option" where
  "DownloadFolder fuel E urlStr0 ident output0 opts0 w =
     (if (ident = [] \<and> urlStr0 = []) \<or> (ident \<noteq> [] \<and> urlStr0 \<noteq> [])
      then Some (Inl ErrEitherUrlOrId, w)
      else
        (let urlStr = (if ident \<noteq> [] then ''https://drive.google.com/drive/folders/'' @ ident
                       else urlStr0);
             opts = with_default_agent opts0
         in case newHTTPClient E opts of
              Inl e \<Rightarrow> Some (Inl e, w)
            | Inr client \<Rightarrow>
                (case downloadAndParseGoogleDriveLink fuel E client urlStr (Quiet opts)
                        (RemainingOk opts) (Verify opts) w of
                   None \<Rightarrow> None
                 | Some (Inl e, w1) \<Rightarrow> Some (Inl e, w1)
                 | Some (Inr gfile, w1) \<Rightarrow>
                     (let filesToDownload = getDirectoryStructure gfile [];
                          output = (if output0 = [] then os_Getwd E (fsys w1) @ [PathSeparator]
                                    else output0);
                          rootDir = (if strings_HasSuffix output [PathSeparator]
                                     then filepath_Join [output, Name gfile] else output);
                          w2 = w1\<lparr>fsys := snd (os_MkdirAll E (fsys w1) rootDir)\<rparr>
                      in download_files E (DownloadOptions.truncate opts) rootDir
                           filesToDownload [] w2))))"

text \<open>
  The request for the page of the folder with the identifier \<open>ident\<close>: a \<^verbatim>\<open>GET\<close>,
  with no header set by the package, for the folder prefix followed by the identifier
  and the language hint (\<^verbatim>\<open>?hl=en\<close>, or \<^verbatim>\<open>&hl=en\<close> when the identifier already holds a
  question mark).
\<close>

definition folder_request :: "string \<Rightarrow> http_request" where
  "folder_request ident =
     \<lparr>rq_Method = ''GET'',
      rq_URL = ''https://drive.google.com/drive/folders/'' @ ident @
               (if CHR ''?'' \<in> set ident then ''&hl=en'' else ''?hl=en''),
      rq_Header = []\<rparr>"

section \<open>A small environment for the examples\<close>

text \<open>
  The examples run the functions in an environment with an in-memory filesystem (a
  map from path names to files and directories), a table of parsed URLs, a home
  directory and a server given as a function.  The digest function of this
  environment is a stand-in that maps every input to sixteen zero bytes.
\<close>

datatype fnode = FFile string | FDir

type_synonym memfs = "string \<rightharpoonup> fnode"

definition os_fail :: error where
  "os_fail = LibError ''os''"

definition mem_Stat :: "memfs \<Rightarrow> string \<Rightarrow> error + os_FileInfo" where
  "mem_Stat f p =
     (case f p of
        None \<Rightarrow> Inl os_fail
      | Some FDir \<Rightarrow> Inr \<lparr>fi_IsDir = True, fi_Size = 0\<rparr>
      | Some (FFile d) \<Rightarrow> Inr \<lparr>fi_IsDir = False, fi_Size = int (length d)\<rparr>)"

definition mem_Create :: "memfs \<Rightarrow> string \<Rightarrow> error option \<times> memfs" where
  "mem_Create f p = (if f p = Some FDir then (Some os_fail, f) else (None, f(p \<mapsto> FFile [])))"

definition mem_OpenAppend :: "memfs \<Rightarrow> string \<Rightarrow> error option \<times> memfs" where
  "mem_OpenAppend f p =
     (case f p of
        Some FDir \<Rightarrow> (Some os_fail, f)
      | Some (FFile d) \<Rightarrow> (None, f)
      | None \<Rightarrow> (None, f(p \<mapsto> FFile [])))"

definition mem_Write :: "memfs \<Rightarrow> string \<Rightarrow> string \<Rightarrow> error option \<times> memfs" where
  "mem_Write f p data =
     (case f p of
        Some (FFile d) \<Rightarrow> (None, f(p \<mapsto> FFile (d @ data)))
      | _ \<Rightarrow> (Some os_fail, f))"

definition mem_ReadFile :: "memfs \<Rightarrow> string \<Rightarrow> error + string" where
  "mem_ReadFile f p = (case f p of Some (FFile d) \<Rightarrow> Inr d | _ \<Rightarrow> Inl os_fail)"

definition mem_Rename :: "memfs \<Rightarrow> string \<Rightarrow> string \<Rightarrow> error option \<times> memfs" where
  "mem_Rename f a b =
     (case f a of
        Some (FFile d) \<Rightarrow>
          (if f b = Some FDir then (Some os_fail, f) else (None, (f(a := None))(b \<mapsto> FFile d)))
      | _ \<Rightarrow> (Some os_fail, f))"

definition mem_MkdirAll :: "memfs \<Rightarrow> string \<Rightarrow> error option \<times> memfs" where
  "mem_MkdirAll f p =
     (case f p of
        Some (FFile d) \<Rightarrow> (Some os_fail, f)
      | _ \<Rightarrow> (None, f(p \<mapsto> FDir)))"

definition mem_MkdirTemp :: "memfs \<Rightarrow> string \<Rightarrow> string \<Rightarrow> (error + string) \<times> memfs" where
  "mem_MkdirTemp f dir pat =
     (let p = filepath_Join [dir, pat @ ''0'']
      in if f p = None then (Inr p, f(p \<mapsto> FDir)) else (Inl os_fail, f))"

definition mem_RemoveAll :: "memfs \<Rightarrow> string \<Rightarrow> error option \<times> memfs" where
  "mem_RemoveAll f p =
     (None, (\<lambda>q. if q = p \<or> prefix (p @ ''/'') q then None else f q))"

definition test_urls :: "(string \<times> URL) list" where
  "test_urls =
     [(''https://drive.google.com/file/d/ABC123/view?id=XYZ'',
         \<lparr>Hostname = ''drive.google.com'', Path = ''/file/d/ABC123/view'',
          Query = [''id'' \<mapsto> [''XYZ'']]\<rparr>),
      (''https://drive.google.com/file/d/ABC123/view'',
         \<lparr>Hostname = ''drive.google.com'', Path = ''/file/d/ABC123/view'', Query = Map.empty\<rparr>),
      (''https://example.com/file/d/ABC123/view?id=XYZ'',
         \<lparr>Hostname = ''example.com'', Path = ''/file/d/ABC123/view'',
          Query = [''id'' \<mapsto> [''XYZ'']]\<rparr>),
      (''https://drive.google.com/uc?id=A1'',
         \<lparr>Hostname = ''drive.google.com'', Path = ''/uc'', Query = [''id'' \<mapsto> [''A1'']]\<rparr>),
      (''https://docs.google.com/uc?export=download&confirm=t&id=A1'',
         \<lparr>Hostname = ''docs.google.com'', Path = ''/uc'',
          Query = [''export'' \<mapsto> [''download''], ''confirm'' \<mapsto> [''t''], ''id'' \<mapsto> [''A1'']]\<rparr>),
      (''https://files.example.com/data/report.pdf'',
         \<lparr>Hostname = ''files.example.com'', Path = ''/data/report.pdf'', Query = Map.empty\<rparr>),
      (''https://drive.google.com/drive/folders/F1?hl=en'',
         \<lparr>Hostname = ''drive.google.com'', Path = ''/drive/folders/F1'',
          Query = [''hl'' \<mapsto> [''en'']]\<rparr>),
      (''https://drive.google.com/drive/folders/F1'',
         \<lparr>Hostname = ''drive.google.com'', Path = ''/drive/folders/F1'', Query = Map.empty\<rparr>)]"

definition test_Parse :: "string \<Rightarrow> error + URL" where
  "test_Parse s = (case map_of test_urls s of Some u \<Rightarrow> Inr u | None \<Rightarrow> Inl (LibError ''parse''))"

definition test_env ::
  "(http_client \<Rightarrow> http_request list \<Rightarrow> http_request \<Rightarrow> error + http_response) \<Rightarrow> memfs env" where
  "test_env server =
     \<lparr>url_Parse = test_Parse,
      http_Do = server,
      os_Stat = mem_Stat,
      os_Create = mem_Create,
      os_OpenAppend = mem_OpenAppend,
      file_Write = mem_Write,
      os_ReadFile = mem_ReadFile,
      os_Rename = mem_Rename,
      os_MkdirAll = mem_MkdirAll,
      os_MkdirTemp = mem_MkdirTemp,
      os_RemoveAll = mem_RemoveAll,
      os_Getwd = (\<lambda>f. ''/work''),
      user_HomeDir = Inr ''/home/u'',
      md5_Sum = (\<lambda>d. replicate 16 (CHR 0x00)),
      script_Htmls = (\<lambda>page. []),
      html_UnescapeString = (\<lambda>s. s),
      title_Text = (\<lambda>page. []),
      json_UnmarshalString = Inr,
      json_UnmarshalArray = (\<lambda>s. Inr [])\<rparr>"

text \<open>A server that is never reached.\<close>

definition no_server :: "http_client \<Rightarrow> http_request list \<Rightarrow> http_request \<Rightarrow> error + http_response" where
  "no_server client history req = Inl (LibError ''unreachable'')"

text \<open>
  A server that answers every request with the same confirmation page, and the
  options and the empty world the examples start from.
\<close>

definition html_response :: "string \<Rightarrow> http_response" where
  "html_response body =
     \<lparr>rs_Status = ''200 OK'', rs_StatusCode = 200,
      rs_Header = [''Content-Type'' \<mapsto> ''text/html; charset=utf-8''],
      rs_Body = body, rs_BodyErr = None\<rparr>"

definition interstitial_server ::
  "http_client \<Rightarrow> http_request list \<Rightarrow> http_request \<Rightarrow> error + http_response" where
  "interstitial_server client history req = Inr (html_response confirm_page)"

definition default_options :: DownloadOptions where
  "default_options =
     \<lparr>Quiet = True, Proxy = [], Speed = 0, UseCookies = True, Verify = True, Resume = False,
      Fuzzy = False, Format = [], UserAgent = []\<rparr>"

definition empty_world :: "memfs world" where
  "empty_world = \<lparr>fsys = Map.empty, sent = []\<rparr>"

text \<open>
  A server that sends a file with both forms of the file name in its
  \<^verbatim>\<open>Content-Disposition\<close> header, and a world with one directory.
\<close>

definition file_response :: http_response where
  "file_response =
     \<lparr>rs_Status = ''200 OK'', rs_StatusCode = 200,
      rs_Header = [''Content-Type'' \<mapsto> ''application/octet-stream'',
                   ''Content-Disposition'' \<mapsto>
                     ''attachment; filename='' @ [dquote] @ ''plain.txt'' @ [dquote] @
                     ''; filename*=UTF-8'' @ [CHR 0x27, CHR 0x27] @ ''na%2Fme.txt''],
      rs_Body = ''data'', rs_BodyErr = None\<rparr>"

definition file_server ::
  "http_client \<Rightarrow> http_request list \<Rightarrow> http_request \<Rightarrow> error + http_response" where
  "file_server client history req = Inr file_response"


text \<open>
  The filesystem of the example environment after a download into the cache: the
  cache root, the temporary directory, and the downloaded file under its cache key.
\<close>

definition renamed_fs :: memfs where
  "renamed_fs =
     [''/home/u/.cache/gdown'' \<mapsto> FDir, ''/home/u/.cache/gdown/dl0'' \<mapsto> FDir,
      ''/home/u/.cache/gdown/dl0/dl'' \<mapsto> FFile ''data''](
        ''/home/u/.cache/gdown/dl0/dl'' := None, ''/home/u/.cache/gdown/https-COLON--SLASH--SLASH-drive.google.com-SLASH-uc-QUESTION-id-EQUAL-A1'' \<mapsto> FFile ''data'')"

text \<open>
  A folder page with fifty files: the environment of the examples with a script
  that holds the marker and two quoted literals, a manifest of fifty rows and a
  title; and the server that sends the page.
\<close>

definition manifest_row :: "nat \<Rightarrow> json" where
  "manifest_row i =
     JArray [JString (''id'' @ itoa i), JNull, JString (''file'' @ itoa i), JString ''text/plain'']"

definition manifest_child :: "nat \<Rightarrow> child_row" where
  "manifest_child i =
     \<lparr>ch_ID = ''id'' @ itoa i, ch_Name = ''file'' @ itoa i, ch_Type = ''text/plain''\<rparr>"

definition manifest_leaf :: "nat \<Rightarrow> GoogleDriveFile" where
  "manifest_leaf i = GoogleDriveFile (''id'' @ itoa i) (''file'' @ itoa i) ''text/plain'' []"

definition folder_script :: string where
  "folder_script =
     ''window._DRIVE_ivd = f('' @ [squote] @ ''token'' @ [squote] @ '', '' @
     [squote] @ ''manifest'' @ [squote] @ '');''"

definition folder_env ::
  "(http_client \<Rightarrow> http_request list \<Rightarrow> http_request \<Rightarrow> error + http_response) \<Rightarrow> memfs env" where
  "folder_env server =
     (test_env server)
       \<lparr>script_Htmls := (\<lambda>page. [folder_script]),
        title_Text := (\<lambda>page. ''Big folder - Google Drive''),
        json_UnmarshalArray := (\<lambda>s. Inr [JArray (map manifest_row [0..<50])])\<rparr>"

definition folder_server ::
  "http_client \<Rightarrow> http_request list \<Rightarrow> http_request \<Rightarrow> error + http_response" where
  "folder_server client history req = Inr (html_response ''<html>folder page</html>'')"

definition default_client :: http_client where
  "default_client = \<lparr>hc_Proxy = None, hc_InsecureSkipVerify = False, hc_Jar = True\<rparr>"

definition folder_options :: FolderOptions where
  "folder_options =
     \<lparr>Quiet = True, Proxy = [], Speed = 0, UseCookies = True, Verify = True, Resume = False,
      Fuzzy = False, Format = [], UserAgent = [], RemainingOk = False\<rparr>"






text \<open>
  A folder with two files: the table of URLs grows by the download URLs of the
  files, the server sends the folder page for the folder URL and the file for every
  other URL, and the manifest has two rows.  \<open>file_request\<close> is the request that
  \<open>Download\<close> sends for a file of the folder.
\<close>

definition drive_urls :: "(string \<times> URL) list" where
  "drive_urls =
     [(''https://drive.google.com/uc?id=id0'',
         \<lparr>Hostname = ''drive.google.com'', Path = ''/uc'', Query = [''id'' \<mapsto> [''id0'']]\<rparr>),
      (''https://drive.google.com/uc?id=id1'',
         \<lparr>Hostname = ''drive.google.com'', Path = ''/uc'', Query = [''id'' \<mapsto> [''id1'']]\<rparr>)]"

definition drive_Parse :: "string \<Rightarrow> error + URL" where
  "drive_Parse s = (case map_of drive_urls s of Some u \<Rightarrow> Inr u | None \<Rightarrow> test_Parse s)"

definition drive_server ::
  "http_client \<Rightarrow> http_request list \<Rightarrow> http_request \<Rightarrow> error + http_response" where
  "drive_server client history req =
     (if rq_URL req = ''https://drive.google.com/drive/folders/F1?hl=en''
      then Inr (html_response ''<html>folder page</html>'')
      else Inr file_response)"

definition drive_env :: "memfs env" where
  "drive_env =
     (folder_env drive_server)
       \<lparr>url_Parse := drive_Parse,
        json_UnmarshalArray := (\<lambda>s. Inr [JArray (map manifest_row [0..<2])])\<rparr>"

definition file_request :: "string \<Rightarrow> http_request" where
  "file_request ident =
     \<lparr>rq_Method = ''GET'', rq_URL = ''https://drive.google.com/uc?id='' @ ident,
      rq_Header = [(''User-Agent'', ''Mozilla/5.0 (compatible; gdown-go)'')]\<rparr>"

section \<open>Properties of the confirmation page resolver\<close>

lemma match_href_here_iff:
  "match_href_here s = Some m \<longleftrightarrow>
     (dquote \<notin> set m \<and> strict_prefix download_prefix m \<and> (\<exists>post. s = href_open @ m @ [dquote] @ post))"
proof
  assume "match_href_here s = Some m"
  then obtain rest where r: "s = (href_open @ download_prefix) @ rest"
    and b: "takeWhile (\<lambda>c. c \<noteq> dquote) rest \<noteq> []" "dropWhile (\<lambda>c. c \<noteq> dquote) rest \<noteq> []"
    and m: "m = download_prefix @ takeWhile (\<lambda>c. c \<noteq> dquote) rest"
    by (auto simp: match_href_here_def strip_prefix_def Let_def prefix_def split: option.splits if_splits)
  let ?body = "takeWhile (\<lambda>c. c \<noteq> dquote) rest" and ?after = "dropWhile (\<lambda>c. c \<noteq> dquote) rest"
  from b(2) have "hd ?after = dquote" using hd_dropWhile[of "\<lambda>c. c \<noteq> dquote" rest] by simp
  with b(2) obtain post where a: "?after = dquote # post" by (cases ?after) auto
  have "rest = ?body @ ?after" by simp
  with a r have "s = href_open @ m @ [dquote] @ post" using m by simp
  moreover have "dquote \<notin> set m" using m
    by (auto simp: download_prefix_def dquote_def dest: set_takeWhileD)
  moreover have "strict_prefix download_prefix m" using m b(1) by (simp add: strict_prefix_def)
  ultimately show "dquote \<notin> set m \<and> strict_prefix download_prefix m \<and> (\<exists>post. s = href_open @ m @ [dquote] @ post)"
    by blast
next
  assume "dquote \<notin> set m \<and> strict_prefix download_prefix m \<and> (\<exists>post. s = href_open @ m @ [dquote] @ post)"
  then obtain post body where nq: "dquote \<notin> set m" and m: "m = download_prefix @ body" "body \<noteq> []"
    and s: "s = href_open @ m @ [dquote] @ post"
    by (fastforce simp: strict_prefix_def prefix_def)
  have s': "s = (href_open @ download_prefix) @ (body @ dquote # post)" using s m by simp
  have nb: "dquote \<notin> set body" using nq m by simp
  have allb: "\<And>x. x \<in> set body \<Longrightarrow> x \<noteq> dquote" using nb by auto
  have tw: "takeWhile (\<lambda>c. c \<noteq> dquote) (body @ dquote # post) = body"
    using allb by (simp add: takeWhile_tail)
  have dw: "dropWhile (\<lambda>c. c \<noteq> dquote) (body @ dquote # post) = dquote # post"
    using allb by simp
  show "match_href_here s = Some m"
    unfolding match_href_here_def strip_prefix_def s'
    using tw dw m by (simp add: Let_def)
qed


lemma find_href_None_iff:
  "find_href html = None \<longleftrightarrow> (\<forall>pre v. \<not> href_longer_at html pre v)"
proof (induction html)
  case Nil
  then show ?case by (simp add: href_longer_at_def href_open_def)
next
  case (Cons c s)
  have split: "(\<exists>pre v. href_longer_at (c # s) pre v) \<longleftrightarrow>
      (\<exists>v. href_longer_at (c # s) [] v) \<or> (\<exists>pre v. href_longer_at s pre v)"
  proof
    assume "\<exists>pre v. href_longer_at (c # s) pre v"
    then obtain pre v where h: "href_longer_at (c # s) pre v" by blast
    show "(\<exists>v. href_longer_at (c # s) [] v) \<or> (\<exists>pre v. href_longer_at s pre v)"
    proof (cases pre)
      case Nil
      with h show ?thesis by blast
    next
      case (Cons d pre')
      with h have "href_longer_at s pre' v" by (auto simp: href_longer_at_def)
      then show ?thesis by blast
    qed
  next
    assume "(\<exists>v. href_longer_at (c # s) [] v) \<or> (\<exists>pre v. href_longer_at s pre v)"
    then show "\<exists>pre v. href_longer_at (c # s) pre v"
    proof
      assume "\<exists>v. href_longer_at (c # s) [] v" then show ?thesis by blast
    next
      assume "\<exists>pre v. href_longer_at s pre v"
      then obtain pre v where "href_longer_at s pre v" by blast
      then have "href_longer_at (c # s) (c # pre) v" by (auto simp: href_longer_at_def)
      then show ?thesis by blast
    qed
  qed
  have here: "match_href_here (c # s) = Some m \<longleftrightarrow> href_longer_at (c # s) [] m" for m
    by (simp add: match_href_here_iff href_longer_at_def)
  show ?case
  proof (cases "match_href_here (c # s)")
    case None
    then have "\<not> (\<exists>v. href_longer_at (c # s) [] v)" using here by auto
    with None Cons.IH split show ?thesis by auto
  next
    case (Some m)
    then have "href_longer_at (c # s) [] m" using here by simp
    with Some show ?thesis by auto
  qed
qed

lemma find_href_Some:
  "find_href html = Some m \<Longrightarrow>
     \<exists>pre. href_longer_at html pre m \<and> (\<forall>pre' v'. href_longer_at html pre' v' \<longrightarrow> length pre \<le> length pre')"
proof (induction html)
  case Nil
  then show ?case by simp
next
  case (Cons c s)
  have here: "match_href_here (c # s) = Some m \<longleftrightarrow> href_longer_at (c # s) [] m" for m
    by (simp add: match_href_here_iff href_longer_at_def)
  show ?case
  proof (cases "match_href_here (c # s)")
    case (Some m')
    with Cons.prems have "m' = m" by simp
    with Some here have "href_longer_at (c # s) [] m" by simp
    then show ?thesis by (intro exI[of _ "[]"]) simp
  next
    case None
    with Cons.prems have "find_href s = Some m" by simp
    from Cons.IH[OF this] obtain pre where p: "href_longer_at s pre m"
      and least: "\<forall>pre' v'. href_longer_at s pre' v' \<longrightarrow> length pre \<le> length pre'" by blast
    have 1: "href_longer_at (c # s) (c # pre) m" using p by (auto simp: href_longer_at_def)
    have 2: "length (c # pre) \<le> length pre'" if h: "href_longer_at (c # s) pre' v'" for pre' v'
    proof (cases pre')
      case Nil
      with h here[of v'] None show ?thesis by simp
    next
      case (Cons d pre'')
      with h have "href_longer_at s pre'' v'" by (auto simp: href_longer_at_def)
      with least have "length pre \<le> length pre''" by blast
      with Cons show ?thesis by simp
    qed
    from 1 2 show ?thesis by blast
  qed
qed

text \<open>
  Claim C3, as amended.  When the page text holds an \<open>href\<close> attribute in double
  quotes whose value begins with the export-download prefix and goes on for at least
  one more character, the result is the provider host followed by the value of the
  leftmost such attribute, with \<open>&amp;\<close> replaced by \<open>&\<close>; when it holds none, the result
  is the file-URL-retrieval error.
\<close>

theorem confirmation_url_amended:
  "((\<exists>pre v. href_longer_at html pre v) \<longrightarrow>
      (\<exists>pre v. href_longer_at html pre v \<and>
         (\<forall>pre' v'. href_longer_at html pre' v' \<longrightarrow> length pre \<le> length pre') \<and>
         getUrlFromGDriveConfirmation html =
           Inr (strings_ReplaceAll (''https://docs.google.com'' @ v) ''&amp;'' ''&''))) \<and>
   (\<not> (\<exists>pre v. href_longer_at html pre v) \<longrightarrow>
      getUrlFromGDriveConfirmation html = Inl ErrFileURLRetrieval)"
proof (cases "find_href html")
  case None
  then show ?thesis
    using find_href_None_iff[of html] by (simp add: getUrlFromGDriveConfirmation_def)
next
  case (Some m)
  from find_href_Some[OF Some] obtain pre where
    "href_longer_at html pre m"
    "\<forall>pre' v'. href_longer_at html pre' v' \<longrightarrow> length pre \<le> length pre'" by blast
  then show ?thesis using Some
    by (auto simp: getUrlFromGDriveConfirmation_def Let_def)
qed

text \<open>
  Claim C3 as stated fails on a link whose value is exactly the prefix: the value
  begins with the prefix, and the result is the error.
\<close>

theorem confirmation_url_counterexample:
  "href_at bare_page ''<a '' download_prefix \<and>
   getUrlFromGDriveConfirmation bare_page = Inl ErrFileURLRetrieval"
  by (simp add: href_at_def bare_page_def getUrlFromGDriveConfirmation_def match_href_here_def
      strip_prefix_def href_open_def download_prefix_def dquote_def)

lemma confirm_page_result:
  "getUrlFromGDriveConfirmation confirm_page =
     Inr ''https://docs.google.com/uc?export=download&confirm=t&id=A1''"
  by (simp add: confirm_page_def getUrlFromGDriveConfirmation_def match_href_here_def
      strip_prefix_def href_open_def download_prefix_def dquote_def strings_ReplaceAll_def)

lemma confirm_page_href:
  "href_longer_at confirm_page ''<a id=x '' ''/uc?export=download&amp;confirm=t&amp;id=A1''"
  by (simp add: href_longer_at_def confirm_page_def href_open_def download_prefix_def dquote_def
      strict_prefix_def)

theorem confirmation_url_amended_witness:
  "href_longer_at confirm_page ''<a id=x '' ''/uc?export=download&amp;confirm=t&amp;id=A1'' \<and>
   getUrlFromGDriveConfirmation confirm_page =
     Inr ''https://docs.google.com/uc?export=download&confirm=t&id=A1'' \<and>
   \<not> (\<exists>pre v. href_longer_at ''<html>no link</html>'' pre v) \<and>
   getUrlFromGDriveConfirmation ''<html>no link</html>'' = Inl ErrFileURLRetrieval"
proof -
  have none: "find_href ''<html>no link</html>'' = None"
    by (simp add: match_href_here_def strip_prefix_def href_open_def download_prefix_def dquote_def)
  have no: "\<not> (\<exists>pre v. href_longer_at ''<html>no link</html>'' pre v)"
    using none find_href_None_iff[of "''<html>no link</html>''"] by blast
  with confirmation_url_amended[of "''<html>no link</html>''"]
  have "getUrlFromGDriveConfirmation ''<html>no link</html>'' = Inl ErrFileURLRetrieval"
    by blast
  moreover from confirmation_url_amended[of confirm_page] confirm_page_href
  have "\<exists>pre v. href_longer_at confirm_page pre v \<and>
         getUrlFromGDriveConfirmation confirm_page =
           Inr (strings_ReplaceAll (''https://docs.google.com'' @ v) ''&amp;'' ''&'')"
    by blast
  ultimately show ?thesis using no confirm_page_href confirm_page_result by blast
qed

section \<open>Properties of URL parsing\<close>

text \<open>
  Claim C1.  For a URL that parses, with host \<open>drive.google.com\<close> or
  \<open>docs.google.com\<close> and an \<open>id\<close> query parameter, the identifier is the (first) value
  of that parameter, whatever the path; for a URL that parses with any other host
  the identifier is empty and there is no error.
\<close>

theorem ParseUrl_id_parameter:
  "(url_Parse E urlStr = Inr u \<and>
      (Hostname u = ''drive.google.com'' \<or> Hostname u = ''docs.google.com'') \<and>
      Query u ''id'' = Some (v # vs)
      \<longrightarrow> fileId (ParseUrl E urlStr warn) = v \<and> err (ParseUrl E urlStr warn) = None) \<and>
   (url_Parse E urlStr = Inr u \<and>
      Hostname u \<noteq> ''drive.google.com'' \<and> Hostname u \<noteq> ''docs.google.com''
      \<longrightarrow> fileId (ParseUrl E urlStr warn) = [] \<and> err (ParseUrl E urlStr warn) = None)"
  by (auto simp: ParseUrl_def IsGoogleDriveUrl_def Values_Has_def Values_Get_def Let_def)

lemma test_parse_1:
  "url_Parse (test_env no_server) ''https://drive.google.com/file/d/ABC123/view?id=XYZ'' =
     Inr \<lparr>Hostname = ''drive.google.com'', Path = ''/file/d/ABC123/view'',
          Query = [''id'' \<mapsto> [''XYZ'']]\<rparr>"
  by (simp add: test_env_def test_Parse_def test_urls_def)

lemma test_parse_2:
  "url_Parse (test_env no_server) ''https://example.com/file/d/ABC123/view?id=XYZ'' =
     Inr \<lparr>Hostname = ''example.com'', Path = ''/file/d/ABC123/view'',
          Query = [''id'' \<mapsto> [''XYZ'']]\<rparr>"
  by (simp add: test_env_def test_Parse_def test_urls_def)

theorem ParseUrl_id_parameter_witness:
  "fileId (ParseUrl (test_env no_server) ''https://drive.google.com/file/d/ABC123/view?id=XYZ'' True) = ''XYZ'' \<and>
   err (ParseUrl (test_env no_server) ''https://drive.google.com/file/d/ABC123/view?id=XYZ'' True) = None \<and>
   fileId (ParseUrl (test_env no_server) ''https://example.com/file/d/ABC123/view?id=XYZ'' True) = [] \<and>
   err (ParseUrl (test_env no_server) ''https://example.com/file/d/ABC123/view?id=XYZ'' True) = None"
  using ParseUrl_id_parameter[of "test_env no_server" "''https://drive.google.com/file/d/ABC123/view?id=XYZ''"
      "\<lparr>Hostname = ''drive.google.com'', Path = ''/file/d/ABC123/view'', Query = [''id'' \<mapsto> [''XYZ'']]\<rparr>"
      "''XYZ''" "[]" True]
    ParseUrl_id_parameter[of "test_env no_server" "''https://example.com/file/d/ABC123/view?id=XYZ''"
      "\<lparr>Hostname = ''example.com'', Path = ''/file/d/ABC123/view'', Query = [''id'' \<mapsto> [''XYZ'']]\<rparr>"
      "''XYZ''" "[]" True]
  by (simp add: test_parse_1 test_parse_2)

section \<open>Properties of the download loop\<close>

text \<open>
  The test that ends the loop, where it applies.  In a round whose answer is a
  confirmation page that rewrites to the URL first asked for, \<open>Download\<close> leaves
  the loop and returns the destination argument as it stands, with no error; the
  filesystem is as it was, and the request of this round is the last one sent.
\<close>

lemma Download_stops_at_original_url:
  "download_request E opts urlStr output (fsys w) = Inr req \<and>
   http_Do E client (sent w) req = Inr resp \<and>
   strings_HasPrefix (Header_Get resp ''Content-Type'') ''text/html'' \<and>
   io_ReadAll resp = Inr body \<and>
   getUrlFromGDriveConfirmation body = Inr origUrl
   \<longrightarrow> Download_loop E client opts origUrl urlStr output w
         = Some (Inr output, w\<lparr>sent := sent w @ [req]\<rparr>)"
  by (subst Download_loop.simps) (simp add: client_Do_def)

lemma interstitial_request:
  "\<not> Resume opts \<Longrightarrow>
   urlStr = ''https://drive.google.com/uc?id=A1'' \<or>
   urlStr = ''https://docs.google.com/uc?export=download&confirm=t&id=A1'' \<Longrightarrow>
   download_request (test_env server) opts urlStr output f =
     Inr \<lparr>rq_Method = ''GET'', rq_URL = urlStr, rq_Header = [(''User-Agent'', UserAgent opts)]\<rparr>"
  by (auto simp: download_request_def http_NewRequest_def test_env_def test_Parse_def
      test_urls_def Header_Set_def)

lemma interstitial_round:
  assumes "\<not> Resume opts"
    and "urlStr = ''https://drive.google.com/uc?id=A1'' \<or>
         urlStr = ''https://docs.google.com/uc?export=download&confirm=t&id=A1''"
  shows "Download_loop (test_env interstitial_server) client opts
           ''https://drive.google.com/uc?id=A1'' urlStr output w =
         Download_loop (test_env interstitial_server) client opts
           ''https://drive.google.com/uc?id=A1''
           ''https://docs.google.com/uc?export=download&confirm=t&id=A1'' output
           (w\<lparr>sent := sent w @ [\<lparr>rq_Method = ''GET'', rq_URL = urlStr,
                                   rq_Header = [(''User-Agent'', UserAgent opts)]\<rparr>]\<rparr>)"
proof -
  have srv: "http_Do (test_env interstitial_server) = interstitial_server"
    by (simp add: test_env_def)
  show ?thesis
    by (subst Download_loop.simps)
      (simp add: interstitial_request[OF assms] client_Do_def srv interstitial_server_def
        html_response_def Header_Get_def strings_HasPrefix_def io_ReadAll_def confirm_page_result)
qed

lemma interstitial_never_returns:
  assumes ret: "Download_loop E client opts origUrl urlStr dest w = Some y"
  shows "E = test_env interstitial_server \<longrightarrow> \<not> Resume opts \<longrightarrow>
   origUrl = ''https://drive.google.com/uc?id=A1'' \<longrightarrow>
   (urlStr = ''https://drive.google.com/uc?id=A1'' \<or>
    urlStr = ''https://docs.google.com/uc?export=download&confirm=t&id=A1'') \<longrightarrow> False"
proof (rule Download_loop.raw_induct[where P = "\<lambda>E client opts origUrl urlStr dest w y.
   E = test_env interstitial_server \<longrightarrow> \<not> Resume opts \<longrightarrow>
   origUrl = ''https://drive.google.com/uc?id=A1'' \<longrightarrow>
   (urlStr = ''https://drive.google.com/uc?id=A1'' \<or>
    urlStr = ''https://docs.google.com/uc?export=download&confirm=t&id=A1'') \<longrightarrow> False", OF _ ret])
  fix loop :: "memfs env \<Rightarrow> http_client \<Rightarrow> DownloadOptions \<Rightarrow> string \<Rightarrow> string \<Rightarrow> string \<Rightarrow> memfs world
     \<Rightarrow> ((error + string) \<times> memfs world) option"
  fix E client opts origUrl urlStr out w y
  assume IH: "\<And>E client opts origUrl urlStr out w y.
     loop E client opts origUrl urlStr out w = Some y \<Longrightarrow>
     E = test_env interstitial_server \<longrightarrow> \<not> Resume opts \<longrightarrow>
     origUrl = ''https://drive.google.com/uc?id=A1'' \<longrightarrow>
     (urlStr = ''https://drive.google.com/uc?id=A1'' \<or>
      urlStr = ''https://docs.google.com/uc?export=download&confirm=t&id=A1'') \<longrightarrow> False"
  assume step: "(case download_request E opts urlStr out (fsys w) of
        Inl e \<Rightarrow> Some (Inl e, w)
      | Inr req \<Rightarrow>
          (case client_Do E client req w of
             (Inl e, w1) \<Rightarrow> Some (Inl e, w1)
           | (Inr resp, w1) \<Rightarrow>
               (let ct = Header_Get resp ''Content-Type''
                in if strings_HasPrefix ct ''text/html'' then
                     (case io_ReadAll resp of
                        Inl e \<Rightarrow> Some (Inl e, w1)
                      | Inr bodyBytes \<Rightarrow>
                          (case getUrlFromGDriveConfirmation bodyBytes of
                             Inl e \<Rightarrow> Some (Inl e, w1)
                           | Inr newUrl \<Rightarrow>
                               if origUrl = newUrl then Some (Inr out, w1)
                               else loop E client opts origUrl newUrl out w1))
                   else Some (Download_finish E opts urlStr out resp w1)))) = Some y"
  show "E = test_env interstitial_server \<longrightarrow> \<not> Resume opts \<longrightarrow>
     origUrl = ''https://drive.google.com/uc?id=A1'' \<longrightarrow>
     (urlStr = ''https://drive.google.com/uc?id=A1'' \<or>
      urlStr = ''https://docs.google.com/uc?export=download&confirm=t&id=A1'') \<longrightarrow> False"
  proof (intro impI)
    assume E: "E = test_env interstitial_server" and r: "\<not> Resume opts"
      and o: "origUrl = ''https://drive.google.com/uc?id=A1''"
      and u: "urlStr = ''https://drive.google.com/uc?id=A1'' \<or>
              urlStr = ''https://docs.google.com/uc?export=download&confirm=t&id=A1''"
    have srv: "http_Do (test_env interstitial_server) = interstitial_server"
      by (simp add: test_env_def)
    from step have
      "loop E client opts origUrl ''https://docs.google.com/uc?export=download&confirm=t&id=A1''
         out (w\<lparr>sent := sent w @ [\<lparr>rq_Method = ''GET'', rq_URL = urlStr,
                                   rq_Header = [(''User-Agent'', UserAgent opts)]\<rparr>]\<rparr>) = Some y"
      unfolding E o
      by (simp add: interstitial_request[OF r u] client_Do_def srv interstitial_server_def
        html_response_def Header_Get_def strings_HasPrefix_def io_ReadAll_def confirm_page_result)
    from IH[OF this] E r o show False by simp
  qed
qed

text \<open>
  Claim C2.  The loop does not always terminate.  The server of this run answers
  every request with the same confirmation page, whose link is not the URL first
  asked for.  The first round asks for that URL and is sent on to the link of the
  page; the second and every later round ask for the link and get the same link
  back.  The test compares the link with the URL first asked for, never with the
  URL just asked for, so it fails in every round and \<open>Download\<close> never returns.
\<close>

theorem Download_never_returns:
  "getUrlFromGDriveConfirmation confirm_page =
     Inr ''https://docs.google.com/uc?export=download&confirm=t&id=A1'' \<and>
   ''https://docs.google.com/uc?export=download&confirm=t&id=A1'' \<noteq>
     ''https://drive.google.com/uc?id=A1'' \<and>
   Download (test_env interstitial_server) ''https://drive.google.com/uc?id=A1'' ''out''
     default_options empty_world = None"
proof -
  let ?opts = "default_options\<lparr>UserAgent := ''Mozilla/5.0 (compatible; gdown-go)''\<rparr>"
  have nr: "\<not> Resume ?opts" by (simp add: default_options_def)
  have "Download_loop (test_env interstitial_server) client ?opts
          ''https://drive.google.com/uc?id=A1'' ''https://drive.google.com/uc?id=A1'' ''out''
          empty_world = None" for client
  proof (cases "Download_loop (test_env interstitial_server) client ?opts
          ''https://drive.google.com/uc?id=A1'' ''https://drive.google.com/uc?id=A1'' ''out''
          empty_world")
    case None
    then show ?thesis .
  next
    case (Some y)
    from interstitial_never_returns[OF Some] nr show ?thesis by simp
  qed
  then show ?thesis
    by (simp add: Download_def newHTTPClient_def default_options_def confirm_page_result)
qed

text \<open>
  The same server, asked for the link of its page in the first place: the test
  applies in the first round, and \<open>Download\<close> returns after one request.
\<close>

lemma Download_stops_example:
  "getUrlFromGDriveConfirmation confirm_page =
     Inr ''https://docs.google.com/uc?export=download&confirm=t&id=A1'' \<and>
   Download (test_env interstitial_server)
     ''https://docs.google.com/uc?export=download&confirm=t&id=A1'' ''out''
     default_options empty_world =
   Some (Inr ''out'',
         empty_world\<lparr>sent :=
           [\<lparr>rq_Method = ''GET'',
             rq_URL = ''https://docs.google.com/uc?export=download&confirm=t&id=A1'',
             rq_Header = [(''User-Agent'', ''Mozilla/5.0 (compatible; gdown-go)'')]\<rparr>]\<rparr>)"
proof -
  let ?u = "''https://docs.google.com/uc?export=download&confirm=t&id=A1''"
  let ?opts = "default_options\<lparr>UserAgent := ''Mozilla/5.0 (compatible; gdown-go)''\<rparr>"
  let ?req = "\<lparr>rq_Method = ''GET'', rq_URL = ?u,
               rq_Header = [(''User-Agent'', ''Mozilla/5.0 (compatible; gdown-go)'')]\<rparr>"
  let ?client = "\<lparr>hc_Proxy = None, hc_InsecureSkipVerify = False, hc_Jar = True\<rparr>"
  have nr: "\<not> Resume ?opts" by (simp add: default_options_def)
  have rq: "download_request (test_env interstitial_server) ?opts ?u ''out'' (fsys empty_world)
              = Inr ?req"
    using interstitial_request[OF nr, of ?u interstitial_server "''out''" "fsys empty_world"]
    by (simp add: default_options_def)
  have rs: "http_Do (test_env interstitial_server) ?client (sent empty_world) ?req
              = Inr (html_response confirm_page)"
    by (simp add: test_env_def interstitial_server_def)
  have ct: "strings_HasPrefix (Header_Get (html_response confirm_page) ''Content-Type'') ''text/html''"
    by (simp add: html_response_def Header_Get_def strings_HasPrefix_def)
  have rd: "io_ReadAll (html_response confirm_page) = Inr confirm_page"
    by (simp add: html_response_def io_ReadAll_def)
  from Download_stops_at_original_url[of "test_env interstitial_server" ?opts ?u "''out''"
      empty_world ?req ?client "html_response confirm_page" confirm_page ?u]
    rq rs ct rd confirm_page_result
  have "Download_loop (test_env interstitial_server) ?client ?opts ?u ?u ''out'' empty_world
          = Some (Inr ''out'', empty_world\<lparr>sent := sent empty_world @ [?req]\<rparr>)"
    by blast
  then show ?thesis
    by (simp add: Download_def newHTTPClient_def default_options_def empty_world_def
        confirm_page_result)
qed

section \<open>The destination of a download\<close>








lemma Download_loop_file_round:
  assumes "download_request E opts urlStr dest (fsys w) = Inr req"
    and "http_Do E client (sent w) req = Inr resp"
    and "\<not> strings_HasPrefix (Header_Get resp ''Content-Type'') ''text/html''"
  shows "Download_loop E client opts origUrl urlStr dest w =
           Some (Download_finish E opts urlStr dest resp (w\<lparr>sent := sent w @ [req]\<rparr>))"
  using assms by (subst Download_loop.simps) (simp add: client_Do_def)









































section \<open>Properties of the cache and of hash verification\<close>

lemma split_hash_None: "split_hash h = None \<longleftrightarrow> CHR '':'' \<notin> set h"
  by (simp add: split_hash_def)

lemma split_hash_parts:
  assumes "CHR '':'' \<notin> set algo"
  shows "split_hash (algo @ '':'' @ digest) = Some (algo, digest)"
proof -
  have a: "\<And>x. x \<in> set algo \<Longrightarrow> x \<noteq> CHR '':''" using assms by auto
  have "takeWhile (\<lambda>c. c \<noteq> CHR '':'') (algo @ CHR '':'' # digest) = algo"
    using a by (simp add: takeWhile_tail)
  moreover have "dropWhile (\<lambda>c. c \<noteq> CHR '':'') (algo @ CHR '':'' # digest) = CHR '':'' # digest"
    using a by simp
  ultimately show ?thesis by (simp add: split_hash_def)
qed

lemma cached_install_Inr:
  assumes "cached_install E dp outputPath hash quiet pp w = (Inr p, w')"
  shows "p = outputPath \<and>
         (\<exists>f1. os_Rename E (fsys w) dp outputPath = (None, f1) \<and>
               (hash \<noteq> [] \<longrightarrow> assertFileHash E f1 outputPath hash quiet = (True, None)))"
proof -
  obtain re f1 where rn: "os_Rename E (fsys w) dp outputPath = (re, f1)" by (cases "os_Rename E (fsys w) dp outputPath")
  show ?thesis
  proof (cases re)
    case (Some e)
    with rn assms show ?thesis by (simp add: cached_install_def)
  next
    case None
    obtain ok ae where af: "assertFileHash E f1 outputPath hash quiet = (ok, ae)"
      by (cases "assertFileHash E f1 outputPath hash quiet")
    show ?thesis
    proof (cases "hash \<noteq> [] \<and> (ae \<noteq> None \<or> \<not> ok)")
      case True
      with rn None af assms show ?thesis by (simp add: cached_install_def)
    next
      case False
      then have v: "hash \<noteq> [] \<longrightarrow> assertFileHash E f1 outputPath hash quiet = (True, None)"
        using af by auto
      have "p = outputPath"
        using rn None af assms False
        by (cases pp) (auto simp: cached_install_def Let_def split: prod.splits option.splits)
      with v rn None show ?thesis by simp
    qed
  qed
qed

lemma assertFileHash_ok:
  "fst (assertFileHash E f name h quiet) \<Longrightarrow> assertFileHash E f name h quiet = (True, None)"
  by (auto simp: assertFileHash_def split: option.splits prod.splits if_splits sum.splits)

lemma remove_tmp_Inr: "remove_tmp E t r = (Inr p, w') \<Longrightarrow> \<exists>w''. r = (Inr p, w'')"
  by (cases r) (auto simp: remove_tmp_def)

lemma CachedDownload_unfold:
  "CachedDownload E url out hash quiet pp opts w0 =
     (if fileExists E (snd (os_MkdirAll E (fsys w0) (getCacheRoot E))) (cache_path E url out) \<and> hash = []
      then Some (Inr (cache_path E url out), w0\<lparr>fsys := snd (os_MkdirAll E (fsys w0) (getCacheRoot E))\<rparr>)
      else if fileExists E (snd (os_MkdirAll E (fsys w0) (getCacheRoot E))) (cache_path E url out) \<and> hash \<noteq> [] \<and>
              fst (assertFileHash E (snd (os_MkdirAll E (fsys w0) (getCacheRoot E))) (cache_path E url out) hash quiet)
      then Some (Inr (cache_path E url out), w0\<lparr>fsys := snd (os_MkdirAll E (fsys w0) (getCacheRoot E))\<rparr>)
      else
        (case os_MkdirTemp E (snd (os_MkdirAll E (fsys w0) (getCacheRoot E))) (getCacheRoot E) ''dl'' of
           (Inl e, f1) \<Rightarrow> Some (Inl e, w0\<lparr>fsys := f1\<rparr>)
         | (Inr tmpDir, f1) \<Rightarrow>
             (case Download E url (filepath_Join [tmpDir, ''dl'']) opts (w0\<lparr>fsys := f1\<rparr>) of
                None \<Rightarrow> None
              | Some (Inl e, w2) \<Rightarrow> Some (remove_tmp E tmpDir (Inl e, w2))
              | Some (Inr dp, w2) \<Rightarrow>
                  Some (remove_tmp E tmpDir
                    (cached_install E dp (cache_path E url out) hash quiet pp w2)))))"
  unfolding CachedDownload_def Let_def
  by (simp del: filepath_Join.simps cong: if_cong prod.case_cong sum.case_cong)

lemma CachedDownload_success:
  assumes ret: "CachedDownload E url out hash quiet pp opts w0 = Some (Inr p, w')"
  defines "f0 \<equiv> snd (os_MkdirAll E (fsys w0) (getCacheRoot E))"
  shows "p = cache_path E url out \<and>
     ((fileExists E f0 p \<and> hash = [] \<and> w' = w0\<lparr>fsys := f0\<rparr>) \<or>
      (fileExists E f0 p \<and> hash \<noteq> [] \<and> w' = w0\<lparr>fsys := f0\<rparr> \<and>
         assertFileHash E f0 p hash quiet = (True, None)) \<or>
      (\<exists>tmpDir f1 dp w2 f3.
          os_MkdirTemp E f0 (getCacheRoot E) ''dl'' = (Inr tmpDir, f1) \<and>
          Download E url (filepath_Join [tmpDir, ''dl'']) opts (w0\<lparr>fsys := f1\<rparr>) = Some (Inr dp, w2) \<and>
          os_Rename E (fsys w2) dp p = (None, f3) \<and>
          (hash \<noteq> [] \<longrightarrow> assertFileHash E f3 p hash quiet = (True, None))))"
proof -
  let ?P = "cache_path E url out"
  note unf = CachedDownload_unfold[of E url out hash quiet pp opts w0, folded f0_def]
  show ?thesis
  proof (cases "fileExists E f0 ?P \<and> hash = []")
    case True
    then have "CachedDownload E url out hash quiet pp opts w0 = Some (Inr ?P, w0\<lparr>fsys := f0\<rparr>)"
      by (subst unf) simp
    with ret have "p = ?P" "w' = w0\<lparr>fsys := f0\<rparr>" by simp_all
    with True show ?thesis by blast
  next
    case n1: False
    show ?thesis
    proof (cases "fileExists E f0 ?P \<and> hash \<noteq> [] \<and> fst (assertFileHash E f0 ?P hash quiet)")
      case True
      then have "assertFileHash E f0 ?P hash quiet = (True, None)"
        by (simp add: assertFileHash_ok)
      moreover from True have "CachedDownload E url out hash quiet pp opts w0 = Some (Inr ?P, w0\<lparr>fsys := f0\<rparr>)"
        by (subst unf) simp
      with ret have "p = ?P" "w' = w0\<lparr>fsys := f0\<rparr>" by simp_all
      ultimately show ?thesis using True by blast
    next
      case n2: False
      obtain tr f1 where mt: "os_MkdirTemp E f0 (getCacheRoot E) ''dl'' = (tr, f1)"
        by (cases "os_MkdirTemp E f0 (getCacheRoot E) ''dl''")
      have c1: "(fileExists E f0 ?P \<and> hash = []) = False" using n1 by simp
      have c2: "(fileExists E f0 ?P \<and> hash \<noteq> [] \<and> fst (assertFileHash E f0 ?P hash quiet)) = False"
        using n2 by simp
      have step: "CachedDownload E url out hash quiet pp opts w0 =
        (case (tr, f1) of
           (Inl e, f1) \<Rightarrow> Some (Inl e, w0\<lparr>fsys := f1\<rparr>)
         | (Inr tmpDir, f1) \<Rightarrow>
             (case Download E url (filepath_Join [tmpDir, ''dl'']) opts (w0\<lparr>fsys := f1\<rparr>) of
                None \<Rightarrow> None
              | Some (Inl e, w2) \<Rightarrow> Some (remove_tmp E tmpDir (Inl e, w2))
              | Some (Inr dp, w2) \<Rightarrow>
                  Some (remove_tmp E tmpDir (cached_install E dp ?P hash quiet pp w2))))"
        by (subst unf) (simp only: c1 c2 if_False mt)
      show ?thesis
      proof (cases tr)
        case (Inl e)
        with step ret show ?thesis by simp
      next
        case (Inr tmpDir)
        let ?D = "Download E url (filepath_Join [tmpDir, ''dl'']) opts (w0\<lparr>fsys := f1\<rparr>)"
        from step Inr ret have r2:
          "(case ?D of None \<Rightarrow> None
            | Some (Inl e, w2) \<Rightarrow> Some (remove_tmp E tmpDir (Inl e, w2))
            | Some (Inr dp, w2) \<Rightarrow> Some (remove_tmp E tmpDir
                 (cached_install E dp ?P hash quiet pp w2))) = Some (Inr p, w')"
          by (simp del: filepath_Join.simps)
        then obtain res w2 where d: "?D = Some (res, w2)"
          by (cases ?D) auto
        show ?thesis
        proof (cases res)
          case (Inl e)
          with r2 d show ?thesis by (simp add: remove_tmp_def)
        next
          case (Inr dp)
          with r2 d have "remove_tmp E tmpDir (cached_install E dp ?P hash quiet pp w2) = (Inr p, w')"
            by simp
          from remove_tmp_Inr[OF this] obtain w'' where
            "cached_install E dp ?P hash quiet pp w2 = (Inr p, w'')" by blast
          from cached_install_Inr[OF this] obtain f3 where
            "p = ?P" "os_Rename E (fsys w2) dp ?P = (None, f3)"
            "hash \<noteq> [] \<longrightarrow> assertFileHash E f3 ?P hash quiet = (True, None)" by blast
          with mt \<open>tr = Inr tmpDir\<close> d Inr show ?thesis by blast
        qed
      qed
    qed
  qed
qed

text \<open>
  Claim C5.  Assume that \<^verbatim>\<open>os.MkdirAll\<close> leaves existing files in place.  With an empty
  hash, if the cache path (derived from the URL, or given) is an existing file,
  \<open>CachedDownload\<close> returns that path at once: the request log of the world is as it
  was.  Every successful call returns the cache path; so a second call, made while
  the file returned by the first is in place, returns the same path and sends no
  request.
\<close>

theorem CachedDownload_idempotent:
  "mkdir_keeps_files E \<longrightarrow>
   (fileExists E (fsys w0) (cache_path E url out) \<longrightarrow>
      CachedDownload E url out [] quiet pp opts w0 =
        Some (Inr (cache_path E url out),
              w0\<lparr>fsys := snd (os_MkdirAll E (fsys w0) (getCacheRoot E))\<rparr>)) \<and>
   (CachedDownload E url out [] quiet pp opts w0 = Some (Inr p, w1) \<longrightarrow>
      p = cache_path E url out) \<and>
   (CachedDownload E url out [] quiet pp opts w0 = Some (Inr p, w1) \<and> fileExists E (fsys w1) p \<longrightarrow>
      (\<exists>w2. CachedDownload E url out [] quiet pp opts w1 = Some (Inr p, w2) \<and>
            sent w2 = sent w1))"
proof (intro impI conjI)
  assume keeps: "mkdir_keeps_files E"
  have hit: "CachedDownload E url out [] quiet pp opts w =
        Some (Inr (cache_path E url out),
              w\<lparr>fsys := snd (os_MkdirAll E (fsys w) (getCacheRoot E))\<rparr>)"
    if "fileExists E (fsys w) (cache_path E url out)" for w
  proof -
    from keeps that
    have "fileExists E (snd (os_MkdirAll E (fsys w) (getCacheRoot E))) (cache_path E url out)"
      unfolding mkdir_keeps_files_def by blast
    then show ?thesis by (subst CachedDownload_unfold) simp
  qed
  {
    assume "fileExists E (fsys w0) (cache_path E url out)"
    then show "CachedDownload E url out [] quiet pp opts w0 =
        Some (Inr (cache_path E url out),
              w0\<lparr>fsys := snd (os_MkdirAll E (fsys w0) (getCacheRoot E))\<rparr>)"
      by (rule hit)
  }
  {
    assume "CachedDownload E url out [] quiet pp opts w0 = Some (Inr p, w1)"
    from CachedDownload_success[OF this] show "p = cache_path E url out" by blast
  }
  {
    assume a: "CachedDownload E url out [] quiet pp opts w0 = Some (Inr p, w1) \<and> fileExists E (fsys w1) p"
    then have p: "p = cache_path E url out" using CachedDownload_success by blast
    with a have "fileExists E (fsys w1) (cache_path E url out)" by simp
    from hit[OF this] p
    show "\<exists>w2. CachedDownload E url out [] quiet pp opts w1 = Some (Inr p, w2) \<and> sent w2 = sent w1"
      by simp
  }
qed

text \<open>
  Claim C6, as amended.  \<open>assertFileHash\<close> answers a hash without a colon with the
  invalid-format error, a hash whose text before the first colon is not \<open>md5\<close> with
  the unsupported-algorithm error, and a digest that differs from the file's with the
  mismatch error; the first two differ from every mismatch error.  In
  \<open>CachedDownload\<close> with a hash, a verification that does not succeed after the
  download and the rename makes the result an error; a successful result means that
  the hash of the file at the cache path was verified, either before any download or
  after the rename.
\<close>

theorem hash_verification:
  "(CHR '':'' \<notin> set h \<longrightarrow>
      assertFileHash E f name h quiet = (False, Some (ErrInvalidHashFormat h))) \<and>
   (CHR '':'' \<notin> set algo \<and> algo \<noteq> ''md5'' \<longrightarrow>
      assertFileHash E f name (algo @ '':'' @ digest) quiet =
        (False, Some (ErrUnsupportedHashAlgorithm algo))) \<and>
   (MD5Sum E f name = Inr actual \<and> actual \<noteq> digest \<longrightarrow>
      assertFileHash E f name (''md5:'' @ digest) quiet =
        (False, Some (ErrHashMismatch actual digest))) \<and>
   (MD5Sum E f name = Inr digest \<longrightarrow>
      assertFileHash E f name (''md5:'' @ digest) quiet = (True, None)) \<and>
   ErrInvalidHashFormat h \<noteq> ErrHashMismatch a b \<and>
   ErrUnsupportedHashAlgorithm algo \<noteq> ErrHashMismatch a b \<and>
   (hash \<noteq> [] \<and> os_Rename E (fsys w2) dp outputPath = (None, f3) \<and>
    assertFileHash E f3 outputPath hash quiet \<noteq> (True, None) \<longrightarrow>
      cached_install E dp outputPath hash quiet pp w2 =
        (Inl (ErrHashMismatchForFile outputPath), w2\<lparr>fsys := f3\<rparr>)) \<and>
   (hash \<noteq> [] \<and> CachedDownload E url out hash quiet pp opts w0 = Some (Inr p, w') \<longrightarrow>
      p = cache_path E url out \<and>
      ((fileExists E (snd (os_MkdirAll E (fsys w0) (getCacheRoot E))) p \<and>
        assertFileHash E (snd (os_MkdirAll E (fsys w0) (getCacheRoot E))) p hash quiet = (True, None)) \<or>
       (\<exists>tmpDir f1 dp w2 f3.
          os_MkdirTemp E (snd (os_MkdirAll E (fsys w0) (getCacheRoot E))) (getCacheRoot E) ''dl''
            = (Inr tmpDir, f1) \<and>
          Download E url (filepath_Join [tmpDir, ''dl'']) opts (w0\<lparr>fsys := f1\<rparr>) = Some (Inr dp, w2) \<and>
          os_Rename E (fsys w2) dp p = (None, f3) \<and>
          assertFileHash E f3 p hash quiet = (True, None))))"
proof (intro conjI impI)
  assume "CHR '':'' \<notin> set h"
  then show "assertFileHash E f name h quiet = (False, Some (ErrInvalidHashFormat h))"
    by (simp add: assertFileHash_def split_hash_def)
next
  assume "CHR '':'' \<notin> set algo \<and> algo \<noteq> ''md5''"
  then show "assertFileHash E f name (algo @ '':'' @ digest) quiet =
        (False, Some (ErrUnsupportedHashAlgorithm algo))"
    by (simp add: assertFileHash_def split_hash_parts del: append.simps)
next
  have sp: "split_hash (''md5:'' @ digest) = Some (''md5'', digest)"
    using split_hash_parts[of "''md5''" digest] by simp
  {
    assume "MD5Sum E f name = Inr actual \<and> actual \<noteq> digest"
    then show "assertFileHash E f name (''md5:'' @ digest) quiet =
        (False, Some (ErrHashMismatch actual digest))"
      by (simp add: assertFileHash_def sp del: append.simps)
  }
  {
    assume "MD5Sum E f name = Inr digest"
    then show "assertFileHash E f name (''md5:'' @ digest) quiet = (True, None)"
      by (simp add: assertFileHash_def sp del: append.simps)
  }
next
  show "ErrInvalidHashFormat h \<noteq> ErrHashMismatch a b" by simp
next
  show "ErrUnsupportedHashAlgorithm algo \<noteq> ErrHashMismatch a b" by simp
next
  assume a: "hash \<noteq> [] \<and> os_Rename E (fsys w2) dp outputPath = (None, f3) \<and>
    assertFileHash E f3 outputPath hash quiet \<noteq> (True, None)"
  obtain ok ae where af: "assertFileHash E f3 outputPath hash quiet = (ok, ae)"
    by (cases "assertFileHash E f3 outputPath hash quiet")
  have "ae \<noteq> None \<or> \<not> ok"
  proof (rule ccontr)
    assume "\<not> (ae \<noteq> None \<or> \<not> ok)"
    with af a show False by simp
  qed
  with a af show "cached_install E dp outputPath hash quiet pp w2 =
        (Inl (ErrHashMismatchForFile outputPath), w2\<lparr>fsys := f3\<rparr>)"
    by (simp add: cached_install_def)
next
  assume a: "hash \<noteq> [] \<and> CachedDownload E url out hash quiet pp opts w0 = Some (Inr p, w')"
  then have ret: "CachedDownload E url out hash quiet pp opts w0 = Some (Inr p, w')" by simp
  from CachedDownload_success[OF ret] show "p = cache_path E url out" by blast
  from CachedDownload_success[OF ret] a
  show "(fileExists E (snd (os_MkdirAll E (fsys w0) (getCacheRoot E))) p \<and>
        assertFileHash E (snd (os_MkdirAll E (fsys w0) (getCacheRoot E))) p hash quiet = (True, None)) \<or>
       (\<exists>tmpDir f1 dp w2 f3.
          os_MkdirTemp E (snd (os_MkdirAll E (fsys w0) (getCacheRoot E))) (getCacheRoot E) ''dl''
            = (Inr tmpDir, f1) \<and>
          Download E url (filepath_Join [tmpDir, ''dl'']) opts (w0\<lparr>fsys := f1\<rparr>) = Some (Inr dp, w2) \<and>
          os_Rename E (fsys w2) dp p = (None, f3) \<and>
          assertFileHash E f3 p hash quiet = (True, None))"
    by blast
qed

lemma test_cache_root: "getCacheRoot (test_env server) = ''/home/u/.cache/gdown''"
  by (simp add: getCacheRoot_def test_env_def filepath_Clean_def PathSeparator_def)

lemma test_cache_path:
  "cache_path (test_env server) ''https://drive.google.com/uc?id=A1'' [] =
     ''/home/u/.cache/gdown/https-COLON--SLASH--SLASH-drive.google.com-SLASH-uc-QUESTION-id-EQUAL-A1''"
  by (simp add: cache_path_def test_cache_root cache_key_def filepath_Clean_def PathSeparator_def)

lemma test_download_file:
  assumes "dest \<noteq> []" and "f dest = None"
  shows "Download (test_env file_server) ''https://drive.google.com/uc?id=A1'' dest
           default_options \<lparr>fsys = f, sent = S\<rparr> =
         Some (Inr dest,
               \<lparr>fsys = f(dest \<mapsto> FFile ''data''),
                sent = S @ [\<lparr>rq_Method = ''GET'', rq_URL = ''https://drive.google.com/uc?id=A1'',
                   rq_Header = [(''User-Agent'', ''Mozilla/5.0 (compatible; gdown-go)'')]\<rparr>]\<rparr>)"
proof -
  let ?E = "test_env file_server"
  let ?opts = "default_options\<lparr>UserAgent := ''Mozilla/5.0 (compatible; gdown-go)''\<rparr>"
  let ?u = "''https://drive.google.com/uc?id=A1''"
  let ?req = "\<lparr>rq_Method = ''GET'', rq_URL = ?u,
        rq_Header = [(''User-Agent'', ''Mozilla/5.0 (compatible; gdown-go)'')]\<rparr>"
  let ?w = "\<lparr>fsys = f, sent = S\<rparr>"
  have rq: "download_request ?E ?opts ?u dest (fsys ?w) = Inr ?req"
    by (simp add: download_request_def http_NewRequest_def test_env_def test_Parse_def
      test_urls_def Header_Set_def default_options_def)
  have rs: "http_Do ?E client (sent ?w) ?req = Inr file_response" for client
    by (simp add: test_env_def file_server_def)
  have ct: "\<not> strings_HasPrefix (Header_Get file_response ''Content-Type'') ''text/html''"
    by (simp add: file_response_def Header_Get_def strings_HasPrefix_def)
  have ro: "resolve_output ?E f ?u dest file_response = Inr dest"
    using assms by (simp add: resolve_output_def test_env_def mem_Stat_def)
  have fin: "Download_finish ?E ?opts ?u dest file_response \<lparr>fsys = f, sent = S'\<rparr> =
     (Inr dest, \<lparr>fsys = f(dest \<mapsto> FFile ''data''), sent = S'\<rparr>)" for S'
    unfolding Download_finish_def
    using assms
    by (simp add: ro)
      (simp add: file_response_def default_options_def test_env_def mem_Create_def
        io_CopyBuffer_def mem_Write_def)
  have "Download_loop ?E client ?opts ?u ?u dest ?w =
          Some (Inr dest, \<lparr>fsys = f(dest \<mapsto> FFile ''data''), sent = S @ [?req]\<rparr>)" for client
    by (subst Download_loop_file_round[OF rq rs ct]) (simp add: fin)
  then show ?thesis
    by (simp add: Download_def newHTTPClient_def default_options_def)
qed

lemma test_env_fields:
  "os_Stat (test_env server) = mem_Stat"
  "os_MkdirAll (test_env server) = mem_MkdirAll"
  "os_MkdirTemp (test_env server) = mem_MkdirTemp"
  "os_Rename (test_env server) = mem_Rename"
  "os_RemoveAll (test_env server) = mem_RemoveAll"
  "os_ReadFile (test_env server) = mem_ReadFile"
  "md5_Sum (test_env server) = (\<lambda>d. replicate 16 (CHR 0x00))"
  by (simp_all add: test_env_def)

lemma test_tmp_dir:
  "filepath_Join [''/home/u/.cache/gdown'', ''dl0''] = ''/home/u/.cache/gdown/dl0''"
  "filepath_Join [''/home/u/.cache/gdown/dl0'', ''dl''] = ''/home/u/.cache/gdown/dl0/dl''"
  by (simp_all add: filepath_Clean_def PathSeparator_def)

lemma CachedDownload_miss:
  assumes "\<not> fileExists E (snd (os_MkdirAll E (fsys w0) (getCacheRoot E))) (cache_path E url out)"
    and "os_MkdirTemp E (snd (os_MkdirAll E (fsys w0) (getCacheRoot E))) (getCacheRoot E) ''dl''
           = (Inr tmpDir, f1)"
    and "Download E url (filepath_Join [tmpDir, ''dl'']) opts (w0\<lparr>fsys := f1\<rparr>) = Some (Inr dp, w2)"
  shows "CachedDownload E url out hash quiet pp opts w0 =
           Some (remove_tmp E tmpDir (cached_install E dp (cache_path E url out) hash quiet pp w2))"
  by (subst CachedDownload_unfold) (simp add: assms del: filepath_Join.simps)

lemma first_run:
  "CachedDownload (test_env file_server) ''https://drive.google.com/uc?id=A1'' [] hash True None
     default_options empty_world =
   Some (remove_tmp (test_env file_server) ''/home/u/.cache/gdown/dl0''
     (cached_install (test_env file_server) ''/home/u/.cache/gdown/dl0/dl'' ''/home/u/.cache/gdown/https-COLON--SLASH--SLASH-drive.google.com-SLASH-uc-QUESTION-id-EQUAL-A1'' hash True None
        \<lparr>fsys = [''/home/u/.cache/gdown'' \<mapsto> FDir, ''/home/u/.cache/gdown/dl0'' \<mapsto> FDir,
                         ''/home/u/.cache/gdown/dl0/dl'' \<mapsto> FFile ''data''],
                sent = [\<lparr>rq_Method = ''GET'', rq_URL = ''https://drive.google.com/uc?id=A1'', rq_Header = [(''User-Agent'', ''Mozilla/5.0 (compatible; gdown-go)'')]\<rparr>]\<rparr>))"
proof -
  let ?E = "test_env file_server"
  have f0: "snd (os_MkdirAll ?E (fsys empty_world) ''/home/u/.cache/gdown'') = [''/home/u/.cache/gdown'' \<mapsto> FDir]"
    by (simp add: test_env_fields empty_world_def mem_MkdirAll_def)
  have ne: "\<not> fileExists ?E (snd (os_MkdirAll ?E (fsys empty_world) (getCacheRoot ?E)))
              (cache_path ?E ''https://drive.google.com/uc?id=A1'' [])"
    unfolding test_cache_root test_cache_path f0
    by (simp add: fileExists_def test_env_fields mem_Stat_def)
  have mt: "os_MkdirTemp ?E (snd (os_MkdirAll ?E (fsys empty_world) (getCacheRoot ?E))) (getCacheRoot ?E) ''dl''
     = (Inr ''/home/u/.cache/gdown/dl0'',
        [''/home/u/.cache/gdown'' \<mapsto> FDir, ''/home/u/.cache/gdown/dl0'' \<mapsto> FDir])"
    unfolding test_cache_root f0
    by (simp add: test_env_fields mem_MkdirTemp_def test_tmp_dir Let_def del: filepath_Join.simps)
  have dl: "Download ?E ''https://drive.google.com/uc?id=A1''
           (filepath_Join [''/home/u/.cache/gdown/dl0'', ''dl'']) default_options
           (empty_world\<lparr>fsys := [''/home/u/.cache/gdown'' \<mapsto> FDir, ''/home/u/.cache/gdown/dl0'' \<mapsto> FDir]\<rparr>) =
         Some (Inr ''/home/u/.cache/gdown/dl0/dl'',
               \<lparr>fsys = [''/home/u/.cache/gdown'' \<mapsto> FDir, ''/home/u/.cache/gdown/dl0'' \<mapsto> FDir,
                         ''/home/u/.cache/gdown/dl0/dl'' \<mapsto> FFile ''data''],
                sent = [\<lparr>rq_Method = ''GET'', rq_URL = ''https://drive.google.com/uc?id=A1'', rq_Header = [(''User-Agent'', ''Mozilla/5.0 (compatible; gdown-go)'')]\<rparr>]\<rparr>)"
    using test_download_file[of "''/home/u/.cache/gdown/dl0/dl''"
        "[''/home/u/.cache/gdown'' \<mapsto> FDir, ''/home/u/.cache/gdown/dl0'' \<mapsto> FDir]" "[]"]
    by (simp add: test_tmp_dir empty_world_def del: filepath_Join.simps)
  show ?thesis
    using CachedDownload_miss[OF ne mt dl, of hash True None]
    by (simp only: test_cache_path)
qed

lemma install_no_hash:
  "cached_install (test_env file_server) ''/home/u/.cache/gdown/dl0/dl'' ''/home/u/.cache/gdown/https-COLON--SLASH--SLASH-drive.google.com-SLASH-uc-QUESTION-id-EQUAL-A1'' [] True None
        \<lparr>fsys = [''/home/u/.cache/gdown'' \<mapsto> FDir, ''/home/u/.cache/gdown/dl0'' \<mapsto> FDir,
                         ''/home/u/.cache/gdown/dl0/dl'' \<mapsto> FFile ''data''],
                sent = S\<rparr> = (Inr ''/home/u/.cache/gdown/https-COLON--SLASH--SLASH-drive.google.com-SLASH-uc-QUESTION-id-EQUAL-A1'', \<lparr>fsys = renamed_fs, sent = S\<rparr>)"
  by (simp add: cached_install_def test_env_fields mem_Rename_def renamed_fs_def)

lemma first_run_no_hash:
  "CachedDownload (test_env file_server) ''https://drive.google.com/uc?id=A1'' [] [] True None
     default_options empty_world =
   Some (Inr ''/home/u/.cache/gdown/https-COLON--SLASH--SLASH-drive.google.com-SLASH-uc-QUESTION-id-EQUAL-A1'', \<lparr>fsys = snd (mem_RemoveAll renamed_fs ''/home/u/.cache/gdown/dl0''), sent = [\<lparr>rq_Method = ''GET'', rq_URL = ''https://drive.google.com/uc?id=A1'', rq_Header = [(''User-Agent'', ''Mozilla/5.0 (compatible; gdown-go)'')]\<rparr>]\<rparr>)"
  by (simp add: first_run install_no_hash remove_tmp_def test_env_fields)

lemma installed_file:
  "fileExists (test_env file_server) (snd (mem_RemoveAll renamed_fs ''/home/u/.cache/gdown/dl0'')) ''/home/u/.cache/gdown/https-COLON--SLASH--SLASH-drive.google.com-SLASH-uc-QUESTION-id-EQUAL-A1''"
  by (simp add: fileExists_def test_env_fields mem_Stat_def mem_RemoveAll_def renamed_fs_def)

lemma test_env_keeps: "mkdir_keeps_files (test_env server)"
  by (auto simp: mkdir_keeps_files_def fileExists_def test_env_fields mem_Stat_def mem_MkdirAll_def
      split: option.splits fnode.splits)

theorem CachedDownload_idempotent_witness:
  "\<exists>w1 w2.
     CachedDownload (test_env file_server) ''https://drive.google.com/uc?id=A1'' [] [] True None
       default_options empty_world = Some (Inr ''/home/u/.cache/gdown/https-COLON--SLASH--SLASH-drive.google.com-SLASH-uc-QUESTION-id-EQUAL-A1'', w1) \<and>
     sent w1 = [\<lparr>rq_Method = ''GET'', rq_URL = ''https://drive.google.com/uc?id=A1'', rq_Header = [(''User-Agent'', ''Mozilla/5.0 (compatible; gdown-go)'')]\<rparr>] \<and>
     CachedDownload (test_env file_server) ''https://drive.google.com/uc?id=A1'' [] [] True None
       default_options w1 = Some (Inr ''/home/u/.cache/gdown/https-COLON--SLASH--SLASH-drive.google.com-SLASH-uc-QUESTION-id-EQUAL-A1'', w2) \<and>
     sent w2 = [\<lparr>rq_Method = ''GET'', rq_URL = ''https://drive.google.com/uc?id=A1'', rq_Header = [(''User-Agent'', ''Mozilla/5.0 (compatible; gdown-go)'')]\<rparr>]"
proof -
  let ?w1 = "\<lparr>fsys = snd (mem_RemoveAll renamed_fs ''/home/u/.cache/gdown/dl0''), sent = [\<lparr>rq_Method = ''GET'', rq_URL = ''https://drive.google.com/uc?id=A1'', rq_Header = [(''User-Agent'', ''Mozilla/5.0 (compatible; gdown-go)'')]\<rparr>]\<rparr>"
  from CachedDownload_idempotent[of "test_env file_server" empty_world
      "''https://drive.google.com/uc?id=A1''" "[]" True None default_options "''/home/u/.cache/gdown/https-COLON--SLASH--SLASH-drive.google.com-SLASH-uc-QUESTION-id-EQUAL-A1''" ?w1]
    test_env_keeps first_run_no_hash installed_file
  have "\<exists>w2. CachedDownload (test_env file_server) ''https://drive.google.com/uc?id=A1'' [] [] True None
       default_options ?w1 = Some (Inr ''/home/u/.cache/gdown/https-COLON--SLASH--SLASH-drive.google.com-SLASH-uc-QUESTION-id-EQUAL-A1'', w2) \<and> sent w2 = sent ?w1"
    by (simp add: test_cache_path)
  then obtain w2 where "CachedDownload (test_env file_server) ''https://drive.google.com/uc?id=A1'' [] [] True None
       default_options ?w1 = Some (Inr ''/home/u/.cache/gdown/https-COLON--SLASH--SLASH-drive.google.com-SLASH-uc-QUESTION-id-EQUAL-A1'', w2)" "sent w2 = [\<lparr>rq_Method = ''GET'', rq_URL = ''https://drive.google.com/uc?id=A1'', rq_Header = [(''User-Agent'', ''Mozilla/5.0 (compatible; gdown-go)'')]\<rparr>]" by auto
  with first_run_no_hash show ?thesis by (intro exI[of _ ?w1] exI[of _ w2]) simp
qed

lemma test_digest:
  "MD5Sum (test_env file_server) renamed_fs ''/home/u/.cache/gdown/https-COLON--SLASH--SLASH-drive.google.com-SLASH-uc-QUESTION-id-EQUAL-A1'' = Inr ''00000000000000000000000000000000''"
proof -
  have "hex_EncodeToString (replicate 16 (CHR 0x00)) = ''00000000000000000000000000000000''"
    by code_simp
  then show ?thesis
    by (simp add: MD5Sum_def test_env_fields mem_ReadFile_def renamed_fs_def)
qed

theorem hash_verification_witness:
  "assertFileHash (test_env file_server) Map.empty ''x'' ''abc'' True
     = (False, Some (ErrInvalidHashFormat ''abc'')) \<and>
   assertFileHash (test_env file_server) Map.empty ''x'' ''sha1:abc'' True
     = (False, Some (ErrUnsupportedHashAlgorithm ''sha1'')) \<and>
   assertFileHash (test_env file_server) renamed_fs ''/home/u/.cache/gdown/https-COLON--SLASH--SLASH-drive.google.com-SLASH-uc-QUESTION-id-EQUAL-A1'' ''md5:abc'' True
     = (False, Some (ErrHashMismatch ''00000000000000000000000000000000'' ''abc'')) \<and>
   (\<exists>w. CachedDownload (test_env file_server) ''https://drive.google.com/uc?id=A1'' []
          ''md5:abc'' True None default_options empty_world
        = Some (Inl (ErrHashMismatchForFile ''/home/u/.cache/gdown/https-COLON--SLASH--SLASH-drive.google.com-SLASH-uc-QUESTION-id-EQUAL-A1''), w))"
proof -
  let ?E = "test_env file_server"
  let ?w2 = "\<lparr>fsys = [''/home/u/.cache/gdown'' \<mapsto> FDir, ''/home/u/.cache/gdown/dl0'' \<mapsto> FDir,
                         ''/home/u/.cache/gdown/dl0/dl'' \<mapsto> FFile ''data''],
                sent = [\<lparr>rq_Method = ''GET'', rq_URL = ''https://drive.google.com/uc?id=A1'', rq_Header = [(''User-Agent'', ''Mozilla/5.0 (compatible; gdown-go)'')]\<rparr>]\<rparr>"
  note th = hash_verification[where E = ?E and h = "''abc''" and f = renamed_fs and name = "''/home/u/.cache/gdown/https-COLON--SLASH--SLASH-drive.google.com-SLASH-uc-QUESTION-id-EQUAL-A1''"
      and quiet = True and algo = "''sha1''" and digest = "''abc''"
      and actual = "''00000000000000000000000000000000''" and hash = "''md5:abc''"
      and ?w2.0 = ?w2 and dp = "''/home/u/.cache/gdown/dl0/dl''" and outputPath = "''/home/u/.cache/gdown/https-COLON--SLASH--SLASH-drive.google.com-SLASH-uc-QUESTION-id-EQUAL-A1''"
      and ?f3.0 = renamed_fs and pp = None]
  note th0 = hash_verification[where E = ?E and h = "''abc''" and f = Map.empty and name = "''x''"
      and quiet = True and algo = "''sha1''" and digest = "''abc''"]
  have c1: "CHR '':'' \<notin> set ''abc''" by simp
  have c2: "CHR '':'' \<notin> set ''sha1'' \<and> ''sha1'' \<noteq> ''md5''" by simp
  have c3: "''00000000000000000000000000000000'' \<noteq> ''abc''" by simp
  from th0 c1 have 1: "assertFileHash ?E Map.empty ''x'' ''abc'' True
     = (False, Some (ErrInvalidHashFormat ''abc''))" by blast
  from th0 c2 have "assertFileHash ?E Map.empty ''x'' (''sha1'' @ '':'' @ ''abc'') True
     = (False, Some (ErrUnsupportedHashAlgorithm ''sha1''))" by blast
  then have 2: "assertFileHash ?E Map.empty ''x'' ''sha1:abc'' True
     = (False, Some (ErrUnsupportedHashAlgorithm ''sha1''))" by simp
  from th test_digest c3 have "assertFileHash ?E renamed_fs ''/home/u/.cache/gdown/https-COLON--SLASH--SLASH-drive.google.com-SLASH-uc-QUESTION-id-EQUAL-A1'' (''md5:'' @ ''abc'') True
     = (False, Some (ErrHashMismatch ''00000000000000000000000000000000'' ''abc''))" by blast
  then have 3: "assertFileHash ?E renamed_fs ''/home/u/.cache/gdown/https-COLON--SLASH--SLASH-drive.google.com-SLASH-uc-QUESTION-id-EQUAL-A1'' ''md5:abc'' True
     = (False, Some (ErrHashMismatch ''00000000000000000000000000000000'' ''abc''))" by simp
  have rn: "os_Rename ?E (fsys ?w2) ''/home/u/.cache/gdown/dl0/dl'' ''/home/u/.cache/gdown/https-COLON--SLASH--SLASH-drive.google.com-SLASH-uc-QUESTION-id-EQUAL-A1'' = (None, renamed_fs)"
    by (simp add: test_env_fields mem_Rename_def renamed_fs_def)
  have c4: "''md5:abc'' \<noteq> []" by simp
  have c5: "assertFileHash ?E renamed_fs ''/home/u/.cache/gdown/https-COLON--SLASH--SLASH-drive.google.com-SLASH-uc-QUESTION-id-EQUAL-A1'' ''md5:abc'' True \<noteq> (True, None)"
    using 3 by simp
  from th rn c4 c5 have "cached_install ?E ''/home/u/.cache/gdown/dl0/dl'' ''/home/u/.cache/gdown/https-COLON--SLASH--SLASH-drive.google.com-SLASH-uc-QUESTION-id-EQUAL-A1'' ''md5:abc'' True None ?w2
      = (Inl (ErrHashMismatchForFile ''/home/u/.cache/gdown/https-COLON--SLASH--SLASH-drive.google.com-SLASH-uc-QUESTION-id-EQUAL-A1''), ?w2\<lparr>fsys := renamed_fs\<rparr>)"
    by blast
  then have 4: "\<exists>w. CachedDownload ?E ''https://drive.google.com/uc?id=A1'' []
          ''md5:abc'' True None default_options empty_world
        = Some (Inl (ErrHashMismatchForFile ''/home/u/.cache/gdown/https-COLON--SLASH--SLASH-drive.google.com-SLASH-uc-QUESTION-id-EQUAL-A1''), w)"
    by (simp add: first_run remove_tmp_def)
  from 1 2 3 4 show ?thesis by blast
qed

text \<open>
  Claim C6 as stated fails on a hash whose digest is not hexadecimal: \<open>md5:zz\<close> is
  not of the form, and the error is the digest mismatch.  No digest function is
  needed to see it: the file's digest is printed in hexadecimal digits and \<open>z\<close> is
  none.
\<close>

lemma hex_digits_only: "list_all ishex (hex_EncodeToString bs)"
proof -
  have "ishex (''0123456789abcdef'' ! k)" if "k < 16" for k
  proof -
    have "\<forall>j\<in>set [0..<16]. ishex (''0123456789abcdef'' ! j)" by code_simp
    with that show ?thesis by simp
  qed
  moreover have "of_char b div 16 < (16::nat)" "of_char b mod 16 < (16::nat)" for b :: char
  proof -
    have "of_char b < (16 * 16::nat)" by simp
    then show "of_char b div 16 < (16::nat)" by (rule less_mult_imp_div_less)
    show "of_char b mod 16 < (16::nat)" by simp
  qed
  ultimately show ?thesis
    by (induction bs) (simp_all add: hex_EncodeToString_def)
qed

lemma malformed_digest_mismatch:
  "MD5Sum E f name = Inr actual \<Longrightarrow>
   assertFileHash E f name ''md5:zz'' quiet = (False, Some (ErrHashMismatch actual ''zz''))"
proof -
  assume a: "MD5Sum E f name = Inr actual"
  then obtain content where "actual = hex_EncodeToString (md5_Sum E content)"
    by (auto simp: MD5Sum_def split: sum.splits)
  with hex_digits_only[of "md5_Sum E content"] have "list_all ishex actual" by simp
  moreover have "\<not> list_all ishex ''zz''" by (simp add: ishex_def)
  ultimately have "actual \<noteq> ''zz''" by auto
  moreover have "split_hash ''md5:zz'' = Some (''md5'', ''zz'')" by (simp add: split_hash_def)
  ultimately show ?thesis using a by (simp add: assertFileHash_def)
qed

theorem hash_form_counterexample:
  "\<not> hash_form ''md5:zz'' \<and>
   assertFileHash (test_env file_server) renamed_fs ''/home/u/.cache/gdown/https-COLON--SLASH--SLASH-drive.google.com-SLASH-uc-QUESTION-id-EQUAL-A1'' ''md5:zz'' True =
     (False, Some (ErrHashMismatch ''00000000000000000000000000000000'' ''zz''))"
proof -
  have "\<not> hash_form ''md5:zz''"
    by (simp add: hash_form_def split_hash_def ishex_def)
  with malformed_digest_mismatch[OF test_digest, of True] show ?thesis by simp
qed

section \<open>Timing of the throttled writer\<close>

lemma tw_Write_speed_start:
  "tw_speed (fst (tw_Write tw n d now)) = tw_speed tw"
  "tw_start (fst (tw_Write tw n d now)) = tw_start tw"
  by (simp_all add: tw_Write_def Let_def)

lemma tw_Write_elapsed:
  "snd (tw_Write tw n d now) - tw_start tw \<ge>
     whole_quotient (tw_written (fst (tw_Write tw n d now))) (tw_speed tw) * Second"
  by (simp add: tw_Write_def Let_def)

text \<open>
  What the writer does guarantee, in the range where the integers of the model are
  those of the code: after the last write of a transfer the time since the start is
  at least the whole number of seconds in \<open>written / speed\<close>.
\<close>

lemma tw_transfer_whole_seconds:
  "ws \<noteq> [] \<Longrightarrow>
   snd (tw_transfer tw ws now) - tw_start tw \<ge>
     whole_quotient (tw_written (fst (tw_transfer tw ws now))) (tw_speed tw) * Second"
proof (induction ws arbitrary: tw now)
  case Nil
  then show ?case by simp
next
  case (Cons w ws)
  obtain n d where w: "w = (n, d)" by (cases w)
  obtain tw' now' where s: "tw_Write tw n d now = (tw', now')" by (cases "tw_Write tw n d now")
  have keep: "tw_speed tw' = tw_speed tw" "tw_start tw' = tw_start tw"
    using tw_Write_speed_start[of tw n d now] s by simp_all
  show ?case
  proof (cases "ws = []")
    case True
    with w s tw_Write_elapsed[of tw n d now] show ?thesis by simp
  next
    case False
    from Cons.IH[OF False, of tw' now'] keep w s show ?thesis by simp
  qed
qed

text \<open>
  Claim C9 at a transfer of 999 bytes at 1000 bytes per second, in one write that
  takes one millisecond: the expected time is cut down to 0 whole seconds, the writer
  does not sleep, and the transfer takes 1 000 000 ns, which is less than the
  999 000 000 ns that 999 bytes take at that rate.
\<close>

theorem throttled_transfer_below_rate:
  "tw_transfer (NewThrottledWriter 1000 0) [(999, 1000000)] 0 =
     (\<lparr>tw_speed = 1000, tw_start = 0, tw_written = 999\<rparr>, 1000000) \<and>
   (snd (tw_transfer (NewThrottledWriter 1000 0) [(999, 1000000)] 0)
      - tw_start (fst (tw_transfer (NewThrottledWriter 1000 0) [(999, 1000000)] 0)))
     * tw_speed (fst (tw_transfer (NewThrottledWriter 1000 0) [(999, 1000000)] 0))
   < tw_written (fst (tw_transfer (NewThrottledWriter 1000 0) [(999, 1000000)] 0)) * Second"
  by (simp add: NewThrottledWriter_def tw_Write_def whole_quotient_def Second_def Let_def)

section \<open>Properties of folder resolution\<close>

text \<open>The log of requests only grows.\<close>

lemma strings_Contains_char: "strings_Contains s [c] \<longleftrightarrow> c \<in> set s"
  by (induction s) (auto simp: strings_Contains_def sublist_Cons_right)

lemma fetch_folder_page_sent:
  "fetch_folder_page E client urlStr w = (r, w1) \<Longrightarrow> prefix (sent w) (sent w1)"
  by (auto simp: fetch_folder_page_def Let_def client_Do_def
      split: sum.splits prod.splits if_splits)

lemma fetch_folder_page_request:
  assumes "url_Parse E (urlStr @ hint) = Inr u'"
    and "IsGoogleDriveUrl E urlStr"
    and "hint = (if CHR ''?'' \<in> set urlStr then ''&hl=en'' else ''?hl=en'')"
    and "fetch_folder_page E client urlStr w = (r, w1)"
  shows "sent w1 = sent w @ [\<lparr>rq_Method = ''GET'', rq_URL = urlStr @ hint, rq_Header = []\<rparr>]"
  using assms
  by (auto simp: fetch_folder_page_def Let_def client_Do_def http_NewRequest_def
      strings_Contains_char split: sum.splits prod.splits if_splits)

lemma folder_sent_mono:
  "(\<forall>urlStr rok w r w'.
      downloadAndParseGoogleDriveLink fuel E client urlStr quiet rok verify w = Some (r, w') \<longrightarrow>
      prefix (sent w) (sent w')) \<and>
   (\<forall>children rok acc w r w'.
      resolve_children fuel E client quiet rok verify children acc w = Some (r, w') \<longrightarrow>
      prefix (sent w) (sent w'))"
proof (induction fuel)
  case 0
  have "resolve_children 0 E client quiet rok verify children acc w = Some (r, w') \<Longrightarrow>
      prefix (sent w) (sent w')" for children rok acc w r w'
  proof (induction children arbitrary: acc w)
    case Nil
    then show ?case by simp
  next
    case (Cons child rest)
    then show ?case
      by (cases "ch_Type child \<noteq> folder_type")
        (simp_all add: Let_def del: downloadAndParseGoogleDriveLink.simps(2))
  qed
  then show ?case by simp
next
  case (Suc fuel)
  then have IHd: "\<And>urlStr rok w r w'.
      downloadAndParseGoogleDriveLink fuel E client urlStr quiet rok verify w = Some (r, w') \<Longrightarrow>
      prefix (sent w) (sent w')"
    and IHc: "\<And>children rok acc w r w'.
      resolve_children fuel E client quiet rok verify children acc w = Some (r, w') \<Longrightarrow>
      prefix (sent w) (sent w')"
    by blast+
  have P: "prefix (sent w) (sent w')"
    if a: "downloadAndParseGoogleDriveLink (Suc fuel) E client urlStr quiet rok verify w = Some (r, w')"
    for urlStr rok w r w'
  proof (cases "fetch_folder_page E client urlStr w")
    case (Pair res w1)
    note p1 = fetch_folder_page_sent[OF Pair]
    show ?thesis
    proof (cases res)
      case (Inl e)
      with Pair a p1 show ?thesis by simp
    next
      case (Inr gc)
      obtain gfile children where gc: "gc = (gfile, children)" by (cases gc)
      show ?thesis
      proof (cases "resolve_children fuel E client quiet rok verify children [] w1")
        case None
        with Pair Inr gc a show ?thesis by simp
      next
        case (Some x)
        obtain r2 w2 where x: "x = (r2, w2)" by (cases x)
        from IHc[OF Some[unfolded x]] have p2: "prefix (sent w1) (sent w2)" .
        from Some x Pair Inr gc a have "w' = w2"
          by (cases r2) (auto split: if_splits)
        with p1 p2 show ?thesis by (auto intro: prefix_order.trans)
      qed
    qed
  qed
  have Q: "prefix (sent w) (sent w')"
    if "resolve_children (Suc fuel) E client quiet rok verify children acc w = Some (r, w')"
    for children rok acc w r w'
    using that
  proof (induction children arbitrary: acc w)
    case Nil
    then show ?case by simp
  next
    case (Cons child rest)
    show ?case
    proof (cases "ch_Type child \<noteq> folder_type")
      case True
      with Cons show ?thesis by simp
    next
      case False
      let ?u = "''https://drive.google.com/drive/folders/'' @ ch_ID child"
      show ?thesis
      proof (cases "downloadAndParseGoogleDriveLink (Suc fuel) E client ?u quiet rok verify w")
        case None
        with Cons.prems False show ?thesis
          by (simp add: Let_def del: downloadAndParseGoogleDriveLink.simps)
      next
        case (Some y)
        obtain res w1 where y: "y = (res, w1)" by (cases y)
        from P[OF Some[unfolded y]] have p1: "prefix (sent w) (sent w1)" .
        show ?thesis
        proof (cases res)
          case (Inl e)
          with Cons.prems False Some y p1 show ?thesis
            by (simp add: Let_def del: downloadAndParseGoogleDriveLink.simps)
        next
          case (Inr subFolder)
          with Cons.prems False Some y
          have "resolve_children (Suc fuel) E client quiet rok verify rest (acc @ [subFolder]) w1
                  = Some (r, w')"
            by (simp add: Let_def del: downloadAndParseGoogleDriveLink.simps)
          from Cons.IH[OF this] p1 show ?thesis by (auto intro: prefix_order.trans)
        qed
      qed
    qed
  qed
  from P Q show ?case by blast
qed

lemma folder_first_request:
  assumes "url_Parse E (urlStr @ hint) = Inr u'"
    and "IsGoogleDriveUrl E urlStr"
    and "hint = (if CHR ''?'' \<in> set urlStr then ''&hl=en'' else ''?hl=en'')"
    and a: "downloadAndParseGoogleDriveLink fuel E client urlStr quiet rok verify w = Some (r, w')"
  shows "prefix (sent w @ [\<lparr>rq_Method = ''GET'', rq_URL = urlStr @ hint, rq_Header = []\<rparr>])
           (sent w')"
proof (cases fuel)
  case 0
  with a show ?thesis by simp
next
  case (Suc n)
  obtain res w1 where f: "fetch_folder_page E client urlStr w = (res, w1)"
    by (cases "fetch_folder_page E client urlStr w")
  from fetch_folder_page_request[OF assms(1-3) f]
  have s1: "sent w1 = sent w @ [\<lparr>rq_Method = ''GET'', rq_URL = urlStr @ hint, rq_Header = []\<rparr>]" .
  show ?thesis
  proof (cases res)
    case (Inl e)
    with a f Suc s1 show ?thesis by simp
  next
    case (Inr gc)
    obtain gfile children where gc: "gc = (gfile, children)" by (cases gc)
    show ?thesis
    proof (cases "resolve_children n E client quiet rok verify children [] w1")
      case None
      with a f Suc Inr gc show ?thesis by simp
    next
      case (Some x)
      obtain r2 w2 where x: "x = (r2, w2)" by (cases x)
      from folder_sent_mono[of n E client quiet verify] Some x
      have p2: "prefix (sent w1) (sent w2)" by blast
      from Some x f Inr gc a Suc have "w' = w2"
        by (cases r2) (auto split: if_splits)
      with p2 s1 show ?thesis by simp
    qed
  qed
qed

text \<open>The same for a download.\<close>

lemma Download_finish_sent:
  "Download_finish E opts urlStr dest resp w = (r, w') \<Longrightarrow> sent w' = sent w"
  by (auto simp: Download_finish_def split: if_splits sum.splits prod.splits option.splits)

lemma Download_loop_sent:
  assumes ret: "Download_loop E client opts origUrl urlStr dest w = Some y"
  shows "prefix (sent w) (sent (snd y))"
proof (rule Download_loop.raw_induct[where P = "\<lambda>E client opts origUrl urlStr dest w y.
   prefix (sent w) (sent (snd y))", OF _ ret])
  fix loop :: "'a env \<Rightarrow> http_client \<Rightarrow> DownloadOptions \<Rightarrow> string \<Rightarrow> string \<Rightarrow> string \<Rightarrow> 'a world
     \<Rightarrow> ((error + string) \<times> 'a world) option"
  fix E client opts origUrl urlStr out w y
  assume IH: "\<And>E client opts origUrl urlStr out w y.
     loop E client opts origUrl urlStr out w = Some y \<Longrightarrow> prefix (sent w) (sent (snd y))"
  assume step: "(case download_request E opts urlStr out (fsys w) of
        Inl e \<Rightarrow> Some (Inl e, w)
      | Inr req \<Rightarrow>
          (case client_Do E client req w of
             (Inl e, w1) \<Rightarrow> Some (Inl e, w1)
           | (Inr resp, w1) \<Rightarrow>
               (let ct = Header_Get resp ''Content-Type''
                in if strings_HasPrefix ct ''text/html'' then
                     (case io_ReadAll resp of
                        Inl e \<Rightarrow> Some (Inl e, w1)
                      | Inr bodyBytes \<Rightarrow>
                          (case getUrlFromGDriveConfirmation bodyBytes of
                             Inl e \<Rightarrow> Some (Inl e, w1)
                           | Inr newUrl \<Rightarrow>
                               if origUrl = newUrl then Some (Inr out, w1)
                               else loop E client opts origUrl newUrl out w1))
                   else Some (Download_finish E opts urlStr out resp w1)))) = Some y"
  show "prefix (sent w) (sent (snd y))"
  proof (cases "download_request E opts urlStr out (fsys w)")
    case (Inl e)
    with step show ?thesis by auto
  next
    case (Inr req)
    let ?w1 = "w\<lparr>sent := sent w @ [req]\<rparr>"
    have p1: "prefix (sent w) (sent ?w1)" by simp
    show ?thesis
    proof (cases "http_Do E client (sent w) req")
      case (Inl e)
      with step Inr show ?thesis by (auto simp: client_Do_def)
    next
      case resp: (Inr resp)
      show ?thesis
      proof (cases "strings_HasPrefix (Header_Get resp ''Content-Type'') ''text/html''")
        case False
        with step Inr resp
        have "Download_finish E opts urlStr out resp ?w1 = y" by (simp add: client_Do_def)
        then have "sent (snd y) = sent ?w1"
          using Download_finish_sent[of E opts urlStr out resp ?w1 "fst y" "snd y"] by simp
        then show ?thesis by simp
      next
        case True
        show ?thesis
        proof (cases "io_ReadAll resp")
          case (Inl e)
          with step Inr resp True show ?thesis by (auto simp: client_Do_def)
        next
          case body: (Inr bodyBytes)
          show ?thesis
          proof (cases "getUrlFromGDriveConfirmation bodyBytes")
            case (Inl e)
            with step Inr resp True body show ?thesis by (auto simp: client_Do_def)
          next
            case new: (Inr newUrl)
            show ?thesis
            proof (cases "origUrl = newUrl")
              case True
              with step Inr resp \<open>strings_HasPrefix _ _\<close> body new show ?thesis
                by (auto simp: client_Do_def)
            next
              case False
              with step Inr resp \<open>strings_HasPrefix _ _\<close> body new
              have "loop E client opts origUrl newUrl out ?w1 = Some y"
                by (simp add: client_Do_def)
              from IH[OF this] show ?thesis by (auto dest: append_prefixD)
            qed
          qed
        qed
      qed
    qed
  qed
qed

lemma Download_sent:
  "Download E urlStr dest opts w = Some (r, w') \<Longrightarrow> prefix (sent w) (sent w')"
  using Download_loop_sent[of E _ _ urlStr urlStr dest w "(r, w')"]
  by (auto simp: Download_def Let_def split: sum.splits if_splits)

lemma download_files_sent:
  "download_files E opts rootDir fs acc0 w = Some (r, w') \<Longrightarrow> prefix (sent w) (sent w')"
proof (induction fs arbitrary: "acc0" w)
  case Nil
  then show ?case by simp
next
  case (Cons f fs)
  let ?lp = "filepath_Join [rootDir, fd_Path f]"
  show ?case
  proof (cases "fd_ID f = []")
    case True
    with Cons.prems
    have "download_files E opts rootDir fs acc0
            (w\<lparr>fsys := snd (os_MkdirAll E (fsys w) ?lp)\<rparr>) = Some (r, w')"
      by (simp add: Let_def del: filepath_Join.simps)
    from Cons.IH[OF this] show ?thesis by simp
  next
    case False
    show ?thesis
    proof (cases "Resume opts \<and> fileExists E (fsys w) ?lp")
      case True
      with Cons.prems False
      have "download_files E opts rootDir fs (acc0 @ [?lp]) w = Some (r, w')"
        by (simp add: Let_def del: filepath_Join.simps)
      from Cons.IH[OF this] show ?thesis .
    next
      case nr: False
      show ?thesis
      proof (cases "Download E (''https://drive.google.com/uc?id='' @ fd_ID f) ?lp opts w")
        case None
        with Cons.prems False nr show ?thesis by (simp add: Let_def del: filepath_Join.simps)
      next
        case (Some y)
        obtain res w1 where y: "y = (res, w1)" by (cases y)
        from Download_sent[OF Some[unfolded y]] have p1: "prefix (sent w) (sent w1)" .
        show ?thesis
        proof (cases res)
          case (Inl e)
          with Cons.prems False nr Some y p1 show ?thesis
            by (simp add: Let_def del: filepath_Join.simps)
        next
          case (Inr downloaded)
          with Cons.prems False nr Some y
          have "download_files E opts rootDir fs (acc0 @ [downloaded]) w1 = Some (r, w')"
            by (simp add: Let_def del: filepath_Join.simps)
          from Cons.IH[OF this] p1 show ?thesis by (auto intro: prefix_order.trans)
        qed
      qed
    qed
  qed
qed

lemma folder_prefix_no_query:
  "CHR ''?'' \<in> set (''https://drive.google.com/drive/folders/'' @ ident) \<longleftrightarrow> CHR ''?'' \<in> set ident"
  by simp

lemma folder_fetch_error:
  assumes "url_Parse E (''https://drive.google.com/drive/folders/'' @ ident) = Inr u"
    and "Hostname u = ''drive.google.com''"
    and "url_Parse E (rq_URL (folder_request ident)) = Inr u'"
    and "http_Do E client (sent w) (folder_request ident) = Inl e"
  shows "fetch_folder_page E client (''https://drive.google.com/drive/folders/'' @ ident) w =
           (Inl e, w\<lparr>sent := sent w @ [folder_request ident]\<rparr>)"
proof -
  have g: "IsGoogleDriveUrl E (''https://drive.google.com/drive/folders/'' @ ident)"
    using assms(1,2) by (simp add: IsGoogleDriveUrl_def)
  have c: "strings_Contains (''https://drive.google.com/drive/folders/'' @ ident) ''?''
             \<longleftrightarrow> CHR ''?'' \<in> set ident"
    by (simp only: strings_Contains_char folder_prefix_no_query)
  show ?thesis
  proof (cases "CHR ''?'' \<in> set ident")
    case True
    with assms(3,4) g c show ?thesis
      by (simp add: fetch_folder_page_def http_NewRequest_def client_Do_def folder_request_def)
  next
    case False
    with assms(3,4) g c show ?thesis
      by (simp add: fetch_folder_page_def http_NewRequest_def client_Do_def folder_request_def)
  qed
qed

text \<open>
  Claim C10.  When the URL and the identifier are both empty or both given,
  \<open>ListFolder\<close> and \<open>DownloadFolder\<close> return the error with the world as it was: no
  request is sent and the filesystem is not touched.  When the identifier alone is
  given, each behaves as it does on the URL made of the folder prefix and the
  identifier, and that URL is the one asked for.  Let the URL parse (with and without
  the language hint, the host being the provider's) and the client be built.  If the
  request for the folder page fails, each function returns that error after this one
  request; and whenever a function returns, the log of requests it leaves begins with
  the log it found followed by the request for the folder page.
\<close>

theorem folder_arguments:
  "((ident = [] \<and> urlStr = []) \<or> (ident \<noteq> [] \<and> urlStr \<noteq> []) \<longrightarrow>
      ListFolder fuel E urlStr ident opts w = Some (Inl ErrEitherUrlOrId, w) \<and>
      DownloadFolder fuel E urlStr ident dest opts w = Some (Inl ErrEitherUrlOrId, w)) \<and>
   (ident \<noteq> [] \<longrightarrow>
      ListFolder fuel E [] ident opts w =
        ListFolder fuel E (''https://drive.google.com/drive/folders/'' @ ident) [] opts w \<and>
      DownloadFolder fuel E [] ident dest opts w =
        DownloadFolder fuel E (''https://drive.google.com/drive/folders/'' @ ident) [] dest opts w) \<and>
   (ident \<noteq> [] \<and>
    url_Parse E (''https://drive.google.com/drive/folders/'' @ ident) = Inr u \<and>
    Hostname u = ''drive.google.com'' \<and>
    url_Parse E (rq_URL (folder_request ident)) = Inr u' \<and>
    newHTTPClient E (with_default_agent opts) = Inr client \<longrightarrow>
      (http_Do E client (sent w) (folder_request ident) = Inl e \<longrightarrow>
         ListFolder (Suc fuel) E [] ident opts w =
           Some (Inl e, w\<lparr>sent := sent w @ [folder_request ident]\<rparr>) \<and>
         DownloadFolder (Suc fuel) E [] ident dest opts w =
           Some (Inl e, w\<lparr>sent := sent w @ [folder_request ident]\<rparr>)) \<and>
      (ListFolder fuel E [] ident opts w = Some (r, w') \<longrightarrow>
         prefix (sent w @ [folder_request ident]) (sent w')) \<and>
      (DownloadFolder fuel E [] ident dest opts w = Some (r', w'') \<longrightarrow>
         prefix (sent w @ [folder_request ident]) (sent w'')))"
proof (intro conjI impI)
  assume bad: "(ident = [] \<and> urlStr = []) \<or> (ident \<noteq> [] \<and> urlStr \<noteq> [])"
  then show "ListFolder fuel E urlStr ident opts w = Some (Inl ErrEitherUrlOrId, w)"
    unfolding ListFolder_def by (simp only: if_True)
  from bad show "DownloadFolder fuel E urlStr ident dest opts w = Some (Inl ErrEitherUrlOrId, w)"
    unfolding DownloadFolder_def by (simp only: if_True)
next
  assume "ident \<noteq> []"
  then show "ListFolder fuel E [] ident opts w =
        ListFolder fuel E (''https://drive.google.com/drive/folders/'' @ ident) [] opts w"
    unfolding ListFolder_def by simp
next
  assume "ident \<noteq> []"
  then show "DownloadFolder fuel E [] ident dest opts w =
        DownloadFolder fuel E (''https://drive.google.com/drive/folders/'' @ ident) [] dest opts w"
    unfolding DownloadFolder_def by simp
next
  let ?url = "''https://drive.google.com/drive/folders/'' @ ident"
  let ?opts = "with_default_agent opts"
  assume h: "ident \<noteq> [] \<and> url_Parse E ?url = Inr u \<and> Hostname u = ''drive.google.com'' \<and>
    url_Parse E (rq_URL (folder_request ident)) = Inr u' \<and>
    newHTTPClient E ?opts = Inr client"
  then have id: "ident \<noteq> []" and p: "url_Parse E ?url = Inr u" "Hostname u = ''drive.google.com''"
    and p': "url_Parse E (rq_URL (folder_request ident)) = Inr u'"
    and cl: "newHTTPClient E ?opts = Inr client" by simp_all
  have g: "IsGoogleDriveUrl E ?url" using p by (simp add: IsGoogleDriveUrl_def)
  have rq: "folder_request ident =
      \<lparr>rq_Method = ''GET'',
       rq_URL = ?url @ (if CHR ''?'' \<in> set ?url then ''&hl=en'' else ''?hl=en''),
       rq_Header = []\<rparr>"
    by (simp add: folder_request_def)
  have p2: "url_Parse E (?url @ (if CHR ''?'' \<in> set ?url then ''&hl=en'' else ''?hl=en'')) = Inr u'"
    using p' by (simp add: folder_request_def)
  have first: "prefix (sent w @ [folder_request ident]) (sent w1)"
    if "downloadAndParseGoogleDriveLink fuel E client ?url (Quiet ?opts) (RemainingOk ?opts)
          (Verify ?opts) w = Some (x, w1)" for x w1
    using folder_first_request[OF p2 g refl that] unfolding rq .
  {
    assume e: "http_Do E client (sent w) (folder_request ident) = Inl e"
    from folder_fetch_error[OF p p' e]
    have f: "downloadAndParseGoogleDriveLink (Suc fuel) E client ?url (Quiet ?opts)
               (RemainingOk ?opts) (Verify ?opts) w =
             Some (Inl e, w\<lparr>sent := sent w @ [folder_request ident]\<rparr>)"
      by simp
    show "ListFolder (Suc fuel) E [] ident opts w =
           Some (Inl e, w\<lparr>sent := sent w @ [folder_request ident]\<rparr>)"
      unfolding ListFolder_def using id cl f
      by (simp add: Let_def del: downloadAndParseGoogleDriveLink.simps)
    show "DownloadFolder (Suc fuel) E [] ident dest opts w =
           Some (Inl e, w\<lparr>sent := sent w @ [folder_request ident]\<rparr>)"
      unfolding DownloadFolder_def using id cl f
      by (simp add: Let_def del: downloadAndParseGoogleDriveLink.simps)
  }
  {
    assume a: "ListFolder fuel E [] ident opts w = Some (r, w')"
    then obtain x where
      "downloadAndParseGoogleDriveLink fuel E client ?url (Quiet ?opts) (RemainingOk ?opts)
          (Verify ?opts) w = Some (x, w')"
      unfolding ListFolder_def using id cl
      by (auto simp: Let_def split: option.splits sum.splits prod.splits
          simp del: downloadAndParseGoogleDriveLink.simps)
    from first[OF this] show "prefix (sent w @ [folder_request ident]) (sent w')" .
  }
  {
    assume a: "DownloadFolder fuel E [] ident dest opts w = Some (r', w'')"
    let ?d = "downloadAndParseGoogleDriveLink fuel E client ?url (Quiet ?opts) (RemainingOk ?opts)
          (Verify ?opts) w"
    show "prefix (sent w @ [folder_request ident]) (sent w'')"
    proof (cases ?d)
      case None
      with a id cl show ?thesis
        unfolding DownloadFolder_def
        by (simp add: Let_def del: downloadAndParseGoogleDriveLink.simps)
    next
      case (Some y)
      obtain x w1 where y: "y = (x, w1)" by (cases y)
      note p1 = first[OF Some[unfolded y]]
      show ?thesis
      proof (cases x)
        case (Inl e)
        with a id cl Some y p1 show ?thesis
          unfolding DownloadFolder_def
          by (simp add: Let_def del: downloadAndParseGoogleDriveLink.simps)
      next
        case (Inr gfile)
        let ?out = "if dest = [] then os_Getwd E (fsys w1) @ [PathSeparator] else dest"
        let ?root = "if strings_HasSuffix ?out [PathSeparator]
                     then filepath_Join [?out, Name gfile] else ?out"
        let ?w2 = "w1\<lparr>fsys := snd (os_MkdirAll E (fsys w1) ?root)\<rparr>"
        from a id cl Some y Inr
        have df: "download_files E (DownloadOptions.truncate ?opts) ?root
                    (getDirectoryStructure gfile []) [] ?w2 = Some (r', w'')"
          unfolding DownloadFolder_def
          by (simp add: Let_def del: downloadAndParseGoogleDriveLink.simps filepath_Join.simps)
        from download_files_sent[OF df]
        have "prefix (sent w1) (sent w'')" by simp
        with p1 show ?thesis by (auto intro: prefix_order.trans)
      qed
    qed
  }
qed

lemma resolve_children_shape:
  "resolve_children fuel E client quiet rok verify children acc w = Some (Inr cs, w2) \<Longrightarrow>
   \<exists>new. cs = acc @ new \<and> length new = length children \<and>
     (\<forall>i<length children. ch_Type (children ! i) \<noteq> folder_type \<longrightarrow>
        new ! i = GoogleDriveFile (ch_ID (children ! i)) (ch_Name (children ! i))
                    (ch_Type (children ! i)) [])"
proof (induction children arbitrary: acc w)
  case Nil
  then show ?case by simp
next
  case (Cons child rest)
  show ?case
  proof (cases "ch_Type child \<noteq> folder_type")
    case True
    let ?leaf = "GoogleDriveFile (ch_ID child) (ch_Name child) (ch_Type child) []"
    from Cons.prems True
    have "resolve_children fuel E client quiet rok verify rest (acc @ [?leaf]) w = Some (Inr cs, w2)"
      by simp
    from Cons.IH[OF this] obtain new where n: "cs = (acc @ [?leaf]) @ new" "length new = length rest"
      "\<forall>i<length rest. ch_Type (rest ! i) \<noteq> folder_type \<longrightarrow>
        new ! i = GoogleDriveFile (ch_ID (rest ! i)) (ch_Name (rest ! i)) (ch_Type (rest ! i)) []"
      by blast
    have "\<forall>i<length (child # rest). ch_Type ((child # rest) ! i) \<noteq> folder_type \<longrightarrow>
        (?leaf # new) ! i = GoogleDriveFile (ch_ID ((child # rest) ! i)) (ch_Name ((child # rest) ! i))
                    (ch_Type ((child # rest) ! i)) []"
      using n(3) by (auto simp: nth_Cons split: nat.splits)
    with n(1,2) show ?thesis by (intro exI[of _ "?leaf # new"]) simp
  next
    case False
    let ?sub = "downloadAndParseGoogleDriveLink fuel E client
                  (''https://drive.google.com/drive/folders/'' @ ch_ID child) quiet rok verify w"
    from Cons.prems False obtain subFolder w1 where
      sub: "?sub = Some (Inr subFolder, w1)"
      and r: "resolve_children fuel E client quiet rok verify rest (acc @ [subFolder]) w1 = Some (Inr cs, w2)"
      by (auto simp: Let_def split: option.splits sum.splits prod.splits)
    from Cons.IH[OF r] obtain new where n: "cs = (acc @ [subFolder]) @ new" "length new = length rest"
      "\<forall>i<length rest. ch_Type (rest ! i) \<noteq> folder_type \<longrightarrow>
        new ! i = GoogleDriveFile (ch_ID (rest ! i)) (ch_Name (rest ! i)) (ch_Type (rest ! i)) []"
      by blast
    have "\<forall>i<length (child # rest). ch_Type ((child # rest) ! i) \<noteq> folder_type \<longrightarrow>
        (subFolder # new) ! i = GoogleDriveFile (ch_ID ((child # rest) ! i)) (ch_Name ((child # rest) ! i))
                    (ch_Type ((child # rest) ! i)) []"
      using n(3) False by (auto simp: nth_Cons split: nat.splits)
    with n(1,2) show ?thesis by (intro exI[of _ "subFolder # new"]) simp
  qed
qed

lemma resolve_step:
  "fetch_folder_page E client urlStr w = (Inr (gfile, children), w1) \<Longrightarrow>
   resolve_children fuel E client quiet rok verify children [] w1 = Some (Inr cs, w2) \<Longrightarrow>
   downloadAndParseGoogleDriveLink (Suc fuel) E client urlStr quiet rok verify w =
     (if length cs = MAX_NUMBER_FILES \<and> \<not> rok then Some (Inl ErrFolderTooLarge, w2)
      else Some (Inr (GoogleDriveFile (ID gfile) (Name gfile) (Type gfile) cs), w2))"
  by simp

lemma resolve_step_error:
  "fetch_folder_page E client urlStr w = (Inr (gfile, children), w1) \<Longrightarrow>
   resolve_children fuel E client quiet rok verify children [] w1 = Some (Inl e, w2) \<Longrightarrow>
   downloadAndParseGoogleDriveLink (Suc fuel) E client urlStr quiet rok verify w = Some (Inl e, w2)"
  by simp

text \<open>
  A resolution that succeeds with large folders allowed either succeeds in the same
  way without the permission or stops at a folder that is too large.
\<close>

lemma without_permission:
  "(\<forall>urlStr w g w'.
      downloadAndParseGoogleDriveLink fuel E client urlStr quiet True verify w = Some (Inr g, w') \<longrightarrow>
      downloadAndParseGoogleDriveLink fuel E client urlStr quiet False verify w = Some (Inr g, w') \<or>
      (\<exists>w''. downloadAndParseGoogleDriveLink fuel E client urlStr quiet False verify w
              = Some (Inl ErrFolderTooLarge, w''))) \<and>
   (\<forall>children acc w cs w'.
      resolve_children fuel E client quiet True verify children acc w = Some (Inr cs, w') \<longrightarrow>
      resolve_children fuel E client quiet False verify children acc w = Some (Inr cs, w') \<or>
      (\<exists>w''. resolve_children fuel E client quiet False verify children acc w
              = Some (Inl ErrFolderTooLarge, w'')))"
proof (induction fuel)
  case 0
  have "resolve_children 0 E client quiet True verify children acc w = Some (Inr cs, w') \<Longrightarrow>
      resolve_children 0 E client quiet False verify children acc w = Some (Inr cs, w')"
    for children acc w cs w'
  proof (induction children arbitrary: acc w)
    case Nil
    then show ?case by simp
  next
    case (Cons child rest)
    then show ?case by (cases "ch_Type child \<noteq> folder_type") (simp_all add: Let_def)
  qed
  then show ?case by auto
next
  case (Suc fuel)
  then have IHc: "\<And>children acc w cs w'.
      resolve_children fuel E client quiet True verify children acc w = Some (Inr cs, w') \<Longrightarrow>
      resolve_children fuel E client quiet False verify children acc w = Some (Inr cs, w') \<or>
      (\<exists>w''. resolve_children fuel E client quiet False verify children acc w
              = Some (Inl ErrFolderTooLarge, w''))"
    by blast
  have P: "downloadAndParseGoogleDriveLink (Suc fuel) E client urlStr quiet False verify w = Some (Inr g, w') \<or>
      (\<exists>w''. downloadAndParseGoogleDriveLink (Suc fuel) E client urlStr quiet False verify w
              = Some (Inl ErrFolderTooLarge, w''))"
    if a: "downloadAndParseGoogleDriveLink (Suc fuel) E client urlStr quiet True verify w = Some (Inr g, w')"
    for urlStr w g w'
  proof -
    from a obtain gfile children w1 cs where
      f: "fetch_folder_page E client urlStr w = (Inr (gfile, children), w1)"
      and rc: "resolve_children fuel E client quiet True verify children [] w1 = Some (Inr cs, w')"
      and g: "g = GoogleDriveFile (ID gfile) (Name gfile) (Type gfile) cs"
      by (auto split: prod.splits sum.splits option.splits if_splits)
    from IHc[OF rc] show ?thesis
    proof
      assume "resolve_children fuel E client quiet False verify children [] w1 = Some (Inr cs, w')"
      from resolve_step[OF f this] g show ?thesis by (cases "length cs = MAX_NUMBER_FILES") auto
    next
      assume "\<exists>w''. resolve_children fuel E client quiet False verify children [] w1
              = Some (Inl ErrFolderTooLarge, w'')"
      then obtain w'' where "resolve_children fuel E client quiet False verify children [] w1
              = Some (Inl ErrFolderTooLarge, w'')" by blast
      from resolve_step_error[OF f this] show ?thesis by blast
    qed
  qed
  have Q: "resolve_children (Suc fuel) E client quiet False verify children acc w = Some (Inr cs, w') \<or>
      (\<exists>w''. resolve_children (Suc fuel) E client quiet False verify children acc w
              = Some (Inl ErrFolderTooLarge, w''))"
    if "resolve_children (Suc fuel) E client quiet True verify children acc w = Some (Inr cs, w')"
    for children acc w cs w'
    using that
  proof (induction children arbitrary: acc w)
    case Nil
    then show ?case by simp
  next
    case (Cons child rest)
    show ?case
    proof (cases "ch_Type child \<noteq> folder_type")
      case True
      with Cons.prems have "resolve_children (Suc fuel) E client quiet True verify rest
          (acc @ [GoogleDriveFile (ch_ID child) (ch_Name child) (ch_Type child) []]) w = Some (Inr cs, w')"
        by simp
      from Cons.IH[OF this] True show ?thesis by simp
    next
      case False
      let ?u = "''https://drive.google.com/drive/folders/'' @ ch_ID child"
      from Cons.prems False obtain subFolder w1 where
        sub: "downloadAndParseGoogleDriveLink (Suc fuel) E client ?u quiet True verify w
                = Some (Inr subFolder, w1)"
        and r: "resolve_children (Suc fuel) E client quiet True verify rest (acc @ [subFolder]) w1
                = Some (Inr cs, w')"
        by (auto simp: Let_def split: option.splits sum.splits prod.splits simp del: downloadAndParseGoogleDriveLink.simps)
      have eqF: "resolve_children (Suc fuel) E client quiet False verify (child # rest) acc w =
        (case downloadAndParseGoogleDriveLink (Suc fuel) E client ?u quiet False verify w of
              None \<Rightarrow> None
            | Some (Inl e, w1) \<Rightarrow> Some (Inl e, w1)
            | Some (Inr subFolder, w1) \<Rightarrow>
                resolve_children (Suc fuel) E client quiet False verify rest (acc @ [subFolder]) w1)"
        using False by (simp add: Let_def del: downloadAndParseGoogleDriveLink.simps)
      from P[OF sub] show ?thesis
      proof
        assume "downloadAndParseGoogleDriveLink (Suc fuel) E client ?u quiet False verify w
                  = Some (Inr subFolder, w1)"
        then have "resolve_children (Suc fuel) E client quiet False verify (child # rest) acc w =
           resolve_children (Suc fuel) E client quiet False verify rest (acc @ [subFolder]) w1"
          by (simp only: eqF option.case sum.case prod.case)
        with Cons.IH[OF r] show ?thesis by simp
      next
        assume "\<exists>w''. downloadAndParseGoogleDriveLink (Suc fuel) E client ?u quiet False verify w
              = Some (Inl ErrFolderTooLarge, w'')"
        then obtain w'' where "downloadAndParseGoogleDriveLink (Suc fuel) E client ?u quiet False verify w
              = Some (Inl ErrFolderTooLarge, w'')" by blast
        then have "resolve_children (Suc fuel) E client quiet False verify (child # rest) acc w =
           Some (Inl ErrFolderTooLarge, w'')"
          by (simp only: eqF option.case sum.case prod.case)
        then show ?thesis by blast
      qed
    qed
  qed
  from P Q show ?case by blast
qed

text \<open>
  Claim C4.  Take a folder page with exactly \<open>MAX_NUMBER_FILES\<close> (fifty) rows whose
  children resolve when large folders are allowed.  Without the permission the
  resolution of the folder fails with the too-large error; with it the resolution
  succeeds, the node has fifty children, and each child that is not a folder is
  the leaf of its row.
\<close>

theorem folder_size_limit:
  "fetch_folder_page E client urlStr w = (Inr (gfile, children), w1) \<and>
   length children = MAX_NUMBER_FILES \<and>
   resolve_children fuel E client quiet True verify children [] w1 = Some (Inr cs, w2)
   \<longrightarrow>
   (\<exists>w'. downloadAndParseGoogleDriveLink (Suc fuel) E client urlStr quiet False verify w
           = Some (Inl ErrFolderTooLarge, w')) \<and>
   downloadAndParseGoogleDriveLink (Suc fuel) E client urlStr quiet True verify w
     = Some (Inr (GoogleDriveFile (ID gfile) (Name gfile) (Type gfile) cs), w2) \<and>
   length cs = 50 \<and>
   (\<forall>i<50. ch_Type (children ! i) \<noteq> folder_type \<longrightarrow>
      cs ! i = GoogleDriveFile (ch_ID (children ! i)) (ch_Name (children ! i))
                 (ch_Type (children ! i)) [])"
proof (intro impI)
  assume a: "fetch_folder_page E client urlStr w = (Inr (gfile, children), w1) \<and>
   length children = MAX_NUMBER_FILES \<and>
   resolve_children fuel E client quiet True verify children [] w1 = Some (Inr cs, w2)"
  then have f: "fetch_folder_page E client urlStr w = (Inr (gfile, children), w1)"
    and n: "length children = MAX_NUMBER_FILES"
    and rc: "resolve_children fuel E client quiet True verify children [] w1 = Some (Inr cs, w2)"
    by simp_all
  from resolve_children_shape[OF rc] n
  have len: "length cs = 50"
    and leaves: "\<forall>i<50. ch_Type (children ! i) \<noteq> folder_type \<longrightarrow>
      cs ! i = GoogleDriveFile (ch_ID (children ! i)) (ch_Name (children ! i))
                 (ch_Type (children ! i)) []"
    by (auto simp: MAX_NUMBER_FILES_def)
  have ok: "downloadAndParseGoogleDriveLink (Suc fuel) E client urlStr quiet True verify w
     = Some (Inr (GoogleDriveFile (ID gfile) (Name gfile) (Type gfile) cs), w2)"
    using resolve_step[OF f rc] by simp
  have bad: "\<exists>w'. downloadAndParseGoogleDriveLink (Suc fuel) E client urlStr quiet False verify w
           = Some (Inl ErrFolderTooLarge, w')"
  proof -
    from without_permission[of fuel E client quiet verify] rc
    have "resolve_children fuel E client quiet False verify children [] w1 = Some (Inr cs, w2) \<or>
      (\<exists>w''. resolve_children fuel E client quiet False verify children [] w1
              = Some (Inl ErrFolderTooLarge, w''))"
      by blast
    then show ?thesis
    proof
      assume "resolve_children fuel E client quiet False verify children [] w1 = Some (Inr cs, w2)"
      from resolve_step[OF f this] len show ?thesis by (simp add: MAX_NUMBER_FILES_def)
    next
      assume "\<exists>w''. resolve_children fuel E client quiet False verify children [] w1
              = Some (Inl ErrFolderTooLarge, w'')"
      then obtain w'' where "resolve_children fuel E client quiet False verify children [] w1
              = Some (Inl ErrFolderTooLarge, w'')" by blast
      from resolve_step_error[OF f this] show ?thesis by blast
    qed
  qed
  from bad ok len leaves
  show "(\<exists>w'. downloadAndParseGoogleDriveLink (Suc fuel) E client urlStr quiet False verify w
           = Some (Inl ErrFolderTooLarge, w')) \<and>
   downloadAndParseGoogleDriveLink (Suc fuel) E client urlStr quiet True verify w
     = Some (Inr (GoogleDriveFile (ID gfile) (Name gfile) (Type gfile) cs), w2) \<and>
   length cs = 50 \<and>
   (\<forall>i<50. ch_Type (children ! i) \<noteq> folder_type \<longrightarrow>
      cs ! i = GoogleDriveFile (ch_ID (children ! i)) (ch_Name (children ! i))
                 (ch_Type (children ! i)) [])"
    by blast
qed

lemma manifest_rows: "rows_children (map manifest_row xs) = map manifest_child xs"
  by (induction xs) (simp_all add: manifest_row_def manifest_child_def as_string_def)

lemma manifest_resolve:
  "resolve_children fuel E client quiet rok verify (map manifest_child xs) acc w
     = Some (Inr (acc @ map manifest_leaf xs), w)"
  by (induction xs arbitrary: acc)
    (simp_all add: manifest_child_def manifest_leaf_def folder_type_def)

lemma folder_script_literals: "find_literals folder_script = [''token'', ''manifest'']"
  by (simp add: folder_script_def squote_def backslash_def)

lemma folder_script_marker: "strings_Contains folder_script ''_DRIVE_ivd''"
  by (simp add: strings_Contains_def folder_script_def sublist_Cons_right)

lemma folder_page_fetch:
  "fetch_folder_page (folder_env folder_server) default_client
     ''https://drive.google.com/drive/folders/F1'' empty_world =
   (Inr (GoogleDriveFile ''F1?hl=en'' ''Big folder'' folder_type [],
         map manifest_child [0..<50]),
    empty_world\<lparr>sent := [\<lparr>rq_Method = ''GET'',
                             rq_URL = ''https://drive.google.com/drive/folders/F1?hl=en'',
                             rq_Header = []\<rparr>]\<rparr>)"
proof -
  let ?E = "folder_env folder_server"
  have fields: "url_Parse ?E = test_Parse" "http_Do ?E = folder_server"
    "script_Htmls ?E = (\<lambda>page. [folder_script])"
    "title_Text ?E = (\<lambda>page. ''Big folder - Google Drive'')"
    "json_UnmarshalArray ?E = (\<lambda>s. Inr [JArray (map manifest_row [0..<50])])"
    "json_UnmarshalString ?E = Inr" "html_UnescapeString ?E = (\<lambda>s. s)"
    by (simp_all add: folder_env_def test_env_def)
  have g: "IsGoogleDriveUrl ?E ''https://drive.google.com/drive/folders/F1''"
    by (simp add: IsGoogleDriveUrl_def fields test_Parse_def test_urls_def)
  have q: "\<not> strings_Contains ''https://drive.google.com/drive/folders/F1'' ''?''"
    by (simp add: strings_Contains_def sublist_Cons_right)
  have enc: "find_encoded ?E [folder_script] = ''manifest''"
    by (simp add: fields folder_script_marker folder_script_literals)
  have sp: "strings_Split ''Big folder - Google Drive'' '' - '' = [''Big folder'', ''Google Drive'']"
    by simp
  have base: "path_Base ''https://drive.google.com/drive/folders/F1?hl=en'' = ''F1?hl=en''"
    by (simp add: path_Base_def)
  have parse: "parseGoogleDriveFile ?E ''https://drive.google.com/drive/folders/F1?hl=en''
                 ''<html>folder page</html>'' =
      Inr (GoogleDriveFile ''F1?hl=en'' ''Big folder'' folder_type [], map manifest_child [0..<50])"
    unfolding parseGoogleDriveFile_def
    by (simp add: fields enc decodeUnicodeEscapes_def sp base manifest_rows Let_def
        del: strings_Split.simps find_encoded.simps)
  have rq: "http_NewRequest ?E ''https://drive.google.com/drive/folders/F1?hl=en'' =
      Inr \<lparr>rq_Method = ''GET'', rq_URL = ''https://drive.google.com/drive/folders/F1?hl=en'',
           rq_Header = []\<rparr>"
    by (simp add: http_NewRequest_def fields test_Parse_def test_urls_def)
  show ?thesis
    unfolding fetch_folder_page_def
    using g q
    by (simp add: rq client_Do_def fields folder_server_def html_response_def io_ReadAll_def
        parse empty_world_def)
qed

theorem folder_size_limit_witness:
  "(\<exists>w'. downloadAndParseGoogleDriveLink (Suc 0) (folder_env folder_server) default_client
            ''https://drive.google.com/drive/folders/F1'' True False True empty_world
          = Some (Inl ErrFolderTooLarge, w')) \<and>
   downloadAndParseGoogleDriveLink (Suc 0) (folder_env folder_server) default_client
       ''https://drive.google.com/drive/folders/F1'' True True True empty_world
     = Some (Inr (GoogleDriveFile ''F1?hl=en'' ''Big folder'' folder_type
                    (map manifest_leaf [0..<50])),
             empty_world\<lparr>sent := [\<lparr>rq_Method = ''GET'',
                             rq_URL = ''https://drive.google.com/drive/folders/F1?hl=en'',
                             rq_Header = []\<rparr>]\<rparr>) \<and>
   length (map manifest_leaf [0..<50]) = 50"
proof -
  let ?w1 = "empty_world\<lparr>sent := [\<lparr>rq_Method = ''GET'',
                             rq_URL = ''https://drive.google.com/drive/folders/F1?hl=en'',
                             rq_Header = []\<rparr>]\<rparr>"
  have n: "length (map manifest_child [0..<50]) = MAX_NUMBER_FILES"
    by (simp add: MAX_NUMBER_FILES_def)
  have rc: "resolve_children 0 (folder_env folder_server) default_client True True True
              (map manifest_child [0..<50]) [] ?w1 = Some (Inr (map manifest_leaf [0..<50]), ?w1)"
    using manifest_resolve[of 0 "folder_env folder_server" default_client True True True
        "[0..<50]" "[]" ?w1] by simp
  from folder_size_limit[of "folder_env folder_server" default_client
      "''https://drive.google.com/drive/folders/F1''" empty_world
      "GoogleDriveFile ''F1?hl=en'' ''Big folder'' folder_type []" "map manifest_child [0..<50]"
      ?w1 0 True True "map manifest_leaf [0..<50]" ?w1]
    folder_page_fetch n rc
  show ?thesis by simp
qed

text \<open>
  The folder with two files: its page, its listing, and the download of its files
  into the directory \<^verbatim>\<open>out\<close>.
\<close>

lemma drive_fields:
  "url_Parse drive_env = drive_Parse" "http_Do drive_env = drive_server"
  "script_Htmls drive_env = (\<lambda>page. [folder_script])"
  "title_Text drive_env = (\<lambda>page. ''Big folder - Google Drive'')"
  "json_UnmarshalArray drive_env = (\<lambda>s. Inr [JArray (map manifest_row [0..<2])])"
  "json_UnmarshalString drive_env = Inr" "html_UnescapeString drive_env = (\<lambda>s. s)"
  "os_Stat drive_env = mem_Stat" "os_Create drive_env = mem_Create"
  "file_Write drive_env = mem_Write" "os_MkdirAll drive_env = mem_MkdirAll"
  by (simp_all add: drive_env_def folder_env_def test_env_def)

lemma drive_parse_folder:
  "drive_Parse ''https://drive.google.com/drive/folders/F1'' =
     Inr \<lparr>Hostname = ''drive.google.com'', Path = ''/drive/folders/F1'', Query = Map.empty\<rparr>"
  "drive_Parse ''https://drive.google.com/drive/folders/F1?hl=en'' =
     Inr \<lparr>Hostname = ''drive.google.com'', Path = ''/drive/folders/F1'',
          Query = [''hl'' \<mapsto> [''en'']]\<rparr>"
  by (simp_all add: drive_Parse_def drive_urls_def test_Parse_def test_urls_def)

lemma folder_request_F1:
  "folder_request ''F1'' =
     \<lparr>rq_Method = ''GET'', rq_URL = ''https://drive.google.com/drive/folders/F1?hl=en'',
      rq_Header = []\<rparr>"
  by (simp add: folder_request_def)

lemma drive_page_fetch:
  "fetch_folder_page drive_env client ''https://drive.google.com/drive/folders/F1'' w =
   (Inr (GoogleDriveFile ''F1?hl=en'' ''Big folder'' folder_type [], map manifest_child [0..<2]),
    w\<lparr>sent := sent w @ [folder_request ''F1'']\<rparr>)"
proof -
  let ?E = "drive_env"
  have g: "IsGoogleDriveUrl ?E ''https://drive.google.com/drive/folders/F1''"
    by (simp add: IsGoogleDriveUrl_def drive_fields drive_parse_folder)
  have q: "\<not> strings_Contains ''https://drive.google.com/drive/folders/F1'' ''?''"
    by (simp add: strings_Contains_def sublist_Cons_right)
  have enc: "find_encoded ?E [folder_script] = ''manifest''"
    by (simp add: drive_fields folder_script_marker folder_script_literals)
  have sp: "strings_Split ''Big folder - Google Drive'' '' - '' = [''Big folder'', ''Google Drive'']"
    by simp
  have base: "path_Base ''https://drive.google.com/drive/folders/F1?hl=en'' = ''F1?hl=en''"
    by (simp add: path_Base_def)
  have parse: "parseGoogleDriveFile ?E ''https://drive.google.com/drive/folders/F1?hl=en''
                 ''<html>folder page</html>'' =
      Inr (GoogleDriveFile ''F1?hl=en'' ''Big folder'' folder_type [], map manifest_child [0..<2])"
    unfolding parseGoogleDriveFile_def
    by (simp add: drive_fields enc decodeUnicodeEscapes_def sp base manifest_rows Let_def
        del: strings_Split.simps find_encoded.simps)
  have rq: "http_NewRequest ?E ''https://drive.google.com/drive/folders/F1?hl=en'' =
      Inr (folder_request ''F1'')"
    by (simp add: http_NewRequest_def drive_fields drive_parse_folder folder_request_F1)
  show ?thesis
    unfolding fetch_folder_page_def
    using g q
    by (simp add: rq client_Do_def drive_fields drive_server_def html_response_def io_ReadAll_def
        parse folder_request_F1)
qed

lemma drive_resolution:
  "downloadAndParseGoogleDriveLink (Suc 0) drive_env client
     ''https://drive.google.com/drive/folders/F1'' quiet rok verify w =
   Some (Inr (GoogleDriveFile ''F1?hl=en'' ''Big folder'' folder_type (map manifest_leaf [0..<2])),
         w\<lparr>sent := sent w @ [folder_request ''F1'']\<rparr>)"
  by (simp add: drive_page_fetch manifest_resolve MAX_NUMBER_FILES_def)

lemma itoa_digits: "itoa 0 = ''0''" "itoa 1 = ''1''"
  by simp_all

lemma drive_entries:
  "getDirectoryStructure
     (GoogleDriveFile ''F1?hl=en'' ''Big folder'' folder_type (map manifest_leaf [0..<2])) [] =
   [\<lparr>fd_ID = ''id0'', fd_Path = ''file0'', fd_LocalPath = []\<rparr>,
    \<lparr>fd_ID = ''id1'', fd_Path = ''file1'', fd_LocalPath = []\<rparr>]"
proof -
  have l: "map manifest_leaf [0..<2] =
      [GoogleDriveFile ''id0'' ''file0'' ''text/plain'' [],
       GoogleDriveFile ''id1'' ''file1'' ''text/plain'' []]"
    by (simp add: manifest_leaf_def upt_rec numeral_2_eq_2)
  show ?thesis
    unfolding l
    by (simp add: IsFolder_def strings_ReplaceAll_def filepath_Clean_def PathSeparator_def)
qed

lemma drive_client:
  "newHTTPClient drive_env (with_default_agent folder_options) = Inr default_client"
  by (simp add: newHTTPClient_def with_default_agent_def folder_options_def default_client_def)

lemma drive_list:
  "ListFolder (Suc 0) drive_env [] ''F1'' folder_options empty_world =
   Some (Inr [\<lparr>info_ID = ''id0'', info_Path = ''file0'',
               info_DownloadURL = ''https://drive.google.com/uc?id=id0'', info_IsFolder = False\<rparr>,
              \<lparr>info_ID = ''id1'', info_Path = ''file1'',
               info_DownloadURL = ''https://drive.google.com/uc?id=id1'', info_IsFolder = False\<rparr>],
         empty_world\<lparr>sent := [folder_request ''F1'']\<rparr>)"
  unfolding ListFolder_def
  by (simp add: drive_client drive_resolution drive_entries to_FileInfo_def empty_world_def
      del: downloadAndParseGoogleDriveLink.simps getDirectoryStructure.simps)

lemma drive_file_download:
  assumes i: "ident = ''id0'' \<or> ident = ''id1''"
    and free: "f dest = None" and d: "dest \<noteq> []"
  shows "Download drive_env (''https://drive.google.com/uc?id='' @ ident) dest
           (DownloadOptions.truncate (with_default_agent folder_options))
           \<lparr>fsys = f, sent = S\<rparr> =
         Some (Inr dest, \<lparr>fsys = f(dest \<mapsto> FFile ''data''), sent = S @ [file_request ident]\<rparr>)"
proof -
  let ?opts = "DownloadOptions.truncate (with_default_agent folder_options)"
  let ?u = "''https://drive.google.com/uc?id='' @ ident"
  let ?w = "\<lparr>fsys = f, sent = S\<rparr>"
  have o: "UserAgent ?opts = ''Mozilla/5.0 (compatible; gdown-go)''" "\<not> Resume ?opts"
    "Proxy ?opts = []" "Verify ?opts" "UseCookies ?opts"
    by (simp_all add: with_default_agent_def folder_options_def DownloadOptions.truncate_def)
  have pu: "\<exists>u. drive_Parse ?u = Inr u"
    using i by (auto simp: drive_Parse_def drive_urls_def)
  have rq: "download_request drive_env ?opts ?u dest (fsys ?w) = Inr (file_request ident)"
    using pu o
    by (auto simp: download_request_def http_NewRequest_def drive_fields Header_Set_def
        file_request_def)
  have nf: "rq_URL (file_request ident) \<noteq> ''https://drive.google.com/drive/folders/F1?hl=en''"
    by (simp add: file_request_def)
  have rs: "http_Do drive_env client (sent ?w) (file_request ident) = Inr file_response" for client
    using nf by (simp add: drive_fields drive_server_def)
  have ct: "\<not> strings_HasPrefix (Header_Get file_response ''Content-Type'') ''text/html''"
    by (simp add: file_response_def Header_Get_def strings_HasPrefix_def)
  have ne: "resolve_output drive_env f u dest file_response = Inr dest" for u
    using free d by (simp add: resolve_output_def drive_fields mem_Stat_def)
  have st: "\<not> rs_StatusCode file_response \<ge> 400" "rs_Body file_response = ''data''"
    "rs_BodyErr file_response = None"
    by (simp_all add: file_response_def)
  have fin: "Download_finish drive_env ?opts u dest file_response \<lparr>fsys = f, sent = S'\<rparr> =
             (Inr dest, \<lparr>fsys = f(dest \<mapsto> FFile ''data''), sent = S'\<rparr>)" for S' u
    unfolding Download_finish_def
    using free o(2)
    by (simp add: ne st drive_fields mem_Create_def io_CopyBuffer_def mem_Write_def)
  have cl: "newHTTPClient drive_env ?opts = Inr default_client"
    using o by (simp add: newHTTPClient_def default_client_def)
  have "Download_loop drive_env default_client ?opts ?u ?u dest ?w =
          Some (Inr dest, \<lparr>fsys = f(dest \<mapsto> FFile ''data''), sent = S @ [file_request ident]\<rparr>)"
    by (subst Download_loop_file_round[OF rq rs ct]) (simp add: fin)
  then show ?thesis
    using o(1) cl by (simp add: Download_def)
qed

lemma drive_download:
  "DownloadFolder (Suc 0) drive_env [] ''F1'' ''out'' folder_options empty_world =
   Some (Inr [''out/file0'', ''out/file1''],
         \<lparr>fsys = [''out'' \<mapsto> FDir, ''out/file0'' \<mapsto> FFile ''data'',
                  ''out/file1'' \<mapsto> FFile ''data''],
          sent = [folder_request ''F1'', file_request ''id0'', file_request ''id1'']\<rparr>)"
proof -
  have j: "filepath_Join [''out'', ''file0''] = ''out/file0''"
    "filepath_Join [''out'', ''file1''] = ''out/file1''"
    by (simp_all add: filepath_Clean_def PathSeparator_def)
  have d0: "Download drive_env ''https://drive.google.com/uc?id=id0'' ''out/file0''
           (DownloadOptions.truncate (with_default_agent folder_options))
           \<lparr>fsys = [''out'' \<mapsto> FDir], sent = [folder_request ''F1'']\<rparr> =
         Some (Inr ''out/file0'',
               \<lparr>fsys = [''out'' \<mapsto> FDir, ''out/file0'' \<mapsto> FFile ''data''],
                sent = [folder_request ''F1'', file_request ''id0'']\<rparr>)"
    using drive_file_download[of "''id0''" "[''out'' \<mapsto> FDir]" "''out/file0''"
        "[folder_request ''F1'']"] by simp
  have d1: "Download drive_env ''https://drive.google.com/uc?id=id1'' ''out/file1''
           (DownloadOptions.truncate (with_default_agent folder_options))
           \<lparr>fsys = [''out'' \<mapsto> FDir, ''out/file0'' \<mapsto> FFile ''data''],
            sent = [folder_request ''F1'', file_request ''id0'']\<rparr> =
         Some (Inr ''out/file1'',
               \<lparr>fsys = [''out'' \<mapsto> FDir, ''out/file0'' \<mapsto> FFile ''data'',
                        ''out/file1'' \<mapsto> FFile ''data''],
                sent = [folder_request ''F1'', file_request ''id0'', file_request ''id1'']\<rparr>)"
    using drive_file_download[of "''id1''" "[''out'' \<mapsto> FDir, ''out/file0'' \<mapsto> FFile ''data'']"
        "''out/file1''" "[folder_request ''F1'', file_request ''id0'']"] by simp
  have nr: "\<not> Resume (DownloadOptions.truncate (with_default_agent folder_options))"
    by (simp add: with_default_agent_def folder_options_def DownloadOptions.truncate_def)
  have files: "download_files drive_env (DownloadOptions.truncate (with_default_agent folder_options))
          ''out''
          [\<lparr>fd_ID = ''id0'', fd_Path = ''file0'', fd_LocalPath = []\<rparr>,
           \<lparr>fd_ID = ''id1'', fd_Path = ''file1'', fd_LocalPath = []\<rparr>] []
          \<lparr>fsys = [''out'' \<mapsto> FDir], sent = [folder_request ''F1'']\<rparr> =
        Some (Inr [''out/file0'', ''out/file1''],
         \<lparr>fsys = [''out'' \<mapsto> FDir, ''out/file0'' \<mapsto> FFile ''data'',
                  ''out/file1'' \<mapsto> FFile ''data''],
          sent = [folder_request ''F1'', file_request ''id0'', file_request ''id1'']\<rparr>)"
    using nr by (simp add: j d0 d1 del: filepath_Join.simps)
  have sfx: "\<not> strings_HasSuffix ''out'' [PathSeparator]"
    by (simp add: strings_HasSuffix_def PathSeparator_def suffix_def)
  show ?thesis
    unfolding DownloadFolder_def
    using sfx
    by (simp add: drive_client drive_resolution drive_entries empty_world_def drive_fields
        mem_MkdirAll_def files
        del: downloadAndParseGoogleDriveLink.simps getDirectoryStructure.simps
          download_files.simps filepath_Join.simps)
qed

theorem folder_arguments_witness:
  "ListFolder (Suc 0) (test_env no_server) ''https://drive.google.com/drive/folders/F1'' ''F1''
     folder_options empty_world = Some (Inl ErrEitherUrlOrId, empty_world) \<and>
   DownloadFolder (Suc 0) (test_env no_server) [] [] ''out'' folder_options empty_world
     = Some (Inl ErrEitherUrlOrId, empty_world) \<and>
   rq_URL (folder_request ''F1'') = ''https://drive.google.com/drive/folders/F1?hl=en'' \<and>
   ListFolder (Suc 0) (test_env no_server) [] ''F1'' folder_options empty_world =
     Some (Inl (LibError ''unreachable''), empty_world\<lparr>sent := [folder_request ''F1'']\<rparr>) \<and>
   DownloadFolder (Suc 0) (test_env no_server) [] ''F1'' ''out'' folder_options empty_world =
     Some (Inl (LibError ''unreachable''), empty_world\<lparr>sent := [folder_request ''F1'']\<rparr>) \<and>
   ListFolder (Suc 0) drive_env [] ''F1'' folder_options empty_world =
     Some (Inr [\<lparr>info_ID = ''id0'', info_Path = ''file0'',
                 info_DownloadURL = ''https://drive.google.com/uc?id=id0'', info_IsFolder = False\<rparr>,
                \<lparr>info_ID = ''id1'', info_Path = ''file1'',
                 info_DownloadURL = ''https://drive.google.com/uc?id=id1'', info_IsFolder = False\<rparr>],
           empty_world\<lparr>sent := [folder_request ''F1'']\<rparr>) \<and>
   DownloadFolder (Suc 0) drive_env [] ''F1'' ''out'' folder_options empty_world =
     Some (Inr [''out/file0'', ''out/file1''],
           \<lparr>fsys = [''out'' \<mapsto> FDir, ''out/file0'' \<mapsto> FFile ''data'',
                    ''out/file1'' \<mapsto> FFile ''data''],
            sent = [folder_request ''F1'', file_request ''id0'', file_request ''id1'']\<rparr>) \<and>
   prefix (sent empty_world @ [folder_request ''F1''])
     [folder_request ''F1'', file_request ''id0'', file_request ''id1''] \<and>
   ListFolder (Suc 0) drive_env ''https://drive.google.com/drive/folders/F1'' [] folder_options
       empty_world =
     ListFolder (Suc 0) drive_env [] ''F1'' folder_options empty_world \<and>
   DownloadFolder (Suc 0) drive_env ''https://drive.google.com/drive/folders/F1'' [] ''out''
       folder_options empty_world =
     DownloadFolder (Suc 0) drive_env [] ''F1'' ''out'' folder_options empty_world"
proof -
  let ?u = "\<lparr>Hostname = ''drive.google.com'', Path = ''/drive/folders/F1'', Query = Map.empty\<rparr>"
  let ?u' = "\<lparr>Hostname = ''drive.google.com'', Path = ''/drive/folders/F1'',
              Query = [''hl'' \<mapsto> [''en'']]\<rparr>"
  let ?N = "test_env no_server"
  let ?e = "LibError ''unreachable''"
  note bad1 = folder_arguments[of "''F1''" "''https://drive.google.com/drive/folders/F1''" "Suc 0"
      ?N folder_options empty_world "''out''"]
  note bad2 = folder_arguments[of "[]" "[]" "Suc 0" ?N folder_options empty_world "''out''"]
  note err = folder_arguments[of "''F1''" "[]" 0 ?N folder_options empty_world "''out''"
      ?u ?u' default_client ?e]
  note ok = folder_arguments[of "''F1''" "[]" "Suc 0" drive_env folder_options empty_world "''out''"
      ?u ?u' default_client ?e _ _
      "Inr [''out/file0'', ''out/file1'']"
      "\<lparr>fsys = [''out'' \<mapsto> FDir, ''out/file0'' \<mapsto> FFile ''data'',
                    ''out/file1'' \<mapsto> FFile ''data''],
            sent = [folder_request ''F1'', file_request ''id0'', file_request ''id1'']\<rparr>"]
  have 1: "ListFolder (Suc 0) ?N ''https://drive.google.com/drive/folders/F1'' ''F1''
     folder_options empty_world = Some (Inl ErrEitherUrlOrId, empty_world)"
    using bad1 by simp
  have 2: "DownloadFolder (Suc 0) ?N [] [] ''out'' folder_options empty_world
     = Some (Inl ErrEitherUrlOrId, empty_world)"
    using bad2 by simp
  have 3: "rq_URL (folder_request ''F1'') = ''https://drive.google.com/drive/folders/F1?hl=en''"
    by (simp add: folder_request_def)
  have pN: "url_Parse ?N (''https://drive.google.com/drive/folders/'' @ ''F1'') = Inr ?u"
    "url_Parse ?N (rq_URL (folder_request ''F1'')) = Inr ?u'"
    by (simp_all add: 3 test_env_def test_Parse_def test_urls_def)
  have cN: "newHTTPClient ?N (with_default_agent folder_options) = Inr default_client"
    by (simp add: newHTTPClient_def with_default_agent_def folder_options_def default_client_def)
  have dN: "http_Do ?N default_client (sent empty_world) (folder_request ''F1'') = Inl ?e"
    by (simp add: test_env_def no_server_def)
  have w0: "empty_world\<lparr>sent := sent empty_world @ [folder_request ''F1'']\<rparr> =
      empty_world\<lparr>sent := [folder_request ''F1'']\<rparr>"
    by (simp add: empty_world_def)
  have h: "Hostname ?u = ''drive.google.com''" "''F1'' \<noteq> []" by simp_all
  from err pN cN dN h
  have "ListFolder (Suc 0) ?N [] ''F1'' folder_options empty_world =
           Some (Inl ?e, empty_world\<lparr>sent := sent empty_world @ [folder_request ''F1'']\<rparr>) \<and>
        DownloadFolder (Suc 0) ?N [] ''F1'' ''out'' folder_options empty_world =
           Some (Inl ?e, empty_world\<lparr>sent := sent empty_world @ [folder_request ''F1'']\<rparr>)"
    by blast
  then have 4: "ListFolder (Suc 0) ?N [] ''F1'' folder_options empty_world =
           Some (Inl ?e, empty_world\<lparr>sent := [folder_request ''F1'']\<rparr>)"
    and 5: "DownloadFolder (Suc 0) ?N [] ''F1'' ''out'' folder_options empty_world =
           Some (Inl ?e, empty_world\<lparr>sent := [folder_request ''F1'']\<rparr>)"
    unfolding w0 by simp_all
  have pD: "url_Parse drive_env (''https://drive.google.com/drive/folders/'' @ ''F1'') = Inr ?u"
    "url_Parse drive_env (rq_URL (folder_request ''F1'')) = Inr ?u'"
    by (simp_all add: 3 drive_fields drive_parse_folder)
  from ok pD drive_client drive_download h
  have 8: "prefix (sent empty_world @ [folder_request ''F1''])
     (sent \<lparr>fsys = [''out'' \<mapsto> FDir, ''out/file0'' \<mapsto> FFile ''data'',
                    ''out/file1'' \<mapsto> FFile ''data''],
            sent = [folder_request ''F1'', file_request ''id0'', file_request ''id1'']\<rparr>)"
    by blast
  from ok h(2)
  have "ListFolder (Suc 0) drive_env [] ''F1'' folder_options empty_world =
          ListFolder (Suc 0) drive_env (''https://drive.google.com/drive/folders/'' @ ''F1'') []
            folder_options empty_world \<and>
        DownloadFolder (Suc 0) drive_env [] ''F1'' ''out'' folder_options empty_world =
          DownloadFolder (Suc 0) drive_env (''https://drive.google.com/drive/folders/'' @ ''F1'') []
            ''out'' folder_options empty_world"
    by blast
  then have 9: "ListFolder (Suc 0) drive_env ''https://drive.google.com/drive/folders/F1'' []
          folder_options empty_world =
        ListFolder (Suc 0) drive_env [] ''F1'' folder_options empty_world"
    and 10: "DownloadFolder (Suc 0) drive_env ''https://drive.google.com/drive/folders/F1'' []
          ''out'' folder_options empty_world =
        DownloadFolder (Suc 0) drive_env [] ''F1'' ''out'' folder_options empty_world"
    by simp_all
  from 1 2 3 4 5 drive_list drive_download 8 9 10 show ?thesis by simp
qed

text \<open>A result does not depend on the fuel left over: more fuel gives the same result.\<close>

lemma more_fuel:
  "(\<forall>urlStr rok w r.
      downloadAndParseGoogleDriveLink fuel E client urlStr quiet rok verify w = Some r \<longrightarrow>
      downloadAndParseGoogleDriveLink (Suc fuel) E client urlStr quiet rok verify w = Some r) \<and>
   (\<forall>children rok acc w r.
      resolve_children fuel E client quiet rok verify children acc w = Some r \<longrightarrow>
      resolve_children (Suc fuel) E client quiet rok verify children acc w = Some r)"
proof (induction fuel)
  case 0
  have "resolve_children 0 E client quiet rok verify children acc w = Some r \<Longrightarrow>
      resolve_children (Suc 0) E client quiet rok verify children acc w = Some r"
    for children rok acc w r
  proof (induction children arbitrary: acc w)
    case Nil
    then show ?case by simp
  next
    case (Cons child rest)
    then show ?case
      by (cases "ch_Type child \<noteq> folder_type")
        (simp_all add: Let_def del: downloadAndParseGoogleDriveLink.simps(2))
  qed
  then show ?case by simp
next
  case (Suc fuel)
  then have IHc: "\<And>children rok acc w r.
      resolve_children fuel E client quiet rok verify children acc w = Some r \<Longrightarrow>
      resolve_children (Suc fuel) E client quiet rok verify children acc w = Some r"
    by blast
  have P: "downloadAndParseGoogleDriveLink (Suc (Suc fuel)) E client urlStr quiet rok verify w = Some r"
    if a: "downloadAndParseGoogleDriveLink (Suc fuel) E client urlStr quiet rok verify w = Some r"
    for urlStr rok w r
  proof (cases "fetch_folder_page E client urlStr w")
    case (Pair res w1)
    show ?thesis
    proof (cases res)
      case (Inl e)
      with Pair a show ?thesis by simp
    next
      case (Inr gc)
      obtain gfile children where gc: "gc = (gfile, children)" by (cases gc)
      show ?thesis
      proof (cases "resolve_children fuel E client quiet rok verify children [] w1")
        case None
        with Pair Inr gc a show ?thesis by simp
      next
        case (Some x)
        from IHc[OF Some] Some Pair Inr gc a show ?thesis by simp
      qed
    qed
  qed
  have Q: "resolve_children (Suc (Suc fuel)) E client quiet rok verify children acc w = Some r"
    if "resolve_children (Suc fuel) E client quiet rok verify children acc w = Some r"
    for children rok acc w r
    using that
  proof (induction children arbitrary: acc w)
    case Nil
    then show ?case by simp
  next
    case (Cons child rest)
    show ?case
    proof (cases "ch_Type child \<noteq> folder_type")
      case True
      with Cons show ?thesis by simp
    next
      case False
      let ?u = "''https://drive.google.com/drive/folders/'' @ ch_ID child"
      show ?thesis
      proof (cases "downloadAndParseGoogleDriveLink (Suc fuel) E client ?u quiet rok verify w")
        case None
        with Cons.prems False show ?thesis
          by (simp add: Let_def del: downloadAndParseGoogleDriveLink.simps)
      next
        case (Some y)
        note up = P[OF Some]
        obtain res w1 where y: "y = (res, w1)" by (cases y)
        show ?thesis
        proof (cases res)
          case (Inl e)
          with Cons.prems False Some up y show ?thesis
            by (simp add: Let_def del: downloadAndParseGoogleDriveLink.simps)
        next
          case (Inr subFolder)
          with Cons.prems False Some y
          have "resolve_children (Suc fuel) E client quiet rok verify rest (acc @ [subFolder]) w1 = Some r"
            by (simp add: Let_def del: downloadAndParseGoogleDriveLink.simps)
          from Cons.IH[OF this] False up y Inr show ?thesis
            by (simp add: Let_def del: downloadAndParseGoogleDriveLink.simps)
        qed
      qed
    qed
  qed
  from P Q show ?case by blast
qed

section \<open>Properties of the flattening\<close>

lemma node_at_list_subtree: "node_at_list (Children g) q = Some n \<Longrightarrow> subtree_at g q = Some n"
  by (cases q) auto

lemma entries_match:
  "list_all2 (\<lambda>e q. \<exists>n. subtree_at g q = Some n \<and> fd_ID e = entry_id n) (getDirectoryStructure g p) (visit g)"
  "list_all2 (\<lambda>e q. \<exists>n. node_at_list (pre @ cs) q = Some n \<and> fd_ID e = entry_id n) (gds_children cs p) (visit_children cs (length pre))"
proof (induction g p and cs p arbitrary: and pre rule: getDirectoryStructure_gds_children.induct)
  case (1 i n t cs prevPath)
  have "list_all2 (\<lambda>e q. \<exists>n. node_at_list cs q = Some n \<and> fd_ID e = entry_id n)
          (gds_children cs prevPath) (visit_children cs 0)"
    using 1[of "[]"] by simp
  then show ?case
    by (auto elim!: list_all2_mono intro: node_at_list_subtree[of "GoogleDriveFile i n t cs", simplified])
next
  case (2 prevPath)
  show ?case by simp
next
  case (3 child rest prevPath)
  let ?R = "\<lambda>e q. \<exists>n. node_at_list (pre @ child # rest) q = Some n \<and> fd_ID e = entry_id n"
  have rest: "list_all2 ?R (gds_children rest prevPath) (visit_children rest (Suc (length pre)))"
    using 3(2)[OF refl, of "pre @ [child]"] by simp
  show ?case
  proof (cases "IsFolder child")
    case True
    have sub: "list_all2 (\<lambda>e q. \<exists>n. subtree_at child q = Some n \<and> fd_ID e = entry_id n)
       (getDirectoryStructure child (filepath_Join [prevPath, strings_ReplaceAll (Name child) [PathSeparator] ''_'']))
       (visit child)"
      using 3(1)[OF refl True refl] .
    have "list_all2 ?R (getDirectoryStructure child (filepath_Join [prevPath, strings_ReplaceAll (Name child) [PathSeparator] ''_'']))
       (map ((#) (length pre)) (visit child))"
      using sub by (simp add: list_all2_map2 nth_append)
    then show ?thesis using True rest
      by (simp add: Let_def list_all2_appendI entry_id_def nth_append)
  next
    case False
    then show ?thesis using rest
      by (simp add: Let_def list_all2_appendI entry_id_def nth_append)
  qed
qed

lemma strict_prefix_Cons_iff: "q \<noteq> [] \<Longrightarrow> strict_prefix q (k # r) \<longleftrightarrow> (\<exists>q'. q = k # q' \<and> strict_prefix q' r)"
  by (cases q) auto

lemma ancestors_before:
  "i < length (visit g) \<Longrightarrow> q \<noteq> [] \<Longrightarrow> strict_prefix q (visit g ! i) \<Longrightarrow>
     q \<in> set (take i (visit g)) \<and> (\<exists>a. subtree_at g q = Some a \<and> IsFolder a)"
  "i < length (visit_children cs (length pre)) \<Longrightarrow> q \<noteq> [] \<Longrightarrow>
     strict_prefix q (visit_children cs (length pre) ! i) \<Longrightarrow>
     q \<in> set (take i (visit_children cs (length pre))) \<and>
     (\<exists>a. node_at_list (pre @ cs) q = Some a \<and> IsFolder a)"
proof (induction g and cs "length pre" arbitrary: i q and i q pre rule: visit_visit_children.induct)
  case (1 d n t cs)
  have "i < length (visit_children cs (length ([]::GoogleDriveFile list)))" using 1(2) by simp
  moreover have "strict_prefix q (visit_children cs (length ([]::GoogleDriveFile list)) ! i)" using 1(4) by simp
  ultimately have "q \<in> set (take i (visit_children cs (length ([]::GoogleDriveFile list)))) \<and>
     (\<exists>a. node_at_list ([] @ cs) q = Some a \<and> IsFolder a)"
    using 1(1)[of "[]" i q] 1(3) by simp
  then show ?case
    by (auto intro: node_at_list_subtree[of "GoogleDriveFile d n t cs", simplified])
next
  case 2
  then show ?case by simp
next
  case (3 c rest pre)
  let ?k = "length pre"
  let ?A = "[?k] # (if IsFolder c then map ((#) ?k) (visit c) else [])"
  let ?B = "visit_children rest (Suc ?k)"
  have ps: "visit_children (c # rest) ?k = ?A @ ?B" by simp
  show ?case
  proof (cases "i < length ?A")
    case inA: True
    show ?thesis
    proof (cases i)
      case 0
      then have "visit_children (c # rest) ?k ! i = [?k]" by simp
      with 3(5) 3(4) show ?thesis by (cases q) auto
    next
      case (Suc i')
      with inA have fol: "IsFolder c" and i': "i' < length (visit c)"
        by (auto split: if_splits)
      have nth: "visit_children (c # rest) ?k ! i = ?k # (visit c ! i')"
        using Suc fol i' by (simp add: nth_append)
      from 3(5) nth 3(4) obtain q' where q: "q = ?k # q'" and sp: "strict_prefix q' (visit c ! i')"
        by (auto simp: strict_prefix_Cons_iff)
      have tk: "take i (visit_children (c # rest) ?k) = [?k] # map ((#) ?k) (take i' (visit c))"
        using Suc fol i' by (simp add: take_map)
      show ?thesis
      proof (cases "q' = []")
        case True
        then show ?thesis using q tk fol by (simp add: nth_append)
      next
        case False
        from 3(1)[OF fol i' False sp]
        have "q' \<in> set (take i' (visit c))" and "\<exists>a. subtree_at c q' = Some a \<and> IsFolder a"
          by auto
        then show ?thesis using q tk by (simp add: nth_append)
      qed
    qed
  next
    case notA: False
    define i2 where "i2 = i - length ?A"
    have i2: "i2 < length ?B" using 3(3) notA unfolding i2_def by (simp split: if_splits)
    have "(?A @ ?B) ! i = ?B ! i2"
      unfolding i2_def using notA by (simp only: nth_append if_False)
    then have nth: "visit_children (c # rest) ?k ! i = ?B ! i2"
      by (simp only: ps)
    have sk: "Suc ?k = length (pre @ [c])" by simp
    have "q \<in> set (take i2 (visit_children rest (length (pre @ [c])))) \<and>
      (\<exists>a. node_at_list ((pre @ [c]) @ rest) q = Some a \<and> IsFolder a)"
      using 3(2)[OF sk _ 3(4)] i2 3(5) nth by simp
    then have "q \<in> set (take i2 ?B)" and "\<exists>a. node_at_list (pre @ c # rest) q = Some a \<and> IsFolder a"
      by simp_all
    moreover have "take i (?A @ ?B) = ?A @ take i2 ?B"
    proof -
      have "length ?A \<le> i" using notA by (simp only: not_less)
      then have "take i ?A = ?A" by (rule take_all)
      then show ?thesis unfolding i2_def by (simp only: take_append)
    qed
    then have "take i (visit_children (c # rest) ?k) = ?A @ take i2 ?B"
      by (simp only: ps)
    ultimately show ?thesis by (simp only: set_append Un_iff append_Cons append_Nil) simp
  qed
qed

lemma nonempty_positions:
  "[] \<notin> set (visit g)" "[] \<notin> set (visit_children cs k)"
  by (induction g and cs k rule: visit_visit_children.induct) auto

text \<open>
  Claim C7.  The flattened listing has one entry for every visited position and none
  for the root (the empty position).  The entry of a folder node has the empty
  identifier, the entry of a file node has the identifier of that node, and every
  ancestor of a visited node below the root is a folder whose entry (with the empty
  identifier) stands strictly earlier in the listing.
\<close>

theorem getDirectoryStructure_preorder:
  "length (getDirectoryStructure g p) = length (visit g) \<and>
   [] \<notin> set (visit g) \<and>
   (\<forall>i<length (visit g). \<exists>n. subtree_at g (visit g ! i) = Some n \<and>
        fd_ID (getDirectoryStructure g p ! i) = (if IsFolder n then [] else ID n)) \<and>
   (\<forall>i<length (visit g). \<forall>q. q \<noteq> [] \<and> strict_prefix q (visit g ! i) \<longrightarrow>
        (\<exists>j<i. visit g ! j = q \<and> fd_ID (getDirectoryStructure g p ! j) = [] \<and>
           (\<exists>a. subtree_at g q = Some a \<and> IsFolder a)))"
proof -
  let ?es = "getDirectoryStructure g p" and ?ps = "visit g"
  have m: "list_all2 (\<lambda>e q. \<exists>n. subtree_at g q = Some n \<and> fd_ID e = entry_id n) ?es ?ps"
    by (rule entries_match(1))
  have len: "length ?es = length ?ps"
    using m by (rule list_all2_lengthD)
  have ids: "\<exists>n. subtree_at g (?ps ! i) = Some n \<and> fd_ID (?es ! i) = entry_id n"
    if "i < length ?ps" for i
    using list_all2_nthD2[OF m that] .
  have anc: "\<exists>j<i. ?ps ! j = q \<and> fd_ID (?es ! j) = [] \<and> (\<exists>a. subtree_at g q = Some a \<and> IsFolder a)"
    if i: "i < length ?ps" and q: "q \<noteq> []" "strict_prefix q (?ps ! i)" for i q
  proof -
    from ancestors_before(1)[OF i q]
    have mem: "q \<in> set (take i ?ps)" and fol: "\<exists>a. subtree_at g q = Some a \<and> IsFolder a"
      by auto
    from mem i obtain j where j: "j < i" "?ps ! j = q"
      by (auto simp: in_set_conv_nth)
    with i have "j < length ?ps" by simp
    from ids[OF this] j(2) fol have "fd_ID (?es ! j) = []"
      by (auto simp: entry_id_def)
    with j fol show ?thesis by blast
  qed
  show ?thesis
    using len nonempty_positions(1)[of g] ids anc by (simp add: entry_id_def)
qed

lemma example_visit: "visit example_tree = [[0], [0, 0], [1]]"
  by (simp add: example_tree_def IsFolder_def)

lemma example_entries:
  "getDirectoryStructure example_tree [] =
     [\<lparr>fd_ID = [], fd_Path = ''docs'', fd_LocalPath = ''docs''\<rparr>,
      \<lparr>fd_ID = ''f1'', fd_Path = ''docs/a_b.txt'', fd_LocalPath = []\<rparr>,
      \<lparr>fd_ID = ''f2'', fd_Path = ''report.txt'', fd_LocalPath = []\<rparr>]"
  by (simp add: example_tree_def IsFolder_def strings_ReplaceAll_def filepath_Clean_def
      PathSeparator_def Let_def)

text \<open>
  The statement at the example tree: three entries; the second is the file \<open>f1\<close>
  inside the folder, whose own entry comes first.
\<close>

theorem getDirectoryStructure_preorder_witness:
  "length (getDirectoryStructure example_tree []) = 3 \<and>
   fd_ID (getDirectoryStructure example_tree [] ! 1) = ''f1'' \<and>
   (\<exists>j<1. visit example_tree ! j = [0] \<and> fd_ID (getDirectoryStructure example_tree [] ! j) = [])"
proof -
  note th = getDirectoryStructure_preorder[of example_tree "[]"]
  have a: "(1::nat) < length (visit example_tree)" by (simp add: example_visit)
  have b: "[0] \<noteq> [] \<and> strict_prefix [0::nat] (visit example_tree ! 1)" by (simp add: example_visit)
  from th a b have "\<exists>j<1. visit example_tree ! j = [0] \<and> fd_ID (getDirectoryStructure example_tree [] ! j) = [] \<and>
           (\<exists>a. subtree_at example_tree [0] = Some a \<and> IsFolder a)" by blast
  moreover from th a have "\<exists>n. subtree_at example_tree (visit example_tree ! 1) = Some n \<and>
        fd_ID (getDirectoryStructure example_tree [] ! 1) = (if IsFolder n then [] else ID n)" by blast
  then have "fd_ID (getDirectoryStructure example_tree [] ! 1) = ''f1''"
    by (simp add: example_visit example_tree_def IsFolder_def)
  moreover from th have "length (getDirectoryStructure example_tree []) = 3"
    by (simp add: example_visit)
  ultimately show ?thesis by blast
qed

end
